(* ===== verification/Prelude.thy ===== *)
theory Prelude
  imports Main "HOL-Library.Multiset" "HOL-Library.Char_ord" "HOL-Library.List_Lexorder"
begin

text \<open>
  Shared vocabulary of the development: identifiers and clocks, JSON values, the errors of
  \<^verbatim>\<open>internal/storage\<close>, the SQL statements on a table (a table is the list of its rows, in scan
  order), and the generic lemmas on them that the component proofs use.

  \<^item> A UUID is its 128-bit value read as a number; PostgreSQL compares uuids bytewise, which is
    the order of these numbers. Freshly generated uuids are never made up here: the operations
    take them from the environment of the call.
  \<^item> An instant or a duration is an integer number of nanoseconds, as Go's
    \<^verbatim>\<open>time.Duration\<close> counts them.
  \<^item> In a JSON value, \<open>JUuid u\<close> is the JSON string holding the text form of the uuid \<open>u\<close> and
    \<open>JTime t\<close> the one holding the RFC 3339 text of the instant \<open>t\<close>; both texts stay abstract.
\<close>

section \<open>Proof collections\<close>

named_theorems table_simps \<open>rewriting of SELECT, UPDATE and INSERT on tables\<close>
named_theorems row_simps \<open>fields of rows after the SET clause of an UPDATE\<close>
named_theorems op_defs \<open>definitions of the operations of a component\<close>

section \<open>Identifiers, time and JSON\<close>

type_synonym uuid = nat
type_synonym time = int

abbreviation second :: time where "second \<equiv> 1000000000"

datatype json =
    JNull
  | JBool bool
  | JNum int
  | JStr string
  | JUuid uuid
  | JTime time
  | JArr "json list"
  | JObj "(string \<times> json) list"

definition json_field :: "string \<Rightarrow> json \<Rightarrow> json option" where
  "json_field k j = (case j of JObj kvs \<Rightarrow> map_of kvs k | _ \<Rightarrow> None)"

section \<open>Errors\<close>

text \<open>
  \<open>ErrNotFound\<close>, \<open>ErrConflict\<close> and \<open>ErrLeaseLost\<close> are the sentinel errors of
  \<^verbatim>\<open>storage/postgres.go\<close>; \<open>ErrMsg\<close> is an error made with \<^verbatim>\<open>fmt.Errorf\<close>, with its text;
  \<open>ErrDB\<close> is any other error of the database or of a third-party package.
\<close>

datatype err =
    ErrNotFound
  | ErrConflict
  | ErrLeaseLost
  | ErrMsg string
  | ErrDB string

type_synonym 'a res = "err + 'a"

section \<open>Tables\<close>

text \<open>
  \<^verbatim>\<open>UPDATE t SET f WHERE P\<close>, \<^verbatim>\<open>SELECT ... WHERE P\<close> and the single-row query
  \<^verbatim>\<open>QueryRow(... WHERE P)\<close>, whose \<open>None\<close> is \<^verbatim>\<open>pgx.ErrNoRows\<close>. The WHERE clause
  of an UPDATE reads the table as it was before the statement.
\<close>

definition update_where :: "('r \<Rightarrow> bool) \<Rightarrow> ('r \<Rightarrow> 'r) \<Rightarrow> 'r list \<Rightarrow> 'r list" where
  "update_where P f t = map (\<lambda>r. if P r then f r else r) t"

definition select :: "('r \<Rightarrow> bool) \<Rightarrow> 'r list \<Rightarrow> 'r list" where
  "select P t = filter P t"

definition query_row :: "('r \<Rightarrow> bool) \<Rightarrow> 'r list \<Rightarrow> 'r option" where
  "query_row P t = find P t"

definition rows_affected :: "('r \<Rightarrow> bool) \<Rightarrow> 'r list \<Rightarrow> nat" where
  "rows_affected P t = length (filter P t)"

definition exists_row :: "('r \<Rightarrow> bool) \<Rightarrow> 'r list \<Rightarrow> bool" where
  "exists_row P t = list_ex P t"

lemma set_update_where [table_simps]:
  "set (update_where P f t) = (\<lambda>r. if P r then f r else r) ` set t"
  by (simp add: update_where_def)

lemma bex_update_where:
  "(\<exists>r \<in> set (update_where P f t). Q r) \<longleftrightarrow> (\<exists>r \<in> set t. Q (if P r then f r else r))"
  unfolding set_update_where by blast

lemma ball_update_where:
  "(\<forall>r \<in> set (update_where P f t). Q r) \<longleftrightarrow> (\<forall>r \<in> set t. Q (if P r then f r else r))"
  unfolding set_update_where by blast

lemma update_where_cong:
  "(\<And>r. r \<in> set t \<Longrightarrow> P r \<longleftrightarrow> Q r) \<Longrightarrow> update_where P f t = update_where Q f t"
  by (simp add: update_where_def)

lemma length_update_where [simp]: "length (update_where P f t) = length t"
  by (simp add: update_where_def)

lemma update_where_Nil [simp]: "update_where P f [] = []"
  by (simp add: update_where_def)

lemma update_where_Cons [simp]:
  "update_where P f (r # t) = (if P r then f r else r) # update_where P f t"
  by (simp add: update_where_def)

lemma update_where_append [simp]:
  "update_where P f (s @ t) = update_where P f s @ update_where P f t"
  by (simp add: update_where_def)

lemma update_where_none: "(\<And>r. r \<in> set t \<Longrightarrow> \<not> P r) \<Longrightarrow> update_where P f t = t"
  by (simp add: update_where_def map_idI)

lemma set_select [table_simps]: "set (select P t) = {r \<in> set t. P r}"
  by (simp add: select_def)

lemma exists_row_iff [table_simps]: "exists_row P t \<longleftrightarrow> (\<exists>r \<in> set t. P r)"
  by (simp add: exists_row_def list_ex_iff)

lemma query_row_SomeD: "query_row P t = Some r \<Longrightarrow> r \<in> set t \<and> P r"
  by (auto simp: query_row_def find_Some_iff)

lemma query_row_None_iff: "query_row P t = None \<longleftrightarrow> (\<forall>r \<in> set t. \<not> P r)"
  by (auto simp: query_row_def find_None_iff)

lemma rows_affected_0_iff: "rows_affected P t = 0 \<longleftrightarrow> (\<forall>r \<in> set t. \<not> P r)"
  by (auto simp: rows_affected_def filter_empty_conv)

text \<open>A row function that keeps a column keeps that column of the whole table.\<close>

lemma map_update_where:
  "(\<And>r. r \<in> set t \<Longrightarrow> P r \<Longrightarrow> c (f r) = c r) \<Longrightarrow> map c (update_where P f t) = map c t"
  by (auto simp: update_where_def)

text \<open>With a primary key, the row found by the key is the only one with it.\<close>

lemma distinct_map_eq:
  "distinct (map k t) \<Longrightarrow> r \<in> set t \<Longrightarrow> s \<in> set t \<Longrightarrow> k r = k s \<Longrightarrow> r = s"
  by (auto simp: distinct_map dest: inj_onD)

lemma query_row_key:
  assumes "distinct (map k t)" and "r \<in> set t" and "P r"
    and "\<And>s. s \<in> set t \<Longrightarrow> P s \<Longrightarrow> k s = k r"
  shows "query_row P t = Some r"
proof (cases "query_row P t")
  case None
  with assms show ?thesis by (auto simp: query_row_None_iff)
next
  case (Some s)
  then have "s \<in> set t" and "P s" by (auto dest: query_row_SomeD)
  with assms have "s = r" by (blast intro: distinct_map_eq)
  with Some show ?thesis by simp
qed

lemma filter_single:
  assumes "distinct t" and "r \<in> set t" and "\<And>s. s \<in> set t \<Longrightarrow> P s \<longleftrightarrow> s = r"
  shows "filter P t = [r]"
proof -
  have "filter P t = filter (\<lambda>s. s = r) t" using assms(3) by (rule filter_cong [OF refl])
  also have "\<dots> = [r]" using assms(1,2) by (induction t) (auto simp: filter_empty_conv)
  finally show ?thesis .
qed

lemma query_row_update_where:
  "(\<And>r. Q r \<Longrightarrow> P (f r) \<longleftrightarrow> P r) \<Longrightarrow>
   query_row P (update_where Q f t) = map_option (\<lambda>r. if Q r then f r else r) (query_row P t)"
  by (induction t) (auto simp: query_row_def)

lemma query_row_append:
  "query_row P (s @ t) = (case query_row P s of Some r \<Rightarrow> Some r | None \<Rightarrow> query_row P t)"
  by (induction s) (auto simp: query_row_def)

end
