(* ===== verification/Go_Strings.thy ===== *)
theory Go_Strings
  imports Prelude "HOL-Library.Sublist"
begin

text \<open>
  What the program uses of the Go packages \<^verbatim>\<open>strings\<close>, \<^verbatim>\<open>strconv\<close>, \<^verbatim>\<open>encoding/hex\<close> and
  \<^verbatim>\<open>encoding/base64\<close>, on ASCII strings, and the substring search of \<^verbatim>\<open>storage/postgres.go\<close>.
\<close>

section \<open>Prefixes, trimming and splitting\<close>

definition HasPrefix :: "string \<Rightarrow> string \<Rightarrow> bool" where
  "HasPrefix s p \<longleftrightarrow> take (length p) s = p"

definition HasSuffix :: "string \<Rightarrow> string \<Rightarrow> bool" where
  "HasSuffix s p \<longleftrightarrow> length p \<le> length s \<and> drop (length s - length p) s = p"

definition TrimPrefix :: "string \<Rightarrow> string \<Rightarrow> string" where
  "TrimPrefix s p = (if HasPrefix s p then drop (length p) s else s)"

definition TrimSuffix :: "string \<Rightarrow> string \<Rightarrow> string" where
  "TrimSuffix s p = (if HasSuffix s p then take (length s - length p) s else s)"

definition TrimRight1 :: "string \<Rightarrow> char \<Rightarrow> string" where
  "TrimRight1 s c = rev (dropWhile (\<lambda>x. x = c) (rev s))"

definition Trim1 :: "string \<Rightarrow> char \<Rightarrow> string" where
  "Trim1 s c = TrimRight1 (dropWhile (\<lambda>x. x = c) s) c"

definition is_space :: "char \<Rightarrow> bool" where
  "is_space c \<longleftrightarrow> c \<in> set [CHR 0x09, CHR 0x0A, CHR 0x0B, CHR 0x0C, CHR 0x0D, CHR 0x20]"

definition TrimSpace :: "string \<Rightarrow> string" where
  "TrimSpace s = rev (dropWhile is_space (rev (dropWhile is_space s)))"

text \<open>\<^verbatim>\<open>strings.Split\<close> and \<^verbatim>\<open>strings.SplitN\<close> at a separator of one character.\<close>

fun Split :: "string \<Rightarrow> char \<Rightarrow> string list" where
  "Split [] c = [[]]"
| "Split (x # xs) c =
     (if x = c then [] # Split xs c
      else case Split xs c of [] \<Rightarrow> [[x]] | p # ps \<Rightarrow> (x # p) # ps)"

fun SplitN :: "string \<Rightarrow> char \<Rightarrow> nat \<Rightarrow> string list" where
  "SplitN s c 0 = []"
| "SplitN s c (Suc 0) = [s]"
| "SplitN [] c (Suc (Suc n)) = [[]]"
| "SplitN (x # xs) c (Suc (Suc n)) =
     (if x = c then [] # SplitN xs c (Suc n)
      else case SplitN xs c (Suc (Suc n)) of [] \<Rightarrow> [[x]] | p # ps \<Rightarrow> (x # p) # ps)"

fun Join :: "string list \<Rightarrow> char \<Rightarrow> string" where
  "Join [] c = []"
| "Join [p] c = p"
| "Join (p # q # ps) c = p @ c # Join (q # ps) c"

definition to_lower :: "char \<Rightarrow> char" where
  "to_lower c = (if of_char c \<in> {65 .. 90 :: nat} then char_of (of_char c + 32 :: nat) else c)"

definition ToLower :: "string \<Rightarrow> string" where
  "ToLower s = map to_lower s"

text \<open>\<^verbatim>\<open>strconv.Itoa\<close>.\<close>

fun decimal :: "nat \<Rightarrow> string" where
  "decimal n = (if n < 10 then [char_of (48 + n)] else decimal (n div 10) @ [char_of (48 + n mod 10)])"

declare decimal.simps [simp del]

definition Itoa :: "int \<Rightarrow> string" where
  "Itoa i = (if i < 0 then CHR ''-'' # decimal (nat (- i)) else decimal (nat i))"

definition is_digit :: "char \<Rightarrow> bool" where
  "is_digit c \<longleftrightarrow> of_char c \<in> {48 .. 57 :: nat}"

definition digits_value :: "string \<Rightarrow> int" where
  "digits_value s = foldl (\<lambda>n c. 10 * n + (of_char c - 48)) 0 s"

section \<open>Substring search\<close>

text \<open>\<^verbatim>\<open>contains\<close> of \<^verbatim>\<open>postgres.go\<close>: \<open>i\<close> runs while \<open>i + len(sub) <= len(s)\<close>.\<close>

fun contains_from :: "nat \<Rightarrow> string \<Rightarrow> string \<Rightarrow> nat \<Rightarrow> bool" where
  "contains_from 0 s sub i = False"
| "contains_from (Suc fuel) s sub i =
     (if i + length sub \<le> length s
      then take (length sub) (drop i s) = sub \<or> contains_from fuel s sub (i + 1)
      else False)"

text \<open>The loop ends after at most \<open>len(s) + 1\<close> rounds.\<close>

definition contains :: "string \<Rightarrow> string \<Rightarrow> bool" where
  "contains s sub = contains_from (Suc (length s)) s sub 0"

section \<open>Hexadecimal and base64\<close>

definition hex_digit :: "nat \<Rightarrow> char" where
  "hex_digit n = ''0123456789abcdef'' ! (n mod 16)"

definition EncodeHex :: "char list \<Rightarrow> string" where
  "EncodeHex bs = concat (map (\<lambda>b. [hex_digit (of_char b div 16), hex_digit (of_char b)]) bs)"

definition is_hex :: "char \<Rightarrow> bool" where
  "is_hex c \<longleftrightarrow> c \<in> set ''0123456789abcdefABCDEF''"

text \<open>\<^verbatim>\<open>hex.DecodeString\<close> accepts a string of hexadecimal digits of even length; the length of the result.\<close>

definition DecodeHex_length :: "string \<Rightarrow> nat option" where
  "DecodeHex_length s = (if list_all is_hex s \<and> even (length s) then Some (length s div 2) else None)"

text \<open>
  \<^verbatim>\<open>strconv.Quote\<close>, also the verb \<^verbatim>\<open>%q\<close>: its escapes of ASCII characters. A byte from 0x80 on is
  taken for a part of a printable character and stays.
\<close>

definition quote_char :: "char \<Rightarrow> string" where
  "quote_char c =
     (let n = of_char c :: nat
      in if n = 0x22 \<or> n = 0x5C then [CHR 0x5C, c]
         else if 7 \<le> n \<and> n \<le> 13 then [CHR 0x5C, ''abtnvfr'' ! (n - 7)]
         else if n < 32 \<or> n = 127 then [CHR 0x5C, CHR ''x'', hex_digit (n div 16), hex_digit n]
         else [c])"

definition quote :: "string \<Rightarrow> string" where
  "quote v = CHR 0x22 # concat (map quote_char v) @ [CHR 0x22]"

text \<open>
  \<^verbatim>\<open>strconv.Atoi\<close> for a 64-bit \<open>int\<close>: the magnitude is read as a \<open>uint64\<close>, and running out of its
  range is reported before any later character is looked at.
\<close>

definition Atoi :: "string \<Rightarrow> string + int" where
  "Atoi s =
     (let neg = HasPrefix s ''-'';
          t = (if neg \<or> HasPrefix s ''+'' then tl s else s);
          ds = takeWhile is_digit t;
          syntax_error = Inl (''strconv.Atoi: parsing '' @ quote s @ '': invalid syntax'');
          range_error = Inl (''strconv.Atoi: parsing '' @ quote s @ '': value out of range'')
      in if t = [] then syntax_error
         else if digits_value ds \<ge> 2 ^ 64 then range_error
         else if ds \<noteq> t then syntax_error
         else if neg then (if digits_value ds > 2 ^ 63 then range_error else Inr (- digits_value ds))
         else if digits_value ds \<ge> 2 ^ 63 then range_error else Inr (digits_value ds))"

definition base64url :: "nat \<Rightarrow> char" where
  "base64url n =
     (if n < 26 then char_of (n + 65) else if n < 52 then char_of (n + 71) else if n < 62 then char_of (n - 4)
      else if n = 62 then CHR ''-'' else CHR ''_'')"

fun RawURLEncode :: "char list \<Rightarrow> string" where
  "RawURLEncode [] = []"
| "RawURLEncode [a] =
     (let n = of_char a * 65536 :: nat
      in [base64url (n div 262144 mod 64), base64url (n div 4096 mod 64)])"
| "RawURLEncode [a, b] =
     (let n = of_char a * 65536 + of_char b * 256 :: nat
      in [base64url (n div 262144 mod 64), base64url (n div 4096 mod 64), base64url (n div 64 mod 64)])"
| "RawURLEncode (a # b # c # rest) =
     (let n = of_char a * 65536 + of_char b * 256 + of_char c :: nat
      in [base64url (n div 262144 mod 64), base64url (n div 4096 mod 64), base64url (n div 64 mod 64),
          base64url (n mod 64)] @ RawURLEncode rest)"

section \<open>Laws\<close>

lemma HasPrefix_iff: "HasPrefix s p \<longleftrightarrow> (\<exists>r. s = p @ r)"
  unfolding HasPrefix_def by (metis append_eq_conv_conj append_take_drop_id)

lemma TrimPrefix_append [simp]: "TrimPrefix (p @ r) p = r"
  by (simp add: TrimPrefix_def HasPrefix_def)

lemma HasPrefix_append [simp]: "HasPrefix (p @ r) p"
  by (simp add: HasPrefix_def)

lemma Split_not_Nil [simp]: "Split s c \<noteq> []"
  by (induction s) (auto split: list.splits)

lemma Join_Split: "Join (Split s c) c = s"
proof (induction s)
  case (Cons x xs)
  obtain p ps where ps: "Split xs c = p # ps" by (cases "Split xs c") simp_all
  with Cons show ?case by (cases ps) auto
qed simp

lemma Split_no_sep: "p \<in> set (Split s c) \<Longrightarrow> c \<notin> set p"
proof (induction s arbitrary: p)
  case (Cons x xs)
  obtain q qs where "Split xs c = q # qs" by (cases "Split xs c") simp_all
  with Cons show ?case by (cases "x = c") auto
qed simp

lemma SplitN_first:
  assumes "c \<notin> set p"
  shows "SplitN (p @ c # r) c (Suc (Suc n)) = p # SplitN r c (Suc n)"
  using assms by (induction p) auto

lemma contains_from_iff:
  "length s < fuel + i \<Longrightarrow>
     contains_from fuel s sub i \<longleftrightarrow> (\<exists>j \<ge> i. j + length sub \<le> length s \<and> take (length sub) (drop j s) = sub)"
proof (induction fuel s sub i rule: contains_from.induct)
  case (2 fuel s sub i)
  show ?case
  proof (cases "i + length sub \<le> length s")
    case True
    with 2 have IH: "contains_from fuel s sub (i + 1) \<longleftrightarrow>
        (\<exists>j \<ge> i + 1. j + length sub \<le> length s \<and> take (length sub) (drop j s) = sub)" by simp
    have "(\<exists>j \<ge> i. P j) \<longleftrightarrow> P i \<or> (\<exists>j \<ge> i + 1. P j)" for P
      by (metis Suc_eq_plus1 le_SucI le_refl not_less_eq_eq le_antisym)
    with IH True show ?thesis by simp
  qed auto
qed auto

lemma contains_iff_sublist: "contains s sub \<longleftrightarrow> sublist sub s"
proof -
  have "contains s sub \<longleftrightarrow> (\<exists>j. j + length sub \<le> length s \<and> take (length sub) (drop j s) = sub)"
    unfolding contains_def by (subst contains_from_iff) simp_all
  also have "\<dots> \<longleftrightarrow> sublist sub s"
  proof
    assume "\<exists>j. j + length sub \<le> length s \<and> take (length sub) (drop j s) = sub"
    then obtain j where "take (length sub) (drop j s) = sub" by blast
    then have "s = take j s @ sub @ drop (length sub) (drop j s)" by (metis append_take_drop_id)
    then show "sublist sub s" unfolding sublist_def by blast
  next
    assume "sublist sub s"
    then obtain ps ss where "s = ps @ sub @ ss" unfolding sublist_def by blast
    then show "\<exists>j. j + length sub \<le> length s \<and> take (length sub) (drop j s) = sub"
      by (intro exI [of _ "length ps"]) simp
  qed
  finally show ?thesis .
qed

lemma RawURLEncode_not_Nil: "RawURLEncode bs = [] \<longleftrightarrow> bs = []"
  by (cases bs rule: RawURLEncode.cases) (simp_all add: Let_def)

section \<open>Numbers\<close>

lemma digits_value_snoc: "digits_value (s @ [c]) = 10 * digits_value s + (of_char c - 48)"
  by (simp add: digits_value_def)

lemma int_of_char: "(of_char c :: int) = int (of_char c)"
  by (cases c) simp

lemma digit_nonneg: "is_digit c \<Longrightarrow> (48 :: int) \<le> of_char c"
  unfolding is_digit_def int_of_char by simp

lemma decimal_digits: "list_all is_digit (decimal n) \<and> decimal n \<noteq> [] \<and> digits_value (decimal n) = int n"
proof (induction n rule: less_induct)
  case (less n)
  show ?case
  proof (cases "n < 10")
    case True
    then show ?thesis by (subst (1 2 3) decimal.simps) (simp add: is_digit_def digits_value_def int_of_char del: of_nat_of_char)
  next
    case False
    have "10 * int (n div 10) + int (n mod 10) = int n"
      by (metis mult_div_mod_eq of_nat_add of_nat_mult of_nat_numeral)
    moreover have "is_digit (char_of (48 + n mod 10))" by (simp add: is_digit_def)
    moreover have "(of_char (char_of (48 + n mod 10)) :: int) = 48 + int (n mod 10)"
      by (simp add: int_of_char del: of_nat_of_char)
    ultimately show ?thesis using less [of "n div 10"] False
      by (subst (1 2 3) decimal.simps) (simp add: digits_value_snoc)
  qed
qed

lemma takeWhile_digits: "list_all is_digit t \<Longrightarrow> takeWhile is_digit t = t"
  by (auto simp: list_all_iff takeWhile_eq_all_conv)

text \<open>A number that is printed is read back.\<close>

lemma Atoi_Itoa: "- (2 ^ 63) \<le> n \<Longrightarrow> n < 2 ^ 63 \<Longrightarrow> Atoi (Itoa n) = Inr n"
proof -
  assume n: "- (2 ^ 63) \<le> n" "n < 2 ^ 63"
  define d where "d = decimal (nat \<bar>n\<bar>)"
  have d: "takeWhile is_digit d = d" "d \<noteq> []" "digits_value d = \<bar>n\<bar>" "list_all is_digit d"
    using decimal_digits [of "nat \<bar>n\<bar>"] by (simp_all add: d_def takeWhile_digits)
  then obtain c r where c: "d = c # r" "is_digit c" by (cases d) auto
  have sign: "\<not> HasPrefix d ''-''" "\<not> HasPrefix d ''+''" using c by (auto simp: is_digit_def HasPrefix_def)
  show ?thesis
  proof (cases "n < 0")
    case True
    then have i: "Itoa n = CHR ''-'' # d" and v: "digits_value d = - n" using d(3) by (simp_all add: Itoa_def d_def)
    have "HasPrefix (CHR ''-'' # d) ''-''" by (simp add: HasPrefix_def)
    with d(1,2) n True show ?thesis unfolding Atoi_def i Let_def by (simp add: v del: takeWhile_eq_all_conv)
  next
    case False
    then have i: "Itoa n = d" and v: "digits_value d = n" using d(3) by (simp_all add: Itoa_def d_def)
    from sign d(1,2) n False show ?thesis unfolding Atoi_def i Let_def by (simp add: v del: takeWhile_eq_all_conv)
  qed
qed

lemma Atoi_range: "Atoi s = Inr n \<Longrightarrow> - (2 ^ 63) \<le> n \<and> n < 2 ^ 63"
proof -
  have "0 \<le> digits_value ds" if "list_all is_digit ds" for ds
    using that
  proof (induction ds rule: rev_induct)
    case (snoc c ds)
    then show ?case using digit_nonneg [of c] by (simp add: digits_value_snoc)
  qed (simp add: digits_value_def)
  moreover have "list_all is_digit (takeWhile is_digit t)" for t by (auto simp: list_all_iff dest: set_takeWhileD)
  ultimately have "0 \<le> digits_value (takeWhile is_digit s)" "0 \<le> digits_value (takeWhile is_digit (tl s))" by blast+
  then show "Atoi s = Inr n \<Longrightarrow> - (2 ^ 63) \<le> n \<and> n < 2 ^ 63"
    by (auto simp: Atoi_def Let_def split: if_splits)
qed

end
