(* ===== verification/Dag.thy ===== *)
theory Dag
  imports Prelude
begin

text \<open>
  \<^verbatim>\<open>internal/workflow/model.go\<close> (task specifications and DAGs) and
  \<^verbatim>\<open>internal/workflow/dag.go\<close> (validation and defaults). A Go map is the association list of
  its entries; the order in which a \<^verbatim>\<open>range\<close> loop meets the keys is unspecified in Go, so
  \<open>ValidateDAG\<close> takes the order of each of its two loops as an argument. The main result is that,
  whatever these orders are, validation accepts exactly the specifications that satisfy the
  limits and whose dependency relation is acyclic.
\<close>

section \<open>Data\<close>

record task_spec =
  Handler :: string
  DependsOn :: "string list"
  MaximumAttempts :: int
  TimeoutSeconds :: int
  Priority :: int

record dag =
  dag_Name :: string
  dag_Tasks :: "(string \<times> task_spec) list"

datatype dag_error =
    NoTasks
  | TooManyTasks
  | InvalidTaskKey string
  | InvalidHandler string
  | BadMaximumAttempts string
  | BadTimeout string
  | SelfDependency string
  | MissingDependency string string
  | RepeatedDependency string string
  | TooManyEdges
  | Cycle string

definition MaxTasks :: nat where "MaxTasks = 500"
definition MaxEdges :: nat where "MaxEdges = 5000"

section \<open>Operations\<close>

text \<open>The regular expression \<^verbatim>\<open>^[A-Za-z][A-Za-z0-9_.-]{0,127}$\<close>.\<close>

definition is_letter :: "char \<Rightarrow> bool" where
  "is_letter c \<longleftrightarrow> (CHR ''A'' \<le> c \<and> c \<le> CHR ''Z'') \<or> (CHR ''a'' \<le> c \<and> c \<le> CHR ''z'')"

definition is_key_char :: "char \<Rightarrow> bool" where
  "is_key_char c \<longleftrightarrow>
     is_letter c \<or> (CHR ''0'' \<le> c \<and> c \<le> CHR ''9'') \<or> c \<in> set ''_.-''"


definition taskKeyPattern :: "string \<Rightarrow> bool" where
  "taskKeyPattern s =
     (case s of [] \<Rightarrow> False | c # cs \<Rightarrow> is_letter c \<and> list_all is_key_char cs \<and> length cs \<le> 127)"

text \<open>
  Indexing \<^verbatim>\<open>dag.Tasks[key]\<close> with an absent key yields the zero \<^verbatim>\<open>TaskSpec\<close>, which depends on
  nothing.
\<close>

definition deps_of :: "dag \<Rightarrow> string \<Rightarrow> string list" where
  "deps_of d k = (case map_of (dag_Tasks d) k of None \<Rightarrow> [] | Some s \<Rightarrow> DependsOn s)"

text \<open>The inner loop over \<^verbatim>\<open>task.DependsOn\<close>, with the map \<open>seen\<close> as a list.\<close>

fun check_deps :: "dag \<Rightarrow> string \<Rightarrow> string list \<Rightarrow> string list \<Rightarrow> dag_error option" where
  "check_deps d key seen [] = None"
| "check_deps d key seen (dep # deps) =
     (if dep = key then Some (SelfDependency key)
      else if map_of (dag_Tasks d) dep = None then Some (MissingDependency key dep)
      else if dep \<in> set seen then Some (RepeatedDependency key dep)
      else check_deps d key (dep # seen) deps)"

text \<open>The body of the first \<^verbatim>\<open>range dag.Tasks\<close> loop.\<close>

definition check_task :: "dag \<Rightarrow> string \<Rightarrow> task_spec \<Rightarrow> dag_error option" where
  "check_task d key task =
     (if \<not> taskKeyPattern key then Some (InvalidTaskKey key)
      else if \<not> taskKeyPattern (Handler task) then Some (InvalidHandler key)
      else if MaximumAttempts task < 0 \<or> MaximumAttempts task > 100 then Some (BadMaximumAttempts key)
      else if TimeoutSeconds task < 0 \<or> TimeoutSeconds task > 86400 then Some (BadTimeout key)
      else check_deps d key [] (DependsOn task))"

fun check_tasks :: "dag \<Rightarrow> string list \<Rightarrow> nat \<Rightarrow> dag_error + nat" where
  "check_tasks d [] edges = Inr edges"
| "check_tasks d (key # keys) edges =
     (case map_of (dag_Tasks d) key of
        None \<Rightarrow> check_tasks d keys edges
      | Some task \<Rightarrow>
          (case check_task d key task of
             Some e \<Rightarrow> Inl e
           | None \<Rightarrow> check_tasks d keys (edges + length (DependsOn task))))"

text \<open>
  The depth-first search. The map \<open>color\<close> of the source holds 0 for a key not met yet, 1 for a
  key on the search path and 2 for a finished key. \<open>visit\<close> is the recursive closure and
  \<open>visit_deps\<close> its loop over the dependencies.
\<close>

datatype color = Unseen | Active | Done

type_synonym colors = "string \<Rightarrow> color"

function visit :: "dag \<Rightarrow> colors \<Rightarrow> string \<Rightarrow> dag_error + colors"
  and visit_deps :: "dag \<Rightarrow> colors \<Rightarrow> string list \<Rightarrow> dag_error + colors" where
  "visit d c key =
     (if c key = Active then Inl (Cycle key)
      else if c key = Done then Inr c
      else (case visit_deps d (c(key := Active)) (deps_of d key) of
              Inl e \<Rightarrow> Inl e
            | Inr c' \<Rightarrow> Inr (c'(key := Done))))"
| "visit_deps d c [] = Inr c"
| "visit_deps d c (dep # deps) =
     (case visit d c dep of
        Inl e \<Rightarrow> Inl e
      | Inr c' \<Rightarrow> visit_deps d c' deps)"
  by pat_completeness auto

text \<open>A search only ever colours keys, so the set of unseen keys of the DAG shrinks.\<close>

lemma visit_colours_partial:
  shows "visit_visit_deps_dom (Inl (d, c, key)) \<Longrightarrow> visit d c key = Inr c' \<Longrightarrow>
           {x. c' x = Unseen} \<subseteq> {x. c x = Unseen}"
    and "visit_visit_deps_dom (Inr (d, c, ks)) \<Longrightarrow> visit_deps d c ks = Inr c' \<Longrightarrow>
           {x. c' x = Unseen} \<subseteq> {x. c x = Unseen}"
proof (induction d c key and d c ks arbitrary: c' and c' rule: visit_visit_deps.pinduct)
  case (1 d c key)
  then show ?case
    by (fastforce simp: visit.psimps split: if_splits sum.splits)
next
  case (2 d c)
  then show ?case by (simp add: visit_deps.psimps)
next
  case (3 d c dep deps)
  then show ?case by (fastforce simp: visit_deps.psimps split: sum.splits)
qed

definition unseen_keys :: "dag \<Rightarrow> colors \<Rightarrow> string set" where
  "unseen_keys d c = {x \<in> fst ` set (dag_Tasks d). c x = Unseen}"

lemma finite_unseen_keys [simp]: "finite (unseen_keys d c)"
  by (simp add: unseen_keys_def)

lemma deps_of_absent: "key \<notin> fst ` set (dag_Tasks d) \<Longrightarrow> deps_of d key = []"
  by (simp add: deps_of_def map_of_eq_None_iff [THEN iffD2])


termination visit
proof (relation "inv_image (finite_psubset <*lex*> less_than)
    (\<lambda>a. case a of Inl (d, c, key) \<Rightarrow> (unseen_keys d c, 1)
               | Inr (d, c, ks) \<Rightarrow> (unseen_keys d c, 2 * length ks))", goal_cases)
  case 1
  show ?case by auto
next
  case (2 d c key)
  then have unseen: "c key = Unseen" by (cases "c key") auto
  show ?case
  proof (cases "key \<in> fst ` set (dag_Tasks d)")
    case True
    with unseen have "unseen_keys d (c(key := Active)) \<subset> unseen_keys d c"
      by (auto simp: unseen_keys_def)
    then show ?thesis by simp
  next
    case False
    then have "unseen_keys d (c(key := Active)) = unseen_keys d c"
      by (auto simp: unseen_keys_def)
    with False show ?thesis by (simp add: deps_of_absent)
  qed
next
  case (3 d c dep deps)
  show ?case by simp
next
  case (4 d c dep deps c')
  then have "unseen_keys d c' \<subseteq> unseen_keys d c"
    using visit_colours_partial(1) [of d c dep c'] by (auto simp: unseen_keys_def)
  then show ?case by (auto simp: finite_psubset_def psubset_eq)
qed

declare visit.simps [simp del]

fun visit_all :: "dag \<Rightarrow> colors \<Rightarrow> string list \<Rightarrow> dag_error option" where
  "visit_all d c [] = None"
| "visit_all d c (key # keys) =
     (case visit d c key of Inl e \<Rightarrow> Some e | Inr c' \<Rightarrow> visit_all d c' keys)"

definition ValidateDAG :: "string list \<Rightarrow> string list \<Rightarrow> dag \<Rightarrow> dag_error option" where
  "ValidateDAG order1 order2 d =
     (if length (dag_Tasks d) = 0 then Some NoTasks
      else if length (dag_Tasks d) > MaxTasks then Some TooManyTasks
      else (case check_tasks d order1 0 of
              Inl e \<Rightarrow> Some e
            | Inr edges \<Rightarrow>
                if edges > MaxEdges then Some TooManyEdges
                else visit_all d (\<lambda>_. Unseen) order2))"

definition WithDefaults :: "task_spec \<Rightarrow> task_spec" where
  "WithDefaults spec =
     (let spec = (if MaximumAttempts spec = 0 then spec\<lparr>MaximumAttempts := 3\<rparr> else spec);
          spec = (if TimeoutSeconds spec = 0 then spec\<lparr>TimeoutSeconds := 300\<rparr> else spec)
      in spec)"

section \<open>Reference specification\<close>

text \<open>
  \<open>dep_rel d\<close> relates a task to each task it depends on. \<open>dag_ok\<close> is what validation is meant to
  accept: an order-free predicate.
\<close>

definition dep_rel :: "dag \<Rightarrow> (string \<times> string) set" where
  "dep_rel d = {(k, x). x \<in> set (deps_of d k)}"

definition task_ok :: "dag \<Rightarrow> string \<Rightarrow> task_spec \<Rightarrow> bool" where
  "task_ok d k s \<longleftrightarrow>
     taskKeyPattern k \<and> taskKeyPattern (Handler s) \<and>
     0 \<le> MaximumAttempts s \<and> MaximumAttempts s \<le> 100 \<and>
     0 \<le> TimeoutSeconds s \<and> TimeoutSeconds s \<le> 86400 \<and>
     distinct (DependsOn s) \<and> k \<notin> set (DependsOn s) \<and> set (DependsOn s) \<subseteq> fst ` set (dag_Tasks d)"

definition dag_ok :: "dag \<Rightarrow> bool" where
  "dag_ok d \<longleftrightarrow>
     dag_Tasks d \<noteq> [] \<and> length (dag_Tasks d) \<le> MaxTasks \<and>
     (\<forall>(k, s) \<in> set (dag_Tasks d). task_ok d k s) \<and>
     (\<Sum>(k, s) \<leftarrow> dag_Tasks d. length (DependsOn s)) \<le> MaxEdges \<and>
     acyclic (dep_rel d)"

section \<open>Correctness of the first loop\<close>

lemma check_deps_None_iff:
  "check_deps d key seen deps = None \<longleftrightarrow>
     distinct deps \<and> key \<notin> set deps \<and> set deps \<subseteq> fst ` set (dag_Tasks d) \<and> set deps \<inter> set seen = {}"
  by (induction d key seen deps rule: check_deps.induct) (auto simp: map_of_eq_None_iff)

lemma check_task_None_iff: "check_task d key s = None \<longleftrightarrow> task_ok d key s"
  by (auto simp: check_task_def task_ok_def check_deps_None_iff)

lemma check_tasks_Inr_iff:
  assumes "distinct (map fst (dag_Tasks d))" and "set keys \<subseteq> fst ` set (dag_Tasks d)"
  shows "check_tasks d keys n = Inr m \<longleftrightarrow>
    (\<forall>k \<in> set keys. task_ok d k (the (map_of (dag_Tasks d) k))) \<and>
    m = n + (\<Sum>k \<leftarrow> keys. length (deps_of d k))"
  using assms(2)
proof (induction keys arbitrary: n)
  case Nil
  then show ?case by auto
next
  case (Cons k keys)
  then obtain s where s: "map_of (dag_Tasks d) k = Some s"
    by (auto simp: weak_map_of_SomeI dest: weak_map_of_SomeI)
  with Cons show ?case
    by (auto simp: check_task_None_iff [symmetric] deps_of_def split: option.splits)
qed


section \<open>Correctness of the depth-first search\<close>

text \<open>
  Invariant of the colouring: the finished keys are closed under dependencies and none of them is
  on a cycle.
\<close>

definition done_ok :: "dag \<Rightarrow> colors \<Rightarrow> bool" where
  "done_ok d c \<longleftrightarrow>
     (\<forall>x. c x = Done \<longrightarrow> (\<forall>y \<in> set (deps_of d x). c y = Done) \<and> (x, x) \<notin> (dep_rel d)\<^sup>+)"

lemma done_ok_reaches_done:
  assumes "done_ok d c" and "(x, y) \<in> (dep_rel d)\<^sup>*" and "c x = Done"
  shows "c y = Done"
  using assms(2,3) by induction (use assms(1) in \<open>auto simp: done_ok_def dep_rel_def\<close>)

lemma done_ok_start: "c key = Unseen \<Longrightarrow> done_ok d c \<Longrightarrow> done_ok d (c(key := Active))"
  unfolding done_ok_def by (metis color.distinct(1,3,5) fun_upd_apply)

lemma done_ok_finish:
  assumes ok: "done_ok d c" and "c key = Active" and deps: "\<forall>y \<in> set (deps_of d key). c y = Done"
  shows "done_ok d (c(key := Done))"
proof -
  have "(key, key) \<notin> (dep_rel d)\<^sup>+"
  proof
    assume "(key, key) \<in> (dep_rel d)\<^sup>+"
    then obtain y where "(key, y) \<in> dep_rel d" and "(y, key) \<in> (dep_rel d)\<^sup>*"
      by (meson tranclD)
    with deps ok have "c key = Done"
      by (auto simp: dep_rel_def intro: done_ok_reaches_done)
    with \<open>c key = Active\<close> show False by simp
  qed
  with assms show ?thesis by (auto simp: done_ok_def)
qed

lemma visit_sound:
  shows "visit d c key = Inr c' \<Longrightarrow> done_ok d c \<Longrightarrow>
           done_ok d c' \<and> (\<forall>x. c' x = Active \<longleftrightarrow> c x = Active) \<and>
           (\<forall>x. c x = Done \<longrightarrow> c' x = Done) \<and> c' key = Done"
    and "visit_deps d c ks = Inr c' \<Longrightarrow> done_ok d c \<Longrightarrow>
           done_ok d c' \<and> (\<forall>x. c' x = Active \<longleftrightarrow> c x = Active) \<and>
           (\<forall>x. c x = Done \<longrightarrow> c' x = Done) \<and> (\<forall>k \<in> set ks. c' k = Done)"
proof (induction d c key and d c ks arbitrary: c' and c' rule: visit_visit_deps.induct)
  case (1 d c key)
  show ?case
  proof (cases "c key")
    case Unseen
    with "1.prems" obtain c2 where
      c2: "visit_deps d (c(key := Active)) (deps_of d key) = Inr c2" and c': "c' = c2(key := Done)"
      by (auto simp: visit.simps split: sum.splits)
    from Unseen "1.prems" have "done_ok d (c(key := Active))" by (simp add: done_ok_start)
    from "1.IH" [OF _ _ c2 this] Unseen
    have ok: "done_ok d c2" and act: "\<forall>x. c2 x = Active \<longleftrightarrow> (c(key := Active)) x = Active"
      and mono: "\<forall>x. (c(key := Active)) x = Done \<longrightarrow> c2 x = Done"
      and deps: "\<forall>k \<in> set (deps_of d key). c2 k = Done" by simp_all
    from act have "c2 key = Active" by simp
    with ok deps have "done_ok d c'" unfolding c' by (intro done_ok_finish) auto
    moreover from act mono Unseen have "\<forall>x. c' x = Active \<longleftrightarrow> c x = Active"
      and "\<forall>x. c x = Done \<longrightarrow> c' x = Done" and "c' key = Done" by (auto simp: c')
    ultimately show ?thesis by blast
  qed (use 1 in \<open>auto simp: visit.simps\<close>)
next
  case (2 d c)
  then show ?case by simp
next
  case (3 d c dep deps)
  from "3.prems"(1) obtain c1 where
    c1: "visit d c dep = Inr c1" and rest: "visit_deps d c1 deps = Inr c'"
    by (auto split: sum.splits)
  note first = "3.IH"(1) [OF c1 "3.prems"(2)]
  then have "done_ok d c1" by blast
  from "3.IH"(2) [OF c1 rest this] first show ?case by auto
qed

text \<open>Conversely, an error needs a path from the search path back to it, so a cycle.\<close>

lemma visit_complete:
  shows "acyclic (dep_rel d) \<Longrightarrow> done_ok d c \<Longrightarrow> (\<forall>g. c g = Active \<longrightarrow> (g, key) \<in> (dep_rel d)\<^sup>+) \<Longrightarrow>
           \<exists>c'. visit d c key = Inr c'"
    and "acyclic (dep_rel d) \<Longrightarrow> done_ok d c \<Longrightarrow>
           (\<forall>g. \<forall>k \<in> set ks. c g = Active \<longrightarrow> (g, k) \<in> (dep_rel d)\<^sup>+) \<Longrightarrow>
           \<exists>c'. visit_deps d c ks = Inr c'"
proof (induction d c key and d c ks rule: visit_visit_deps.induct)
  case (1 d c key)
  show ?case
  proof (cases "c key")
    case Active
    with "1.prems" show ?thesis by (auto simp: acyclic_def)
  next
    case Unseen
    have "\<forall>g. \<forall>k \<in> set (deps_of d key). (c(key := Active)) g = Active \<longrightarrow> (g, k) \<in> (dep_rel d)\<^sup>+"
      using "1.prems"(3) by (auto simp: dep_rel_def intro: trancl_into_trancl)
    with "1.IH" "1.prems" Unseen obtain c2 where
      "visit_deps d (c(key := Active)) (deps_of d key) = Inr c2"
      by (metis color.distinct(1,3) done_ok_start)
    with Unseen show ?thesis by (simp add: visit.simps)
  qed (auto simp: visit.simps)
next
  case (2 d c)
  then show ?case by simp
next
  case (3 d c dep deps)
  then obtain c1 where c1: "visit d c dep = Inr c1" by fastforce
  with visit_sound(1) [OF c1] "3.prems" have "done_ok d c1" and "\<forall>x. c1 x = Active \<longleftrightarrow> c x = Active"
    by auto
  with "3.IH"(2) [OF c1] "3.prems" c1 show ?case by auto
qed

lemma visit_all_None_sound:
  "visit_all d c keys = None \<Longrightarrow> done_ok d c \<Longrightarrow> k \<in> set keys \<or> c k = Done \<Longrightarrow> (k, k) \<notin> (dep_rel d)\<^sup>+"
proof (induction d c keys rule: visit_all.induct)
  case (1 d c)
  then show ?case by (auto simp: done_ok_def)
next
  case (2 d c key keys)
  then obtain c' where c': "visit d c key = Inr c'" "visit_all d c' keys = None"
    by (auto split: sum.splits)
  with visit_sound(1) [OF c'(1)] 2 show ?case by auto
qed

lemma visit_all_None_complete:
  assumes "acyclic (dep_rel d)"
  shows "done_ok d c \<Longrightarrow> \<forall>x. c x \<noteq> Active \<Longrightarrow> visit_all d c keys = None"
proof (induction keys arbitrary: c)
  case Nil
  then show ?case by simp
next
  case (Cons key keys)
  then obtain c' where c': "visit d c key = Inr c'"
    using visit_complete(1) [OF assms, of c key] by auto
  with visit_sound(1) [OF c'] Cons show ?case by auto
qed

lemma visit_all_None_iff:
  assumes "set keys = fst ` set (dag_Tasks d)"
  shows "visit_all d (\<lambda>_. Unseen) keys = None \<longleftrightarrow> acyclic (dep_rel d)"
proof
  assume ok: "visit_all d (\<lambda>_. Unseen) keys = None"
  show "acyclic (dep_rel d)"
  proof (rule acyclicI, intro allI notI)
    fix k
    assume cyc: "(k, k) \<in> (dep_rel d)\<^sup>+"
    then obtain y where "(k, y) \<in> dep_rel d" by (meson tranclD)
    then have "k \<in> set keys" using assms deps_of_absent by (fastforce simp: dep_rel_def)
    with visit_all_None_sound [OF ok] cyc show False by (auto simp: done_ok_def)
  qed
qed (auto intro: visit_all_None_complete simp: done_ok_def)

lemma ValidateDAG_iff:
  assumes "distinct (map fst (dag_Tasks d))"
    and "mset order1 = mset (map fst (dag_Tasks d))" and "mset order2 = mset (map fst (dag_Tasks d))"
  shows "ValidateDAG order1 order2 d = None \<longleftrightarrow> dag_ok d"
proof -
  from assms(2,3) have keys: "set order1 = fst ` set (dag_Tasks d)" "set order2 = fst ` set (dag_Tasks d)"
    by (metis mset_eq_setD set_map)+
  have sum: "(\<Sum>k \<leftarrow> order1. length (deps_of d k)) = (\<Sum>(k, s) \<leftarrow> dag_Tasks d. length (DependsOn s))"
  proof -
    have "(\<Sum>k \<leftarrow> order1. length (deps_of d k)) = (\<Sum>k \<leftarrow> map fst (dag_Tasks d). length (deps_of d k))"
      by (simp only: sum_mset_sum_list [symmetric] mset_map assms(2))
    also have "\<dots> = (\<Sum>(k, s) \<leftarrow> dag_Tasks d. length (DependsOn s))"
      using assms(1) by (intro arg_cong [where f = sum_list]) (auto simp: deps_of_def)
    finally show ?thesis .
  qed
  have tasks: "(\<forall>k \<in> set order1. task_ok d k (the (map_of (dag_Tasks d) k))) \<longleftrightarrow>
      (\<forall>(k, s) \<in> set (dag_Tasks d). task_ok d k s)"
    using assms(1) by (auto simp: keys)
  show ?thesis
  proof (cases "check_tasks d order1 0")
    case (Inl e)
    then have "\<not> (\<forall>k \<in> set order1. task_ok d k (the (map_of (dag_Tasks d) k)))"
      using check_tasks_Inr_iff [OF assms(1), of order1 0] keys by fastforce
    with Inl tasks show ?thesis by (simp add: ValidateDAG_def dag_ok_def)
  next
    case (Inr edges)
    with check_tasks_Inr_iff [OF assms(1), of order1 0 edges] keys sum tasks
      visit_all_None_iff [OF keys(2)] show ?thesis
      by (auto simp: ValidateDAG_def dag_ok_def)
  qed
qed

section \<open>What an accepted DAG guarantees\<close>

lemma dep_relE:
  assumes "(k, x) \<in> dep_rel d"
  obtains s where "(k, s) \<in> set (dag_Tasks d)" and "x \<in> set (DependsOn s)"
  using assms
  by (cases "map_of (dag_Tasks d) k") (auto simp: dep_rel_def deps_of_def dest: map_of_SomeD)

lemma dep_rel_subset: "dag_ok d \<Longrightarrow> dep_rel d \<subseteq> fst ` set (dag_Tasks d) \<times> fst ` set (dag_Tasks d)"
  by (force simp: dag_ok_def task_ok_def elim!: dep_relE)

lemma wf_converse_dep_rel:
  assumes "dag_ok d"
  shows "wf (dep_rel d)" and "wf ((dep_rel d)\<inverse>)"
proof -
  have "finite (dep_rel d)"
    using dep_rel_subset [OF assms] by (rule finite_subset) simp
  with assms show "wf (dep_rel d)" and "wf ((dep_rel d)\<inverse>)"
    by (simp_all add: dag_ok_def finite_acyclic_wf finite_acyclic_wf_converse)
qed

text \<open>Some task depends on nothing, so a run of an accepted DAG can start.\<close>

lemma dag_ok_has_root:
  assumes "dag_ok d" and "distinct (map fst (dag_Tasks d))"
  shows "\<exists>(k, s) \<in> set (dag_Tasks d). DependsOn s = []"
proof -
  from assms(1) obtain k0 where "k0 \<in> fst ` set (dag_Tasks d)"
    by (cases "dag_Tasks d") (auto simp: dag_ok_def)
  with wfE_min [OF wf_converse_dep_rel(2) [OF assms(1)]] obtain k where
    k: "k \<in> fst ` set (dag_Tasks d)" and
    min: "\<And>y. (y, k) \<in> (dep_rel d)\<inverse> \<Longrightarrow> y \<notin> fst ` set (dag_Tasks d)"
    by metis
  from k obtain s where s: "(k, s) \<in> set (dag_Tasks d)" by auto
  with assms(2) have "deps_of d k = DependsOn s" by (simp add: deps_of_def)
  moreover have "deps_of d k = []"
  proof (rule ccontr)
    assume "deps_of d k \<noteq> []"
    then have "(k, hd (deps_of d k)) \<in> dep_rel d" by (simp add: dep_rel_def)
    with min [of "hd (deps_of d k)"] dep_rel_subset [OF assms(1)] show False by auto
  qed
  ultimately show ?thesis using s by (intro bexI [of _ "(k, s)"]) auto
qed

lemma WithDefaults_fields [simp]:
  "Handler (WithDefaults s) = Handler s" "DependsOn (WithDefaults s) = DependsOn s"
  "Priority (WithDefaults s) = Priority s"
  by (simp_all add: WithDefaults_def Let_def)

lemma WithDefaults_bounds:
  "task_ok d k s \<Longrightarrow> 1 \<le> MaximumAttempts (WithDefaults s) \<and> MaximumAttempts (WithDefaults s) \<le> 100 \<and>
     1 \<le> TimeoutSeconds (WithDefaults s) \<and> TimeoutSeconds (WithDefaults s) \<le> 86400"
  by (auto simp: WithDefaults_def task_ok_def Let_def)

section \<open>Property\<close>

text \<open>
  C18. Whatever order Go ranges over the task map in, \<^verbatim>\<open>ValidateDAG\<close> accepts a specification exactly
  when it has between 1 and 500 tasks and at most 5000 edges, every task is well formed with
  existing, distinct dependencies other than itself, and the dependency relation is acyclic.
\<close>

theorem ValidateDAG_accepts_iff:
  assumes "distinct (map fst (dag_Tasks d))"
    and "mset order1 = mset (map fst (dag_Tasks d))" and "mset order2 = mset (map fst (dag_Tasks d))"
  shows "ValidateDAG order1 order2 d = None \<longleftrightarrow>
     dag_Tasks d \<noteq> [] \<and> length (dag_Tasks d) \<le> 500 \<and> (\<Sum>(k, s) \<leftarrow> dag_Tasks d. length (DependsOn s)) \<le> 5000 \<and>
     (\<forall>(k, s) \<in> set (dag_Tasks d). task_ok d k s) \<and> acyclic (dep_rel d)"
  using ValidateDAG_iff [OF assms] by (auto simp: dag_ok_def MaxTasks_def MaxEdges_def)

text \<open>A two-task cycle is rejected, an edge between two tasks is accepted.\<close>

definition pair_dag :: "string list \<Rightarrow> dag" where
  "pair_dag deps = \<lparr>dag_Name = ''d'', dag_Tasks =
     [(''a'', \<lparr>Handler = ''h'', DependsOn = deps, MaximumAttempts = 2, TimeoutSeconds = 0, Priority = 0\<rparr>),
      (''b'', \<lparr>Handler = ''h'', DependsOn = [''a''], MaximumAttempts = 0, TimeoutSeconds = 0, Priority = 5\<rparr>)]\<rparr>"

theorem ValidateDAG_accepts_iff_witness:
  "acyclic (dep_rel (pair_dag [])) \<and> \<not> acyclic (dep_rel (pair_dag [''b'']))"
proof
  have "ValidateDAG [''a'', ''b''] [''b'', ''a''] (pair_dag []) = None" by code_simp
  then show "acyclic (dep_rel (pair_dag []))"
    using ValidateDAG_accepts_iff [of "pair_dag []" "[''a'', ''b'']" "[''b'', ''a'']"] by (simp add: pair_dag_def)
  have "ValidateDAG [''a'', ''b''] [''b'', ''a''] (pair_dag [''b'']) = Some (Cycle ''b'')" by code_simp
  moreover have "\<forall>(k, s) \<in> set (dag_Tasks (pair_dag [''b''])). task_ok (pair_dag [''b'']) k s"
    by (simp add: pair_dag_def task_ok_def) code_simp
  ultimately show "\<not> acyclic (dep_rel (pair_dag [''b'']))"
    using ValidateDAG_accepts_iff [of "pair_dag [''b'']" "[''a'', ''b'']" "[''b'', ''a'']"] by (simp add: pair_dag_def)
qed

end
