(* ===== verification/Task_State.thy ===== *)
theory Task_State
  imports Prelude
begin

text \<open>
  \<^verbatim>\<open>internal/workflow/state.go\<close>: the task lifecycle table and the retry back-off. The statuses are
  the constructors of the PostgreSQL enums \<^verbatim>\<open>task_status\<close> and \<^verbatim>\<open>workflow_status\<close>
  (\<^verbatim>\<open>migrations/001_initial.up.sql\<close>).
\<close>

datatype task_status =
    BLOCKED | READY | DISPATCHING | LEASED | RUNNING | SUCCEEDED | FAILED | RETRY_WAIT | DEAD | CANCELLED

datatype workflow_status = RunPending | RunRunning | RunSucceeded | RunFailed | RunCancelled

text \<open>The rows of the map \<^verbatim>\<open>transitions\<close>; a status without a row has no successor.\<close>

fun transitions :: "task_status \<Rightarrow> task_status list" where
  "transitions BLOCKED = [READY, CANCELLED]"
| "transitions READY = [DISPATCHING, CANCELLED]"
| "transitions DISPATCHING = [LEASED, READY, CANCELLED]"
| "transitions LEASED = [RUNNING, RETRY_WAIT, DEAD, CANCELLED]"
| "transitions RUNNING = [SUCCEEDED, RETRY_WAIT, DEAD, CANCELLED]"
| "transitions RETRY_WAIT = [READY, CANCELLED]"
| "transitions _ = []"

definition CanTransition :: "task_status \<Rightarrow> task_status \<Rightarrow> bool" where
  "CanTransition from to \<longleftrightarrow> to \<in> set (transitions from)"

text \<open>
  \<^verbatim>\<open>math.Min(3600, 2*math.Pow(2, float64(attempt-1)))\<close> seconds. Powers of two are exact in
  binary64 up to the overflow to infinity, where the minimum is 3600 as well, so the integer
  computation gives the same number of nanoseconds.
\<close>

definition RetryDelay :: "int \<Rightarrow> time" where
  "RetryDelay attempt =
     (let attempt = (if attempt < 1 then 1 else attempt);
          seconds = min 3600 (2 * 2 ^ nat (attempt - 1))
      in seconds * second)"

lemma RetryDelay_bounds: "2 * second \<le> RetryDelay n" "RetryDelay n \<le> 3600 * second"
proof -
  have "(1::int) \<le> 2 ^ m" for m by simp
  then show "2 * second \<le> RetryDelay n" "RetryDelay n \<le> 3600 * second"
    by (auto simp: RetryDelay_def Let_def min_def)
qed

lemma RetryDelay_doubles:
  assumes "1 \<le> n" and "n \<le> 10"
  shows "RetryDelay (n + 1) = 2 * RetryDelay n"
proof -
  have "n \<in> {1, 2, 3, 4, 5, 6, 7, 8, 9, 10}"
    using assms unfolding insert_iff empty_iff by presburger
  then show ?thesis by (auto simp: RetryDelay_def Let_def)
qed

lemma RetryDelay_capped:
  assumes "12 \<le> n"
  shows "RetryDelay n = 3600 * second"
proof -
  have "(2::int) ^ 11 \<le> 2 ^ nat (n - 1)"
    using assms by (intro power_increasing) auto
  with assms show ?thesis by (simp add: RetryDelay_def Let_def)
qed

lemma RetryDelay_mono:
  assumes "m \<le> n"
  shows "RetryDelay m \<le> RetryDelay n"
proof -
  let ?e = "\<lambda>n. nat ((if n < 1 then 1 else n) - 1 :: int)"
  have pow: "(2::int) ^ ?e m \<le> 2 ^ ?e n"
    using assms by (intro power_increasing) auto
  have "RetryDelay k = min 3600 (2 * 2 ^ ?e k) * second" for k
    by (simp add: RetryDelay_def Let_def)
  moreover have "min 3600 (2 * 2 ^ ?e m) \<le> min 3600 (2 * 2 ^ ?e n :: int)"
    using pow by linarith
  ultimately show ?thesis by simp
qed

text \<open>Terminal statuses of the lifecycle have no successor.\<close>

lemma terminal_no_transition:
  "s \<in> {SUCCEEDED, DEAD, CANCELLED, FAILED} \<Longrightarrow> \<not> CanTransition s t"
  by (auto simp: CanTransition_def)

text \<open>
  The retry delay starts at two seconds, doubles with every attempt up to the eleventh, never
  exceeds an hour and never shrinks when the attempt number grows.
\<close>

theorem RetryDelay_backoff:
  "RetryDelay 1 = 2 * second \<and> (1 \<le> n \<and> n \<le> 10 \<longrightarrow> RetryDelay (n + 1) = 2 * RetryDelay n) \<and>
   RetryDelay n \<le> 3600 * second \<and> (12 \<le> n \<longrightarrow> RetryDelay n = 3600 * second) \<and> (m \<le> n \<longrightarrow> RetryDelay m \<le> RetryDelay n)"
  using RetryDelay_doubles [of n] RetryDelay_bounds [of n] RetryDelay_capped [of n] RetryDelay_mono [of m n]
  by (auto simp: RetryDelay_def)

theorem RetryDelay_backoff_witness:
  "RetryDelay 4 = 2 * RetryDelay 3 \<and> RetryDelay 12 = 3600 * second \<and> RetryDelay 3 \<le> RetryDelay 12"
  using RetryDelay_backoff [of 3 3] RetryDelay_backoff [of 12 3] by simp

end
