(* ===== verification/Database.thy ===== *)
theory Database
  imports Dag Task_State
begin

text \<open>
  The PostgreSQL schema the program keeps its state in (\<^verbatim>\<open>migrations/*.up.sql\<close>), as the row
  structs of \<^verbatim>\<open>workflow/model.go\<close> and \<^verbatim>\<open>internal/storage\<close> read and write it. A table is the
  list of its rows in scan order; the state \<open>db\<close> is the record of all tables. Columns that no
  modelled statement reads or writes (surrogate keys of audit events and attempts) are left out.

  \<open>env\<close> is what a call reads from outside the database: the database clock \<^verbatim>\<open>now()\<close>, which
  PostgreSQL fixes at the start of the transaction, the clock of the Go process, the stream of
  uuids generated during the call (\<^verbatim>\<open>gen_random_uuid()\<close>, \<^verbatim>\<open>uuid.NewString()\<close>) and the trace
  parent of the request context.
\<close>

record env =
  e_now :: time
  e_gonow :: time
  e_uuid :: "nat \<Rightarrow> uuid"
  e_trace :: string

section \<open>Rows\<close>

record definition_row =
  wd_id :: uuid
  wd_tenant_id :: uuid
  wd_name :: string
  wd_version :: int
  wd_dag_spec :: dag
  wd_created_by :: "uuid option"
  wd_created_at :: time

record run_row =
  wr_id :: uuid
  wr_tenant_id :: uuid
  wr_workflow_definition_id :: uuid
  wr_workflow_version :: int
  wr_status :: workflow_status
  wr_input :: json
  wr_input_artifact_uri :: "string option"
  wr_idempotency_key :: string
  wr_trace_parent :: string
  wr_started_at :: "time option"
  wr_completed_at :: "time option"
  wr_created_at :: time

record task_row =
  tr_id :: uuid
  tr_workflow_run_id :: uuid
  tr_task_key :: string
  tr_handler :: string
  tr_status :: task_status
  tr_priority :: int
  tr_available_at :: time
  tr_attempt_count :: int
  tr_maximum_attempts :: int
  tr_timeout_seconds :: int
  tr_lease_owner :: "string option"
  tr_lease_expires_at :: "time option"
  tr_input :: json
  tr_output :: "json option"
  tr_output_artifact_uri :: "string option"
  tr_created_at :: time
  tr_updated_at :: time

record dependency_row =
  td_workflow_run_id :: uuid
  td_task_run_id :: uuid
  td_depends_on_task_run_id :: uuid

record attempt_row =
  ta_task_run_id :: uuid
  ta_attempt_number :: int
  ta_worker_id :: string
  ta_scheduled_at :: time
  ta_executing_at :: "time option"
  ta_started_at :: time
  ta_ended_at :: "time option"
  ta_exit_status :: "task_status option"
  ta_error_type :: "string option"
  ta_error_message :: "string option"
  ta_trace_id :: "string option"
  ta_artifact_uri :: "string option"
  ta_log_artifact_uri :: "string option"

record outbox_row =
  ob_id :: uuid
  ob_aggregate_type :: string
  ob_aggregate_id :: uuid
  ob_event_type :: string
  ob_payload :: json
  ob_trace_parent :: string
  ob_ordering_key :: uuid
  ob_published_at :: "time option"
  ob_created_at :: time
  ob_claim_token :: "uuid option"
  ob_claim_expires_at :: "time option"
  ob_publish_attempts :: int

record schedule_row =
  sc_id :: uuid
  sc_tenant_id :: uuid
  sc_workflow_definition_id :: uuid
  sc_cron_expression :: string
  sc_timezone :: string
  sc_next_execution_at :: time
  sc_misfire_policy :: string
  sc_enabled :: bool

record audit_row =
  au_tenant_id :: uuid
  au_actor_id :: "uuid option"
  au_action :: string
  au_resource_type :: string
  au_resource_id :: uuid
  au_metadata :: json
  au_created_at :: time

record worker_row =
  wh_tenant_id :: uuid
  wh_worker_id :: string
  wh_handlers :: "string list"
  wh_active_tasks :: int
  wh_metadata :: json
  wh_last_seen_at :: time

datatype artifact_status = ArtifactPending | ArtifactReady

record artifact_row =
  ar_id :: uuid
  ar_tenant_id :: uuid
  ar_kind :: string
  ar_status :: artifact_status
  ar_object_key :: string
  ar_object_uri :: string
  ar_content_type :: string
  ar_declared_size :: int
  ar_size_bytes :: "int option"
  ar_checksum_sha256 :: "string option"
  ar_workflow_run_id :: "uuid option"
  ar_task_run_id :: "uuid option"
  ar_created_by :: "uuid option"
  ar_ready_at :: "time option"
  ar_created_at :: time

record api_key_row =
  ak_id :: uuid
  ak_tenant_id :: uuid
  ak_name :: string
  ak_key_hash :: string
  ak_scopes :: "string list"
  ak_expires_at :: "time option"
  ak_revoked_at :: "time option"
  ak_last_used_at :: "time option"
  ak_created_by :: "uuid option"
  ak_created_at :: time

record user_row =
  us_id :: uuid
  us_tenant_id :: uuid
  us_oidc_subject :: string
  us_role :: string

record db =
  db_definitions :: "definition_row list"
  db_runs :: "run_row list"
  db_tasks :: "task_row list"
  db_deps :: "dependency_row list"
  db_attempts :: "attempt_row list"
  db_outbox :: "outbox_row list"
  db_schedules :: "schedule_row list"
  db_audit :: "audit_row list"
  db_workers :: "worker_row list"
  db_artifacts :: "artifact_row list"
  db_api_keys :: "api_key_row list"
  db_users :: "user_row list"

definition empty_db :: db where
  "empty_db = \<lparr>db_definitions = [], db_runs = [], db_tasks = [], db_deps = [], db_attempts = [],
     db_outbox = [], db_schedules = [], db_audit = [], db_workers = [], db_artifacts = [],
     db_api_keys = [], db_users = []\<rparr>"

section \<open>Shared statements\<close>

text \<open>
  The generated column \<^verbatim>\<open>ordering_key\<close> of \<^verbatim>\<open>outbox_events\<close>:
  \<^verbatim>\<open>COALESCE(NULLIF(payload->>'workflow_run_id', '')::UUID, aggregate_id)\<close>.
\<close>

definition ordering_key :: "json \<Rightarrow> uuid \<Rightarrow> uuid" where
  "ordering_key payload agg =
     (case json_field ''workflow_run_id'' payload of Some (JUuid u) \<Rightarrow> u | _ \<Rightarrow> agg)"

definition outbox_event :: "env \<Rightarrow> nat \<Rightarrow> string \<Rightarrow> uuid \<Rightarrow> string \<Rightarrow> json \<Rightarrow> string \<Rightarrow> outbox_row" where
  "outbox_event e i agg_type agg_id ev payload trace =
     \<lparr>ob_id = e_uuid e i, ob_aggregate_type = agg_type, ob_aggregate_id = agg_id,
      ob_event_type = ev, ob_payload = payload, ob_trace_parent = trace,
      ob_ordering_key = ordering_key payload agg_id, ob_published_at = None,
      ob_created_at = e_now e, ob_claim_token = None, ob_claim_expires_at = None,
      ob_publish_attempts = 0\<rparr>"

definition insert_outbox :: "outbox_row list \<Rightarrow> db \<Rightarrow> db" where
  "insert_outbox evs s = s\<lparr>db_outbox := db_outbox s @ evs\<rparr>"

definition insert_audit ::
    "env \<Rightarrow> uuid \<Rightarrow> uuid option \<Rightarrow> string \<Rightarrow> string \<Rightarrow> uuid \<Rightarrow> json \<Rightarrow> db \<Rightarrow> db" where
  "insert_audit e tenant actor action rtype rid meta s =
     s\<lparr>db_audit := db_audit s @
        [\<lparr>au_tenant_id = tenant, au_actor_id = actor, au_action = action, au_resource_type = rtype,
          au_resource_id = rid, au_metadata = meta, au_created_at = e_now e\<rparr>]\<rparr>"

text \<open>The join \<^verbatim>\<open>task_runs t JOIN workflow_runs r ON r.id = t.workflow_run_id\<close> at one task.\<close>

definition run_of :: "db \<Rightarrow> uuid \<Rightarrow> run_row option" where
  "run_of s rid = query_row (\<lambda>r. wr_id r = rid) (db_runs s)"

text \<open>\<^verbatim>\<open>task_run_id=$1 AND attempt_number=$2\<close>, the key of \<^verbatim>\<open>task_attempts\<close>.\<close>

definition attempt_is :: "uuid \<Rightarrow> int \<Rightarrow> attempt_row \<Rightarrow> bool" where
  "attempt_is tid n a \<longleftrightarrow> ta_task_run_id a = tid \<and> ta_attempt_number a = n"

text \<open>
  The subquery shared by \<^verbatim>\<open>CompleteTask\<close> and \<^verbatim>\<open>ReplayDead\<close>: a task depends on some task that
  has not succeeded.
\<close>

definition unmet :: "task_row list \<Rightarrow> dependency_row list \<Rightarrow> task_row \<Rightarrow> bool" where
  "unmet ts ds t \<longleftrightarrow>
     exists_row (\<lambda>d. td_task_run_id d = tr_id t \<and>
        exists_row (\<lambda>u. tr_id u = td_depends_on_task_run_id d \<and> tr_status u \<noteq> SUCCEEDED) ts) ds"

text \<open>A PostgreSQL \<^verbatim>\<open>INTEGER\<close> column holds 32 bits; storing anything else is an error.\<close>

definition int4_ok :: "int \<Rightarrow> bool" where
  "int4_ok n \<longleftrightarrow> - 2147483648 \<le> n \<and> n \<le> 2147483647"

lemma insert_outbox_simps [simp]:
  "db_definitions (insert_outbox evs s) = db_definitions s" "db_runs (insert_outbox evs s) = db_runs s"
  "db_tasks (insert_outbox evs s) = db_tasks s" "db_deps (insert_outbox evs s) = db_deps s"
  "db_attempts (insert_outbox evs s) = db_attempts s" "db_schedules (insert_outbox evs s) = db_schedules s"
  "db_outbox (insert_outbox evs s) = db_outbox s @ evs" "db_audit (insert_outbox evs s) = db_audit s"
  "db_workers (insert_outbox evs s) = db_workers s" "db_artifacts (insert_outbox evs s) = db_artifacts s"
  "db_api_keys (insert_outbox evs s) = db_api_keys s" "db_users (insert_outbox evs s) = db_users s"
  by (simp_all add: insert_outbox_def)

lemma insert_audit_simps [simp]:
  "db_definitions (insert_audit e t a ac rt ri m s) = db_definitions s"
  "db_runs (insert_audit e t a ac rt ri m s) = db_runs s"
  "db_tasks (insert_audit e t a ac rt ri m s) = db_tasks s"
  "db_deps (insert_audit e t a ac rt ri m s) = db_deps s"
  "db_attempts (insert_audit e t a ac rt ri m s) = db_attempts s"
  "db_schedules (insert_audit e t a ac rt ri m s) = db_schedules s"
  "db_outbox (insert_audit e t a ac rt ri m s) = db_outbox s"
  "db_workers (insert_audit e t a ac rt ri m s) = db_workers s"
  "db_artifacts (insert_audit e t a ac rt ri m s) = db_artifacts s"
  "db_api_keys (insert_audit e t a ac rt ri m s) = db_api_keys s"
  "db_users (insert_audit e t a ac rt ri m s) = db_users s"
  by (simp_all add: insert_audit_def)

lemma run_of_SomeD: "run_of s rid = Some r \<Longrightarrow> r \<in> set (db_runs s) \<and> wr_id r = rid"
  by (auto simp: run_of_def dest: query_row_SomeD)

lemma unmet_iff [table_simps]:
  "unmet ts ds t \<longleftrightarrow>
     (\<exists>d \<in> set ds. td_task_run_id d = tr_id t \<and>
        (\<exists>u \<in> set ts. tr_id u = td_depends_on_task_run_id d \<and> tr_status u \<noteq> SUCCEEDED))"
  by (simp add: unmet_def table_simps)

end
