(* ===== verification/Task_Table.thy ===== *)
theory Task_Table
  imports Database
begin

text \<open>
  What holds of the task, dependency, run and attempt tables in every state the program reaches,
  and the contract of the UPDATE statements on \<^verbatim>\<open>task_runs\<close>. The locale \<open>task_stmt\<close> is the interface
  between a statement (a WHERE clause \<open>P\<close> and a SET clause \<open>f\<close>) and the invariants: the theory
  that declares a statement interprets the locale, and the invariants of an operation follow from
  the facts of its statements. \<open>quiet_stmt\<close> and \<open>neutral_stmt\<close> extend it for statements that
  complete no task, and that neither take nor end a lease.
\<close>

section \<open>Invariants\<close>

definition active :: "task_row \<Rightarrow> bool" where
  "active t \<longleftrightarrow> tr_status t \<in> {LEASED, RUNNING}"

text \<open>Primary keys and foreign keys.\<close>

definition keys_ok :: "task_row list \<Rightarrow> run_row list \<Rightarrow> bool" where
  "keys_ok ts rs \<longleftrightarrow> distinct (map tr_id ts) \<and> distinct (map wr_id rs)"

definition task_in :: "task_row list \<Rightarrow> uuid \<Rightarrow> uuid \<Rightarrow> bool" where
  "task_in ts tid run \<longleftrightarrow> (\<exists>t \<in> set ts. tr_id t = tid \<and> tr_workflow_run_id t = run)"

definition refs_ok :: "task_row list \<Rightarrow> dependency_row list \<Rightarrow> run_row list \<Rightarrow> bool" where
  "refs_ok ts ds rs \<longleftrightarrow>
     tr_workflow_run_id ` set ts \<subseteq> wr_id ` set rs \<and>
     (\<forall>d \<in> set ds. task_in ts (td_task_run_id d) (td_workflow_run_id d) \<and>
                  task_in ts (td_depends_on_task_run_id d) (td_workflow_run_id d))"

text \<open>A task past BLOCKED that was not cancelled has every dependency succeeded.\<close>

definition deps_met :: "task_row list \<Rightarrow> dependency_row list \<Rightarrow> bool" where
  "deps_met ts ds \<longleftrightarrow> (\<forall>t \<in> set ts. tr_status t \<notin> {BLOCKED, CANCELLED} \<longrightarrow> \<not> unmet ts ds t)"

text \<open>A task is BLOCKED only while some dependency has not succeeded: no wake-up is lost.\<close>

definition wakeups :: "task_row list \<Rightarrow> dependency_row list \<Rightarrow> bool" where
  "wakeups ts ds \<longleftrightarrow> (\<forall>t \<in> set ts. tr_status t = BLOCKED \<longrightarrow> unmet ts ds t)"

text \<open>A succeeded run has only succeeded tasks.\<close>

definition runs_done :: "run_row list \<Rightarrow> task_row list \<Rightarrow> bool" where
  "runs_done rs ts \<longleftrightarrow>
     (\<forall>r \<in> set rs. wr_status r = RunSucceeded \<longrightarrow>
        (\<forall>t \<in> set ts. tr_workflow_run_id t = wr_id r \<longrightarrow> tr_status t = SUCCEEDED))"

text \<open>Exactly the leased and running tasks have a lease, and it names its worker.\<close>

definition lease_row :: "task_row \<Rightarrow> bool" where
  "lease_row t \<longleftrightarrow> (active t \<longleftrightarrow> tr_lease_expires_at t \<noteq> None) \<and> (active t \<longrightarrow> tr_lease_owner t \<noteq> None)"

definition leases_ok :: "task_row list \<Rightarrow> bool" where
  "leases_ok ts \<longleftrightarrow> (\<forall>t \<in> set ts. lease_row t)"

text \<open>
  The attempts of a task are numbered from 1 to its attempt count; the open ones are the current
  attempts of the active tasks, held by the worker that holds the lease.
\<close>

definition attempt_ok :: "attempt_row \<Rightarrow> task_row \<Rightarrow> bool" where
  "attempt_ok a t \<longleftrightarrow>
     1 \<le> ta_attempt_number a \<and> ta_attempt_number a \<le> tr_attempt_count t \<and>
     (ta_ended_at a = None \<longleftrightarrow> active t \<and> ta_attempt_number a = tr_attempt_count t) \<and>
     (ta_ended_at a = None \<longrightarrow> tr_lease_owner t = Some (ta_worker_id a))"

definition attempts_ok :: "task_row list \<Rightarrow> attempt_row list \<Rightarrow> bool" where
  "attempts_ok ts as \<longleftrightarrow>
     distinct (map (\<lambda>a. (ta_task_run_id a, ta_attempt_number a)) as) \<and>
     (\<forall>a \<in> set as. \<exists>t \<in> set ts. tr_id t = ta_task_run_id a \<and> attempt_ok a t) \<and>
     (\<forall>t \<in> set ts. 0 \<le> tr_attempt_count t \<and>
        (\<forall>n. 1 \<le> n \<and> n \<le> tr_attempt_count t \<longrightarrow>
           (tr_id t, n) \<in> (\<lambda>a. (ta_task_run_id a, ta_attempt_number a)) ` set as))"

text \<open>The invariant of the whole database.\<close>

definition defs_ok :: "definition_row list \<Rightarrow> bool" where
  "defs_ok ws \<longleftrightarrow> (\<forall>w \<in> set ws. distinct (map fst (dag_Tasks (wd_dag_spec w))) \<and> dag_ok (wd_dag_spec w))"

definition db_inv :: "db \<Rightarrow> bool" where
  "db_inv s \<longleftrightarrow>
     keys_ok (db_tasks s) (db_runs s) \<and> refs_ok (db_tasks s) (db_deps s) (db_runs s) \<and>
     deps_met (db_tasks s) (db_deps s) \<and> wakeups (db_tasks s) (db_deps s) \<and>
     runs_done (db_runs s) (db_tasks s) \<and> leases_ok (db_tasks s) \<and>
     attempts_ok (db_tasks s) (db_attempts s) \<and> defs_ok (db_definitions s)"

section \<open>The contract of an UPDATE on the task table\<close>

lemma task_in_run:
  assumes "distinct (map tr_id ts)" "t \<in> set ts" "task_in ts (tr_id t) run"
  shows "tr_workflow_run_id t = run"
proof -
  from assms(3) obtain u where "u \<in> set ts" "tr_id u = tr_id t" "tr_workflow_run_id u = run"
    unfolding task_in_def by blast
  with distinct_map_eq [OF assms(1), of u t] assms(2) show ?thesis by simp
qed

lemma refs_okI:
  assumes "\<And>t. t \<in> set ts \<Longrightarrow> tr_workflow_run_id t \<in> wr_id ` set rs"
    and "\<And>d. d \<in> set ds \<Longrightarrow> task_in ts (td_task_run_id d) (td_workflow_run_id d) \<and>
          task_in ts (td_depends_on_task_run_id d) (td_workflow_run_id d)"
  shows "refs_ok ts ds rs"
  using assms by (auto simp: refs_ok_def)

lemma refs_okD:
  assumes "refs_ok ts ds rs"
  shows "d \<in> set ds \<Longrightarrow> td_task_run_id d \<in> tr_id ` set ts"
    and "d \<in> set ds \<Longrightarrow> td_depends_on_task_run_id d \<in> tr_id ` set ts"
    and "t \<in> set ts \<Longrightarrow> tr_workflow_run_id t \<in> wr_id ` set rs"
  using assms by (auto simp: refs_ok_def task_in_def image_iff) (metis)+

text \<open>A dependency row links two tasks of one run.\<close>

lemma refs_same_run:
  assumes "refs_ok ts ds rs" "distinct (map tr_id ts)" "d \<in> set ds" "t \<in> set ts" "u \<in> set ts"
    and "td_task_run_id d = tr_id t" "td_depends_on_task_run_id d = tr_id u"
  shows "tr_workflow_run_id t = tr_workflow_run_id u"
proof -
  have "task_in ts (td_task_run_id d) (td_workflow_run_id d)"
    and "task_in ts (td_depends_on_task_run_id d) (td_workflow_run_id d)"
    using assms(1,3) unfolding refs_ok_def by blast+
  with task_in_run [OF assms(2,4)] task_in_run [OF assms(2,5)] show ?thesis
    unfolding assms(6,7) by metis
qed

locale task_stmt =
  fixes P :: "task_row \<Rightarrow> bool" and f :: "task_row \<Rightarrow> task_row"
  assumes keeps_id: "tr_id (f t) = tr_id t"
    and keeps_run: "tr_workflow_run_id (f t) = tr_workflow_run_id t"
    and keeps_succeeded: "P t \<Longrightarrow> tr_status t = SUCCEEDED \<Longrightarrow> tr_status (f t) = SUCCEEDED"
    and keeps_lease: "P t \<Longrightarrow> lease_row t \<Longrightarrow> lease_row (f t)"
begin

lemma ids: "map tr_id (update_where P f ts) = map tr_id ts"
  by (simp add: map_update_where keeps_id)

lemma task_in: "task_in (update_where P f ts) tid run \<longleftrightarrow> task_in ts tid run"
  unfolding task_in_def bex_update_where
  by (simp add: keeps_id keeps_run if_distrib [of tr_id] if_distrib [of tr_workflow_run_id])

lemma run_ids: "tr_workflow_run_id ` set (update_where P f ts) = tr_workflow_run_id ` set ts"
  by (metis keeps_run map_update_where set_map)

lemma keys_ok: "keys_ok (update_where P f ts) rs \<longleftrightarrow> keys_ok ts rs"
  by (simp add: keys_ok_def ids)

lemma refs_ok: "refs_ok (update_where P f ts) ds rs \<longleftrightarrow> refs_ok ts ds rs"
  by (simp add: refs_ok_def task_in run_ids)

lemma runs_done: "runs_done rs ts \<Longrightarrow> runs_done rs (update_where P f ts)"
  by (auto simp: runs_done_def table_simps keeps_run keeps_succeeded)

lemma leases_ok: "leases_ok ts \<Longrightarrow> leases_ok (update_where P f ts)"
  by (auto simp: leases_ok_def table_simps keeps_lease)

lemma unmet_antimono:
  "unmet (update_where P f ts) ds t' \<Longrightarrow> tr_id t' = tr_id t \<Longrightarrow> unmet ts ds t"
  by (fastforce simp: table_simps keeps_id keeps_succeeded split: if_splits)

lemma deps_met:
  assumes "deps_met ts ds"
    and "\<And>t. t \<in> set ts \<Longrightarrow> P t \<Longrightarrow> tr_status (f t) \<notin> {BLOCKED, CANCELLED} \<Longrightarrow>
           tr_status t \<in> {BLOCKED, CANCELLED} \<Longrightarrow> \<not> unmet ts ds t"
  shows "deps_met (update_where P f ts) ds"
  unfolding deps_met_def
proof (intro ballI impI notI)
  fix t'
  assume "t' \<in> set (update_where P f ts)" and st: "tr_status t' \<notin> {BLOCKED, CANCELLED}"
    and um: "unmet (update_where P f ts) ds t'"
  then obtain t where t: "t \<in> set ts" and t': "t' = (if P t then f t else t)"
    by (auto simp: table_simps)
  from t' have "tr_id t' = tr_id t" by (simp add: keeps_id)
  with um have "unmet ts ds t" by (rule unmet_antimono)
  with assms t t' st show False by (auto simp: deps_met_def split: if_splits)
qed

end

locale quiet_stmt = task_stmt +
  assumes never_succeeds: "P t \<Longrightarrow> tr_status (f t) = SUCCEEDED \<Longrightarrow> tr_status t = SUCCEEDED"
begin

lemma status_same:
  "tr_status (if P u then f u else u) \<noteq> SUCCEEDED \<longleftrightarrow> tr_status u \<noteq> SUCCEEDED"
  using keeps_succeeded never_succeeds by auto

lemma unmet_same: "tr_id t' = tr_id t \<Longrightarrow> unmet (update_where P f ts) ds t' \<longleftrightarrow> unmet ts ds t"
  by (simp add: unmet_iff bex_update_where if_distrib [of tr_id] keeps_id status_same)

lemma wakeups:
  assumes "wakeups ts ds"
    and "\<And>t. t \<in> set ts \<Longrightarrow> P t \<Longrightarrow> tr_status (f t) = BLOCKED \<Longrightarrow> tr_status t \<noteq> BLOCKED \<Longrightarrow> unmet ts ds t"
  shows "wakeups (update_where P f ts) ds"
  unfolding wakeups_def
proof (intro ballI impI)
  fix t'
  assume "t' \<in> set (update_where P f ts)" and st: "tr_status t' = BLOCKED"
  then obtain t where t: "t \<in> set ts" and t': "t' = (if P t then f t else t)"
    by (auto simp: table_simps)
  from t' have id: "tr_id t' = tr_id t" by (simp add: keeps_id)
  from assms t t' st have "unmet ts ds t" by (auto simp: wakeups_def split: if_splits)
  with unmet_same [OF id] show "unmet (update_where P f ts) ds t'" by simp
qed

end

locale neutral_stmt = quiet_stmt +
  assumes keeps_active: "P t \<Longrightarrow> active (f t) \<longleftrightarrow> active t"
    and keeps_count: "P t \<Longrightarrow> tr_attempt_count (f t) = tr_attempt_count t"
    and keeps_owner: "P t \<Longrightarrow> active t \<Longrightarrow> tr_lease_owner (f t) = tr_lease_owner t"
begin

lemma attempt_ok: "P t \<Longrightarrow> attempt_ok a t \<Longrightarrow> attempt_ok a (f t)"
  by (auto simp: attempt_ok_def keeps_active keeps_count keeps_owner)

lemma attempts_ok:
  assumes "attempts_ok ts as"
  shows "attempts_ok (update_where P f ts) as"
proof -
  have "\<exists>t \<in> set (update_where P f ts). tr_id t = ta_task_run_id a \<and> attempt_ok a t" if "a \<in> set as" for a
  proof -
    from assms that obtain t where "t \<in> set ts" "tr_id t = ta_task_run_id a" "attempt_ok a t"
      by (auto simp: attempts_ok_def)
    then show ?thesis
      by (intro bexI [of _ "if P t then f t else t"]) (auto simp: table_simps keeps_id attempt_ok)
  qed
  with assms show ?thesis by (auto simp: attempts_ok_def table_simps keeps_id keeps_count)
qed

end

text \<open>
  Statements on \<^verbatim>\<open>workflow_runs\<close>; \<open>run_quiet_stmt\<close> is the contract of those that do not complete
  a run.
\<close>

locale run_stmt =
  fixes P :: "run_row \<Rightarrow> bool" and f :: "run_row \<Rightarrow> run_row"
  assumes keeps_id: "wr_id (f r) = wr_id r"
begin

lemma ids: "map wr_id (update_where P f rs) = map wr_id rs"
  by (simp add: map_update_where keeps_id)

lemma keys_ok: "keys_ok ts (update_where P f rs) \<longleftrightarrow> keys_ok ts rs"
  by (simp add: keys_ok_def ids)

lemma refs_ok: "refs_ok ts ds (update_where P f rs) \<longleftrightarrow> refs_ok ts ds rs"
  unfolding refs_ok_def by (metis ids set_map)

end

locale run_quiet_stmt = run_stmt +
  assumes never_succeeds: "P r \<Longrightarrow> wr_status (f r) \<noteq> RunSucceeded"
begin

lemma runs_done: "runs_done rs ts \<Longrightarrow> runs_done (update_where P f rs) ts"
  by (auto simp: runs_done_def ball_update_where keeps_id never_succeeds)

end

section \<open>Opening and closing an attempt\<close>

text \<open>The status part of a WHERE clause that names one task by its key.\<close>

definition task_is :: "task_status list \<Rightarrow> uuid \<Rightarrow> task_row \<Rightarrow> bool" where
  "task_is sts tid t \<longleftrightarrow> tr_id t = tid \<and> tr_status t \<in> set sts"

lemma attempts_ok_distinct_open:
  "attempts_ok ts as \<Longrightarrow> distinct (map tr_id ts) \<Longrightarrow> t \<in> set ts \<Longrightarrow> a \<in> set as \<Longrightarrow>
   ta_task_run_id a = tr_id t \<Longrightarrow> attempt_ok a t"
  unfolding attempts_ok_def by (metis distinct_map_eq)

lemma attempts_open:
  assumes inv: "attempts_ok ts as" and keys: "distinct (map tr_id ts)" and t: "t \<in> set ts" "\<not> active t"
    and P: "\<And>u. u \<in> set ts \<Longrightarrow> P u \<longleftrightarrow> tr_id u = tr_id t"
    and f: "tr_id (f t) = tr_id t" "active (f t)" "tr_attempt_count (f t) = tr_attempt_count t + 1"
    and a: "ta_task_run_id a = tr_id t" "ta_attempt_number a = tr_attempt_count t + 1"
      "ta_ended_at a = None" "tr_lease_owner (f t) = Some (ta_worker_id a)"
  shows "attempts_ok (update_where P f ts) (as @ [a])"
proof -
  have only: "u = t" if "u \<in> set ts" "P u" for u
    using that P keys t by (auto intro: distinct_map_eq)
  have Pt: "P t" using P t by simp
  have old: "\<exists>u \<in> set (update_where P f ts). tr_id u = ta_task_run_id b \<and> attempt_ok b u" if b: "b \<in> set as" for b
  proof -
    from inv b obtain u where u: "u \<in> set ts" "tr_id u = ta_task_run_id b" "attempt_ok b u"
      by (auto simp: attempts_ok_def)
    show ?thesis
    proof (cases "P u")
      case True
      with u only have "u = t" by simp
      with u t f have "attempt_ok b (f t)" by (auto simp: attempt_ok_def)
      with u f \<open>u = t\<close> Pt show ?thesis by (auto simp: bex_update_where intro!: bexI [of _ t])
    qed (use u in \<open>auto simp: bex_update_where intro!: bexI [of _ u]\<close>)
  qed
  have new: "\<exists>u \<in> set (update_where P f ts). tr_id u = tr_id t \<and> attempt_ok a u"
  proof -
    from inv t have "0 \<le> tr_attempt_count t" by (simp add: attempts_ok_def)
    with f a have "attempt_ok a (f t)" by (simp add: attempt_ok_def)
    with f Pt t show ?thesis by (auto simp: bex_update_where intro!: bexI [of _ t])
  qed
  have "(tr_id t, tr_attempt_count t + 1) \<notin> (\<lambda>a. (ta_task_run_id a, ta_attempt_number a)) ` set as"
    using attempts_ok_distinct_open [OF inv keys t(1)] by (fastforce simp: attempt_ok_def)
  with inv have "distinct (map (\<lambda>a. (ta_task_run_id a, ta_attempt_number a)) (as @ [a]))"
    by (simp add: attempts_ok_def a)
  moreover have "0 \<le> tr_attempt_count u \<and> (\<forall>n. 1 \<le> n \<and> n \<le> tr_attempt_count u \<longrightarrow>
      (tr_id u, n) \<in> (\<lambda>a. (ta_task_run_id a, ta_attempt_number a)) ` set (as @ [a]))"
    if u: "u \<in> set (update_where P f ts)" for u
  proof -
    from u obtain v where v: "v \<in> set ts" "u = (if P v then f v else v)" by (auto simp: set_update_where)
    show ?thesis
    proof (cases "P v")
      case True
      with only v have "v = t" by simp
      moreover have "n = tr_attempt_count t + 1 \<or> n \<le> tr_attempt_count t" if "n \<le> tr_attempt_count t + 1" for n
        using that by linarith
      ultimately show ?thesis using inv t v True f a by (auto simp: attempts_ok_def)
    qed (use inv v in \<open>auto simp: attempts_ok_def\<close>)
  qed
  ultimately show ?thesis using old new a by (auto simp: attempts_ok_def)
qed

lemma attempts_close:
  assumes inv: "attempts_ok ts as" and keys: "distinct (map tr_id ts)" and t: "t \<in> set ts"
    and P: "\<And>u. u \<in> set ts \<Longrightarrow> P u \<longleftrightarrow> tr_id u = tr_id t"
    and f: "tr_id (f t) = tr_id t" "\<not> active (f t)" "tr_attempt_count (f t) = tr_attempt_count t"
    and g: "\<And>a. ta_task_run_id (g a) = ta_task_run_id a" "\<And>a. ta_attempt_number (g a) = ta_attempt_number a"
      "\<And>a. ta_ended_at (g a) = Some e"
  shows "attempts_ok (update_where P f ts) (update_where (attempt_is (tr_id t) (tr_attempt_count t)) g as)"
    (is "attempts_ok ?ts ?as")
proof -
  have only: "u = t" if "u \<in> set ts" "P u" for u
    using that P keys t by (auto intro: distinct_map_eq)
  have keys': "map (\<lambda>a. (ta_task_run_id a, ta_attempt_number a)) ?as = map (\<lambda>a. (ta_task_run_id a, ta_attempt_number a)) as"
    by (simp add: map_update_where g)
  have "\<exists>u \<in> set ?ts. tr_id u = ta_task_run_id b \<and> attempt_ok b u" if "b \<in> set ?as" for b
  proof -
    from that obtain a where a: "a \<in> set as" "b = (if attempt_is (tr_id t) (tr_attempt_count t) a then g a else a)"
      by (auto simp: set_update_where)
    with inv obtain u where u: "u \<in> set ts" "tr_id u = ta_task_run_id a" "attempt_ok a u"
      by (auto simp: attempts_ok_def)
    show ?thesis
    proof (cases "P u")
      case True
      with u only have "u = t" by simp
      with u a f g have "attempt_ok b (f u)" by (auto simp: attempt_ok_def attempt_is_def)
      with u a f g True \<open>u = t\<close> show ?thesis by (auto simp: bex_update_where intro!: bexI [of _ t])
    next
      case False
      with u P have "tr_id u \<noteq> tr_id t" by simp
      with u a False show ?thesis by (auto simp: bex_update_where attempt_is_def intro!: bexI [of _ u])
    qed
  qed
  moreover have "0 \<le> tr_attempt_count u \<and> (\<forall>n. 1 \<le> n \<and> n \<le> tr_attempt_count u \<longrightarrow>
      (tr_id u, n) \<in> (\<lambda>a. (ta_task_run_id a, ta_attempt_number a)) ` set ?as)" if "u \<in> set ?ts" for u
  proof -
    from that obtain v where v: "v \<in> set ts" "u = (if P v then f v else v)" by (auto simp: set_update_where)
    then have "tr_id u = tr_id v" "tr_attempt_count u = tr_attempt_count v" using only f by auto
    moreover have "(\<lambda>a. (ta_task_run_id a, ta_attempt_number a)) ` set ?as =
                   (\<lambda>a. (ta_task_run_id a, ta_attempt_number a)) ` set as"
      using keys' by (metis set_map)
    ultimately show ?thesis using inv v(1) by (simp add: attempts_ok_def)
  qed
  ultimately show ?thesis using inv keys' by (simp add: attempts_ok_def)
qed

lemma attempts_annotate:
  assumes "attempts_ok ts as"
    and "\<And>a. ta_task_run_id (g a) = ta_task_run_id a" "\<And>a. ta_attempt_number (g a) = ta_attempt_number a"
      "\<And>a. ta_ended_at (g a) = ta_ended_at a" "\<And>a. ta_worker_id (g a) = ta_worker_id a"
  shows "attempts_ok ts (update_where Q g as)"
proof -
  have keys: "map (\<lambda>a. (ta_task_run_id a, ta_attempt_number a)) (update_where Q g as) =
              map (\<lambda>a. (ta_task_run_id a, ta_attempt_number a)) as"
    by (simp add: map_update_where assms)
  then have "(\<lambda>a. (ta_task_run_id a, ta_attempt_number a)) ` set (update_where Q g as) =
             (\<lambda>a. (ta_task_run_id a, ta_attempt_number a)) ` set as"
    by (metis set_map)
  moreover have "attempt_ok (g a) t \<longleftrightarrow> attempt_ok a t" for a t
    by (simp add: attempt_ok_def assms)
  ultimately show ?thesis
    using assms(1) keys by (auto simp: attempts_ok_def ball_update_where assms)
qed

end
