(* ===== verification/Worker_Store.thy ===== *)
theory Worker_Store
  imports Task_Table
begin

text \<open>
  \<^verbatim>\<open>internal/storage/worker.go\<close>: the lease protocol between workers and the store, worker
  presence, and the dead-letter queue. Each operation is one transaction: \<open>Inl\<close> is an error,
  after which the deferred \<^verbatim>\<open>tx.Rollback\<close> leaves the database as it was, and \<open>Inr\<close> carries the
  result with the committed database. Every UPDATE statement of a transaction is a pair of
  definitions, its WHERE clause and its SET clause.
\<close>

section \<open>Lease predicates\<close>

text \<open>\<^verbatim>\<open>lease_expires_at>now()\<close> and \<^verbatim>\<open>lease_expires_at<=now()\<close>; both are false on NULL.\<close>

definition lease_valid :: "time \<Rightarrow> task_row \<Rightarrow> bool" where
  "lease_valid now t = (case tr_lease_expires_at t of None \<Rightarrow> False | Some x \<Rightarrow> now < x)"

definition lease_expired :: "time \<Rightarrow> task_row \<Rightarrow> bool" where
  "lease_expired now t = (case tr_lease_expires_at t of None \<Rightarrow> False | Some x \<Rightarrow> x \<le> now)"

definition held :: "task_status list \<Rightarrow> uuid \<Rightarrow> string \<Rightarrow> time \<Rightarrow> task_row \<Rightarrow> bool" where
  "held sts tid worker now t \<longleftrightarrow>
     tr_id t = tid \<and> tr_status t \<in> set sts \<and> tr_lease_owner t = Some worker \<and> lease_valid now t"

section \<open>LeaseTask\<close>

definition lease_where :: "uuid \<Rightarrow> task_row \<Rightarrow> bool" where
  "lease_where tid t \<longleftrightarrow> tr_id t = tid \<and> tr_status t = DISPATCHING"

definition lease_set :: "string \<Rightarrow> time \<Rightarrow> time \<Rightarrow> task_row \<Rightarrow> task_row" where
  "lease_set worker expires now t =
     t\<lparr>tr_status := LEASED, tr_lease_owner := Some worker, tr_lease_expires_at := Some expires,
       tr_attempt_count := tr_attempt_count t + 1, tr_updated_at := now\<rparr>"

definition attempt_opened :: "env \<Rightarrow> task_row \<Rightarrow> string \<Rightarrow> attempt_row" where
  "attempt_opened e t worker =
     \<lparr>ta_task_run_id = tr_id t, ta_attempt_number = tr_attempt_count t, ta_worker_id = worker,
      ta_scheduled_at = tr_available_at t, ta_executing_at = None, ta_started_at = e_now e,
      ta_ended_at = None, ta_exit_status = None, ta_error_type = None, ta_error_message = None,
      ta_trace_id = None, ta_artifact_uri = None, ta_log_artifact_uri = None\<rparr>"

definition LeaseTask ::
    "env \<Rightarrow> uuid \<Rightarrow> string \<Rightarrow> time \<Rightarrow> db \<Rightarrow> ((task_row \<times> string option) \<times> db) res" where
  "LeaseTask e tid worker lease s =
     (case query_row (lease_where tid) (db_tasks s) of
        None \<Rightarrow> Inl ErrLeaseLost
      | Some t0 \<Rightarrow>
          if \<not> int4_ok (tr_attempt_count t0 + 1) then Inl (ErrDB ''integer out of range'')
          else
            let expires = e_gonow e + lease;
                t = lease_set worker expires (e_now e) t0;
                s = s\<lparr>db_tasks := update_where (lease_where tid) (lease_set worker expires (e_now e)) (db_tasks s)\<rparr>
            in case run_of s (tr_workflow_run_id t) of
                 None \<Rightarrow> Inl (ErrDB ''no rows in result set'')
               | Some r \<Rightarrow>
                   if exists_row (attempt_is (tr_id t) (tr_attempt_count t)) (db_attempts s)
                   then Inl (ErrDB ''SQLSTATE 23505'')
                   else
                     let s = s\<lparr>db_attempts := db_attempts s @ [attempt_opened e t worker]\<rparr>;
                         payload = JObj [(''workflow_run_id'', JUuid (tr_workflow_run_id t)),
                                         (''task_run_id'', JUuid (tr_id t)), (''task_key'', JStr (tr_task_key t)),
                                         (''worker_id'', JStr worker), (''attempt'', JNum (tr_attempt_count t))]
                     in Inr ((t, wr_input_artifact_uri r),
                             insert_outbox [outbox_event e 0 ''task_run'' (tr_id t) ''task.leased'' payload (e_trace e)] s))"

section \<open>StartTask and HeartbeatTask\<close>

definition start_set :: "time \<Rightarrow> task_row \<Rightarrow> task_row" where
  "start_set now t = t\<lparr>tr_status := RUNNING, tr_updated_at := now\<rparr>"

definition StartTask :: "env \<Rightarrow> uuid \<Rightarrow> string \<Rightarrow> db \<Rightarrow> (task_row \<times> db) res" where
  "StartTask e tid worker s =
     (let P = held [LEASED] tid worker (e_now e) in
      case query_row P (db_tasks s) of
        None \<Rightarrow> Inl ErrLeaseLost
      | Some t0 \<Rightarrow>
          (case run_of s (tr_workflow_run_id t0) of
             None \<Rightarrow> Inl ErrLeaseLost
           | Some r \<Rightarrow>
               if wr_status r \<noteq> RunRunning then Inl ErrLeaseLost
               else
                 let t = start_set (e_now e) t0
                 in Inr (t, s\<lparr>db_tasks := update_where P (start_set (e_now e)) (db_tasks s),
                     db_attempts := update_where
                       (\<lambda>a. attempt_is (tr_id t) (tr_attempt_count t) a \<and> ta_executing_at a = None)
                       (\<lambda>a. a\<lparr>ta_executing_at := Some (e_now e)\<rparr>) (db_attempts s)\<rparr>)))"

definition heartbeat_set :: "time \<Rightarrow> time \<Rightarrow> task_row \<Rightarrow> task_row" where
  "heartbeat_set expires now t = t\<lparr>tr_lease_expires_at := Some expires, tr_updated_at := now\<rparr>"

definition HeartbeatTask :: "env \<Rightarrow> uuid \<Rightarrow> string \<Rightarrow> time \<Rightarrow> db \<Rightarrow> ((time \<times> bool) \<times> db) res" where
  "HeartbeatTask e tid worker lease s =
     (let expires = e_gonow e + lease;
          P = held [LEASED, RUNNING] tid worker (e_now e)
      in case query_row P (db_tasks s) of
           None \<Rightarrow> Inl ErrLeaseLost
         | Some t \<Rightarrow>
             (case run_of s (tr_workflow_run_id t) of
                None \<Rightarrow> Inl ErrLeaseLost
              | Some r \<Rightarrow>
                  Inr ((expires, wr_status r = RunCancelled),
                       s\<lparr>db_tasks := update_where P (heartbeat_set expires (e_now e)) (db_tasks s)\<rparr>)))"

section \<open>CompleteTask\<close>

definition nullif_empty :: "string \<Rightarrow> string option" where
  "nullif_empty v = (if v = '''' then None else Some v)"

definition complete_set :: "json \<Rightarrow> string \<Rightarrow> time \<Rightarrow> task_row \<Rightarrow> task_row" where
  "complete_set output artifact now t =
     t\<lparr>tr_status := SUCCEEDED, tr_output := Some output, tr_output_artifact_uri := nullif_empty artifact,
       tr_lease_expires_at := None, tr_updated_at := now\<rparr>"

text \<open>
  A blocked task of the run that depends on the completed one, and on no task that has not
  succeeded, becomes ready.
\<close>

definition unblock_where :: "task_row list \<Rightarrow> dependency_row list \<Rightarrow> uuid \<Rightarrow> uuid \<Rightarrow> task_row \<Rightarrow> bool" where
  "unblock_where ts ds run completed child \<longleftrightarrow>
     tr_workflow_run_id child = run \<and> tr_status child = BLOCKED \<and>
     exists_row (\<lambda>d. td_task_run_id d = tr_id child \<and> td_depends_on_task_run_id d = completed) ds \<and>
     \<not> unmet ts ds child"

definition unblock_set :: "time \<Rightarrow> task_row \<Rightarrow> task_row" where
  "unblock_set now t = t\<lparr>tr_status := READY, tr_available_at := now, tr_updated_at := now\<rparr>"

fun ready_events :: "env \<Rightarrow> uuid \<Rightarrow> nat \<Rightarrow> task_row list \<Rightarrow> outbox_row list" where
  "ready_events e run i [] = []"
| "ready_events e run i (c # cs) =
     outbox_event e i ''task_run'' (tr_id c) ''task.ready''
       (JObj [(''workflow_run_id'', JUuid run), (''task_run_id'', JUuid (tr_id c)),
              (''task_key'', JStr (tr_task_key c))]) (e_trace e)
     # ready_events e run (Suc i) cs"

definition run_succeed_where :: "uuid \<Rightarrow> run_row \<Rightarrow> bool" where
  "run_succeed_where rid r \<longleftrightarrow> wr_id r = rid \<and> wr_status r = RunRunning"

definition run_succeed_set :: "time \<Rightarrow> run_row \<Rightarrow> run_row" where
  "run_succeed_set now r = r\<lparr>wr_status := RunSucceeded, wr_completed_at := Some now\<rparr>"

definition CompleteTask ::
    "env \<Rightarrow> uuid \<Rightarrow> string \<Rightarrow> json option \<Rightarrow> string \<Rightarrow> string list \<Rightarrow> db \<Rightarrow> (task_row \<times> db) res" where
  "CompleteTask e tid worker output0 artifact logs s =
     (let output = (case output0 of None \<Rightarrow> JObj [] | Some j \<Rightarrow> j);
          now = e_now e;
          P = held [RUNNING] tid worker now
      in case query_row P (db_tasks s) of
           None \<Rightarrow> Inl ErrLeaseLost
         | Some t0 \<Rightarrow>
             (case run_of s (tr_workflow_run_id t0) of
                None \<Rightarrow> Inl ErrLeaseLost
              | Some r \<Rightarrow>
                  if wr_status r \<noteq> RunRunning then Inl ErrLeaseLost
                  else
                    let t = complete_set output artifact now t0;
                        run = tr_workflow_run_id t;
                        log_uri = (case logs of [] \<Rightarrow> '''' | l # _ \<Rightarrow> l);
                        ts1 = update_where P (complete_set output artifact now) (db_tasks s);
                        as1 = update_where (attempt_is (tr_id t) (tr_attempt_count t))
                                (\<lambda>a. a\<lparr>ta_ended_at := Some now, ta_exit_status := Some SUCCEEDED,
                                       ta_artifact_uri := nullif_empty artifact,
                                       ta_log_artifact_uri := nullif_empty log_uri\<rparr>) (db_attempts s);
                        U = unblock_where ts1 (db_deps s) run (tr_id t);
                        children = map (unblock_set now) (select U ts1);
                        ts2 = update_where U (unblock_set now) ts1;
                        payload = JObj [(''workflow_run_id'', JUuid run), (''task_run_id'', JUuid (tr_id t)),
                                        (''task_key'', JStr (tr_task_key t)), (''attempt'', JNum (tr_attempt_count t))];
                        evs = ready_events e run 0 children @
                              [outbox_event e (length children) ''task_run'' (tr_id t) ''task.succeeded'' payload (e_trace e)];
                        remaining = rows_affected (\<lambda>u. tr_workflow_run_id u = run \<and> tr_status u \<noteq> SUCCEEDED) ts2;
                        rs = (if remaining = 0
                              then update_where (run_succeed_where run) (run_succeed_set now) (db_runs s)
                              else db_runs s)
                    in Inr (t, insert_outbox evs (s\<lparr>db_tasks := ts2, db_attempts := as1, db_runs := rs\<rparr>))))"

section \<open>FailTask\<close>

record failure =
  Retryable :: bool
  ErrorType :: string
  ErrorMessage :: string
  TraceID :: string

definition settle_where :: "uuid \<Rightarrow> string \<Rightarrow> task_row \<Rightarrow> bool" where
  "settle_where tid worker t \<longleftrightarrow> tr_id t = tid \<and> tr_lease_owner t = Some worker"

definition settle_set :: "task_status \<Rightarrow> time \<Rightarrow> time \<Rightarrow> task_row \<Rightarrow> task_row" where
  "settle_set status available now t =
     t\<lparr>tr_status := status, tr_available_at := available, tr_lease_owner := None,
       tr_lease_expires_at := None, tr_updated_at := now\<rparr>"

definition run_fail_where :: "uuid \<Rightarrow> run_row \<Rightarrow> bool" where
  "run_fail_where rid r \<longleftrightarrow> wr_id r = rid \<and> wr_status r = RunRunning"

definition run_fail_set :: "time \<Rightarrow> run_row \<Rightarrow> run_row" where
  "run_fail_set now r = r\<lparr>wr_status := RunFailed, wr_completed_at := Some now\<rparr>"

text \<open>The statement that cancels the tasks of a run that no worker holds.\<close>

definition pending_where :: "uuid \<Rightarrow> task_row \<Rightarrow> bool" where
  "pending_where run t \<longleftrightarrow>
     tr_workflow_run_id t = run \<and> tr_status t \<in> {BLOCKED, READY, DISPATCHING, RETRY_WAIT}"

definition cancel_set :: "time \<Rightarrow> task_row \<Rightarrow> task_row" where
  "cancel_set now t = t\<lparr>tr_status := CANCELLED, tr_updated_at := now\<rparr>"

definition FailTask :: "env \<Rightarrow> uuid \<Rightarrow> string \<Rightarrow> failure \<Rightarrow> db \<Rightarrow> (task_row \<times> db) res" where
  "FailTask e tid worker f s =
     (let now = e_now e in
      case query_row (held [LEASED, RUNNING] tid worker now) (db_tasks s) of
        None \<Rightarrow> Inl ErrLeaseLost
      | Some t0 \<Rightarrow>
          (case run_of s (tr_workflow_run_id t0) of
             None \<Rightarrow> Inl ErrLeaseLost
           | Some r \<Rightarrow>
               let run = tr_workflow_run_id t0;
                   attempt = tr_attempt_count t0;
                   (status, available) =
                     (if wr_status r = RunCancelled then (CANCELLED, e_gonow e)
                      else if Retryable f \<and> attempt < tr_maximum_attempts t0
                      then (RETRY_WAIT, e_gonow e + RetryDelay attempt)
                      else (DEAD, e_gonow e));
                   t = settle_set status available now t0;
                   ts1 = update_where (settle_where tid worker) (settle_set status available now) (db_tasks s);
                   as1 = update_where (attempt_is tid attempt)
                           (\<lambda>a. a\<lparr>ta_ended_at := Some now, ta_exit_status := Some status,
                                  ta_error_type := Some (ErrorType f), ta_error_message := Some (ErrorMessage f),
                                  ta_trace_id := nullif_empty (TraceID f)\<rparr>) (db_attempts s);
                   event = (if status = CANCELLED then ''task.cancelled''
                            else if status = DEAD then ''task.dead'' else ''task.retry_wait'');
                   rs = (if status = DEAD then update_where (run_fail_where run) (run_fail_set now) (db_runs s)
                         else db_runs s);
                   ts2 = (if status = DEAD then update_where (pending_where run) (cancel_set now) ts1 else ts1);
                   payload = JObj [(''workflow_run_id'', JUuid run), (''task_run_id'', JUuid tid),
                                   (''task_key'', JStr (tr_task_key t0)), (''attempt'', JNum attempt),
                                   (''error_type'', JStr (ErrorType f)), (''error_message'', JStr (ErrorMessage f)),
                                   (''available_at'', JTime available)]
               in Inr (t, insert_outbox [outbox_event e 0 ''task_run'' tid event payload (e_trace e)]
                            (s\<lparr>db_tasks := ts2, db_attempts := as1, db_runs := rs\<rparr>))))"

section \<open>Worker presence\<close>

definition WorkerHeartbeat ::
    "env \<Rightarrow> uuid \<Rightarrow> string \<Rightarrow> string list \<Rightarrow> int \<Rightarrow> json option \<Rightarrow> db \<Rightarrow> db res" where
  "WorkerHeartbeat e tenant worker handlers activeTasks metadata0 s =
     (let metadata = (case metadata0 of None \<Rightarrow> JObj [] | Some j \<Rightarrow> j);
          P = (\<lambda>w. wh_tenant_id w = tenant \<and> wh_worker_id w = worker)
      in if \<not> int4_ok activeTasks then Inl (ErrDB ''integer out of range'')
         else if exists_row P (db_workers s)
         then Inr (s\<lparr>db_workers := update_where P
                (\<lambda>w. w\<lparr>wh_handlers := handlers, wh_active_tasks := activeTasks, wh_metadata := metadata,
                       wh_last_seen_at := e_now e\<rparr>) (db_workers s)\<rparr>)
         else Inr (s\<lparr>db_workers := db_workers s @
                [\<lparr>wh_tenant_id = tenant, wh_worker_id = worker, wh_handlers = handlers,
                  wh_active_tasks = activeTasks, wh_metadata = metadata, wh_last_seen_at = e_now e\<rparr>]\<rparr>))"

definition ListWorkers :: "uuid \<Rightarrow> db \<Rightarrow> worker_row list" where
  "ListWorkers tenant s =
     sort_key (\<lambda>w. - wh_last_seen_at w) (select (\<lambda>w. wh_tenant_id w = tenant) (db_workers s))"

section \<open>Authorization of worker calls\<close>

definition TaskBelongsToTenant :: "uuid \<Rightarrow> uuid \<Rightarrow> db \<Rightarrow> unit res" where
  "TaskBelongsToTenant tid tenant s =
     (if exists_row (\<lambda>t. tr_id t = tid \<and>
           exists_row (\<lambda>r. wr_id r = tr_workflow_run_id t \<and> wr_tenant_id r = tenant) (db_runs s)) (db_tasks s)
      then Inr () else Inl ErrNotFound)"

definition ActiveTaskLeaseBelongsToWorker :: "env \<Rightarrow> uuid \<Rightarrow> uuid \<Rightarrow> string \<Rightarrow> db \<Rightarrow> unit res" where
  "ActiveTaskLeaseBelongsToWorker e tid tenant worker s =
     (case query_row (\<lambda>t. tr_id t = tid) (db_tasks s) of
        None \<Rightarrow> Inl ErrNotFound
      | Some t \<Rightarrow>
          (case run_of s (tr_workflow_run_id t) of
             None \<Rightarrow> Inl ErrNotFound
           | Some r \<Rightarrow>
               if wr_tenant_id r \<noteq> tenant then Inl ErrNotFound
               else if tr_status t \<in> {LEASED, RUNNING} \<and> tr_lease_owner t = Some worker \<and>
                       lease_valid (e_now e) t \<and> wr_status r = RunRunning
               then Inr () else Inl ErrLeaseLost))"

section \<open>Dead letters\<close>

definition DeadLetter :: "uuid \<Rightarrow> db \<Rightarrow> task_row list" where
  "DeadLetter tenant s =
     sort_key (\<lambda>t. - tr_updated_at t)
       (select (\<lambda>t. tr_status t = DEAD \<and>
           exists_row (\<lambda>r. wr_id r = tr_workflow_run_id t \<and> wr_tenant_id r = tenant) (db_runs s)) (db_tasks s))"

definition run_reopen_where :: "uuid \<Rightarrow> run_row \<Rightarrow> bool" where
  "run_reopen_where rid r \<longleftrightarrow> wr_id r = rid \<and> wr_status r = RunFailed"

definition run_reopen_set :: "run_row \<Rightarrow> run_row" where
  "run_reopen_set r = r\<lparr>wr_status := RunRunning, wr_completed_at := None\<rparr>"

definition replay_where :: "uuid \<Rightarrow> task_row \<Rightarrow> bool" where
  "replay_where tid t \<longleftrightarrow> tr_id t = tid"

definition replay_set :: "time \<Rightarrow> task_row \<Rightarrow> task_row" where
  "replay_set now t =
     t\<lparr>tr_status := READY, tr_available_at := now,
       tr_maximum_attempts := max (tr_maximum_attempts t) (tr_attempt_count t + 1), tr_updated_at := now\<rparr>"

definition rebuild_where :: "uuid \<Rightarrow> task_row \<Rightarrow> bool" where
  "rebuild_where run t \<longleftrightarrow> tr_workflow_run_id t = run \<and> tr_status t = CANCELLED"

definition rebuild_set :: "task_row list \<Rightarrow> dependency_row list \<Rightarrow> time \<Rightarrow> task_row \<Rightarrow> task_row" where
  "rebuild_set ts ds now t =
     t\<lparr>tr_status := (if unmet ts ds t then BLOCKED
                      else if now < tr_available_at t then RETRY_WAIT else READY),
       tr_updated_at := now\<rparr>"

definition ReplayDead :: "env \<Rightarrow> uuid \<Rightarrow> uuid option \<Rightarrow> uuid \<Rightarrow> db \<Rightarrow> db res" where
  "ReplayDead e tenant user tid s =
     (let now = e_now e in
      case query_row (\<lambda>t. tr_id t = tid \<and> tr_status t = DEAD \<and>
             exists_row (\<lambda>r. wr_id r = tr_workflow_run_id t \<and> wr_tenant_id r = tenant) (db_runs s)) (db_tasks s) of
        None \<Rightarrow> Inl ErrNotFound
      | Some t0 \<Rightarrow>
          if \<not> int4_ok (tr_attempt_count t0 + 1) then Inl (ErrDB ''integer out of range'')
          else
            let run = tr_workflow_run_id t0;
                rs = update_where (run_reopen_where run) run_reopen_set (db_runs s);
                ts1 = update_where (replay_where tid) (replay_set now) (db_tasks s);
                ts2 = update_where (rebuild_where run) (rebuild_set ts1 (db_deps s) now) ts1;
                payload = JObj [(''workflow_run_id'', JUuid run), (''task_run_id'', JUuid tid),
                                (''task_key'', JStr (tr_task_key t0))];
                evs = map (\<lambda>r. outbox_event e 0 ''task_run'' tid ''task.replayed'' payload (wr_trace_parent r))
                        (select (\<lambda>r. wr_id r = run) rs)
            in Inr (insert_audit e tenant user ''task.replay'' ''task_run'' tid (JObj [])
                     (insert_outbox evs (s\<lparr>db_tasks := ts2, db_runs := rs\<rparr>))))"

section \<open>The statements meet their contracts\<close>

text \<open>
  A statement that finds its task by the primary key only acts, inside its transaction, on the row
  that the preceding \<^verbatim>\<open>SELECT ... FOR UPDATE\<close> has found active (or dead): \<open>settle_guard\<close> and
  \<open>task_is [DEAD]\<close> are the WHERE clauses in effect.
\<close>

definition settle_guard :: "task_status \<Rightarrow> uuid \<Rightarrow> task_row \<Rightarrow> bool" where
  "settle_guard st tid t \<longleftrightarrow> st \<in> {RETRY_WAIT, DEAD, CANCELLED} \<and> task_is [LEASED, RUNNING] tid t"

text \<open>The status \<^verbatim>\<open>FailTask\<close> and the recovery of a lease settle a task on.\<close>

definition settled :: "bool \<Rightarrow> workflow_status \<Rightarrow> task_row \<Rightarrow> task_status" where
  "settled retryable run t =
     (if run = RunCancelled then CANCELLED
      else if retryable \<and> tr_attempt_count t < tr_maximum_attempts t then RETRY_WAIT else DEAD)"

definition settled_at :: "time \<Rightarrow> task_status \<Rightarrow> task_row \<Rightarrow> time" where
  "settled_at gonow st t = (if st = RETRY_WAIT then gonow + RetryDelay (tr_attempt_count t) else gonow)"

lemmas stmt_defs =
  lease_where_def lease_set_def held_def start_set_def heartbeat_set_def complete_set_def
  unblock_where_def unblock_set_def settle_guard_def task_is_def settle_set_def pending_where_def
  cancel_set_def replay_set_def rebuild_where_def rebuild_set_def lease_row_def active_def
  run_succeed_set_def run_fail_set_def run_reopen_set_def CanTransition_def

interpretation lease: task_stmt "lease_where tid" "lease_set worker expires now" for tid worker expires now
  by unfold_locales (auto simp: stmt_defs)

interpretation lease: quiet_stmt "lease_where tid" "lease_set worker expires now" for tid worker expires now
  by unfold_locales (auto simp: stmt_defs)

interpretation start: neutral_stmt "held [LEASED] tid worker now" "start_set now" for tid worker now
  by unfold_locales (auto simp: stmt_defs)

interpretation heartbeat: neutral_stmt "held [LEASED, RUNNING] tid worker now" "heartbeat_set expires now"
  for tid worker expires now
  by unfold_locales (auto simp: stmt_defs)

interpretation complete: task_stmt "held [RUNNING] tid worker now" "complete_set out artifact now"
  for tid worker out artifact now
  by unfold_locales (auto simp: stmt_defs)

interpretation unblock: neutral_stmt "unblock_where ts ds run completed" "unblock_set now"
  for ts ds run completed now
  by unfold_locales (auto simp: stmt_defs)

interpretation settle: quiet_stmt "settle_guard st tid" "settle_set st available now" for st tid available now
  by unfold_locales (auto simp: stmt_defs)

interpretation cancel: neutral_stmt "pending_where run" "cancel_set now" for run now
  by unfold_locales (auto simp: stmt_defs)

interpretation replay: neutral_stmt "task_is [DEAD] tid" "replay_set now" for tid now
  by unfold_locales (auto simp: stmt_defs)

interpretation rebuild: neutral_stmt "rebuild_where run" "rebuild_set ts ds now" for run ts ds now
  by unfold_locales (auto simp: stmt_defs split: if_splits)

interpretation run_succeed: run_stmt "run_succeed_where rid" "run_succeed_set now" for rid now
  by unfold_locales (simp add: stmt_defs)

interpretation run_fail: run_quiet_stmt "run_fail_where rid" "run_fail_set now" for rid now
  by unfold_locales (simp_all add: stmt_defs)

interpretation run_reopen: run_quiet_stmt P run_reopen_set for P
  by unfold_locales (simp_all add: stmt_defs)

section \<open>What a successful call did\<close>

lemma run_of_same [simp]:
  "run_of (s\<lparr>db_tasks := ts\<rparr>) rid = run_of s rid"
  by (simp add: run_of_def)

lemma LeaseTask_Inr:
  assumes "LeaseTask e tid worker lease s = Inr (x, s')"
  obtains t where "query_row (lease_where tid) (db_tasks s) = Some t"
    and "db_tasks s' = update_where (lease_where tid) (lease_set worker (e_gonow e + lease) (e_now e)) (db_tasks s)"
    and "db_attempts s' = db_attempts s @
           [attempt_opened e (lease_set worker (e_gonow e + lease) (e_now e) t) worker]"
    and "db_runs s' = db_runs s" "db_deps s' = db_deps s" "db_definitions s' = db_definitions s"
  using assms by (auto simp: LeaseTask_def Let_def split: option.splits if_splits)

lemma StartTask_Inr:
  assumes "StartTask e tid worker s = Inr (x, s')"
  obtains t r where "query_row (held [LEASED] tid worker (e_now e)) (db_tasks s) = Some t"
    and "run_of s (tr_workflow_run_id t) = Some r" "wr_status r = RunRunning"
    and "db_tasks s' = update_where (held [LEASED] tid worker (e_now e)) (start_set (e_now e)) (db_tasks s)"
    and "db_attempts s' = update_where (\<lambda>a. attempt_is tid (tr_attempt_count t) a \<and> ta_executing_at a = None)
           (\<lambda>a. a\<lparr>ta_executing_at := Some (e_now e)\<rparr>) (db_attempts s)"
    and "db_runs s' = db_runs s" "db_deps s' = db_deps s" "db_definitions s' = db_definitions s"
  using assms
  by (auto simp: StartTask_def Let_def start_set_def held_def dest: query_row_SomeD split: option.splits if_splits)

lemma HeartbeatTask_Inr:
  assumes "HeartbeatTask e tid worker lease s = Inr (x, s')"
  obtains t where "query_row (held [LEASED, RUNNING] tid worker (e_now e)) (db_tasks s) = Some t"
    and "s' = s\<lparr>db_tasks := update_where (held [LEASED, RUNNING] tid worker (e_now e))
                   (heartbeat_set (e_gonow e + lease) (e_now e)) (db_tasks s)\<rparr>"
  using assms by (auto simp: HeartbeatTask_def Let_def split: option.splits)

text \<open>
  The parts of the state that \<^verbatim>\<open>CompleteTask\<close> computes from the row \<open>t\<close> it found: the task table
  after the first UPDATE and after the one that unblocks children.
\<close>

lemma CompleteTask_Inr:
  assumes "CompleteTask e tid worker out artifact logs s = Inr (x, s')"
  obtains t r j ts1 U g where "query_row (held [RUNNING] tid worker (e_now e)) (db_tasks s) = Some t"
    and "run_of s (tr_workflow_run_id t) = Some r" "wr_status r = RunRunning"
    and "ts1 = update_where (held [RUNNING] tid worker (e_now e)) (complete_set j artifact (e_now e)) (db_tasks s)"
    and "U = unblock_where ts1 (db_deps s) (tr_workflow_run_id t) tid"
    and "db_tasks s' = update_where U (unblock_set (e_now e)) ts1"
    and "db_attempts s' = update_where (attempt_is tid (tr_attempt_count t)) g (db_attempts s)"
    and "\<And>a. ta_task_run_id (g a) = ta_task_run_id a" "\<And>a. ta_attempt_number (g a) = ta_attempt_number a"
      "\<And>a. ta_ended_at (g a) = Some (e_now e)" "\<And>a. ta_exit_status (g a) = Some SUCCEEDED"
    and "db_runs s' = (if \<forall>u \<in> set (db_tasks s'). tr_workflow_run_id u = tr_workflow_run_id t \<longrightarrow> tr_status u = SUCCEEDED
                       then update_where (run_succeed_where (tr_workflow_run_id t)) (run_succeed_set (e_now e)) (db_runs s)
                       else db_runs s)"
    and "db_deps s' = db_deps s" "db_definitions s' = db_definitions s"
    and "j = (case out of None \<Rightarrow> JObj [] | Some j \<Rightarrow> j)" and "x = complete_set j artifact (e_now e) t"
proof -
  from assms obtain t r where t: "query_row (held [RUNNING] tid worker (e_now e)) (db_tasks s) = Some t"
    and r: "run_of s (tr_workflow_run_id t) = Some r" "wr_status r = RunRunning"
    by (auto simp: CompleteTask_def Let_def split: option.splits if_splits)
  from t have id: "tr_id t = tid" by (auto simp: held_def dest: query_row_SomeD)
  let ?j = "case out of None \<Rightarrow> JObj [] | Some j \<Rightarrow> j"
  let ?g = "\<lambda>a. a\<lparr>ta_ended_at := Some (e_now e), ta_exit_status := Some SUCCEEDED,
    ta_artifact_uri := nullif_empty artifact,
    ta_log_artifact_uri := nullif_empty (case logs of [] \<Rightarrow> '''' | l # _ \<Rightarrow> l)\<rparr>"
  from assms t r id show thesis
    by (intro that [OF t r refl refl, where g = ?g and j = ?j])
       (auto simp: CompleteTask_def Let_def complete_set_def rows_affected_0_iff split: if_splits)
qed

lemma settled_in: "settled b r t \<in> {RETRY_WAIT, DEAD, CANCELLED}"
  by (simp add: settled_def)

lemma FailTask_Inr:
  assumes "FailTask e tid worker f s = Inr (x, s')"
  obtains t r st ts1 g where "query_row (held [LEASED, RUNNING] tid worker (e_now e)) (db_tasks s) = Some t"
    and "run_of s (tr_workflow_run_id t) = Some r"
    and "st = settled (Retryable f) (wr_status r) t"
    and "ts1 = update_where (settle_where tid worker) (settle_set st (settled_at (e_gonow e) st t) (e_now e)) (db_tasks s)"
    and "db_tasks s' = (if st = DEAD then update_where (pending_where (tr_workflow_run_id t)) (cancel_set (e_now e)) ts1 else ts1)"
    and "db_attempts s' = update_where (attempt_is tid (tr_attempt_count t)) g (db_attempts s)"
    and "\<And>a. ta_task_run_id (g a) = ta_task_run_id a" "\<And>a. ta_attempt_number (g a) = ta_attempt_number a"
      "\<And>a. ta_ended_at (g a) = Some (e_now e)" "\<And>a. ta_exit_status (g a) = Some st"
    and "db_runs s' = (if st = DEAD then update_where (run_fail_where (tr_workflow_run_id t)) (run_fail_set (e_now e)) (db_runs s)
                       else db_runs s)"
    and "db_deps s' = db_deps s" "db_definitions s' = db_definitions s"
    and "x = settle_set st (settled_at (e_gonow e) st t) (e_now e) t"
proof -
  from assms obtain t r where t: "query_row (held [LEASED, RUNNING] tid worker (e_now e)) (db_tasks s) = Some t"
    and r: "run_of s (tr_workflow_run_id t) = Some r"
    by (auto simp: FailTask_def Let_def split: option.splits if_splits)
  let ?st = "settled (Retryable f) (wr_status r) t"
  let ?g = "\<lambda>a. a\<lparr>ta_ended_at := Some (e_now e), ta_exit_status := Some ?st,
    ta_error_type := Some (ErrorType f), ta_error_message := Some (ErrorMessage f),
    ta_trace_id := nullif_empty (TraceID f)\<rparr>"
  from assms t r show thesis
    by (intro that [OF t r refl refl, where g = ?g])
       (auto simp: FailTask_def Let_def settled_def settled_at_def split: if_splits)
qed

lemma ReplayDead_Inr:
  assumes "ReplayDead e tenant user tid s = Inr s'"
  obtains t r ts1 where "t \<in> set (db_tasks s)" "tr_id t = tid" "tr_status t = DEAD"
    and "r \<in> set (db_runs s)" "wr_id r = tr_workflow_run_id t" "wr_tenant_id r = tenant"
    and "ts1 = update_where (replay_where tid) (replay_set (e_now e)) (db_tasks s)"
    and "db_tasks s' = update_where (rebuild_where (tr_workflow_run_id t)) (rebuild_set ts1 (db_deps s) (e_now e)) ts1"
    and "db_runs s' = update_where (run_reopen_where (tr_workflow_run_id t)) run_reopen_set (db_runs s)"
    and "db_attempts s' = db_attempts s" "db_deps s' = db_deps s" "db_definitions s' = db_definitions s"
  using assms
  by (auto simp: ReplayDead_def Let_def exists_row_iff dest!: query_row_SomeD split: option.splits if_splits)

section \<open>Every operation keeps the invariant\<close>

lemma db_invI:
  assumes "keys_ok (db_tasks s) (db_runs s)" "refs_ok (db_tasks s) (db_deps s) (db_runs s)"
    "deps_met (db_tasks s) (db_deps s)" "wakeups (db_tasks s) (db_deps s)"
    "runs_done (db_runs s) (db_tasks s)" "leases_ok (db_tasks s)"
    "attempts_ok (db_tasks s) (db_attempts s)" "defs_ok (db_definitions s)"
  shows "db_inv s"
  using assms by (simp add: db_inv_def)

lemma db_invD:
  assumes "db_inv s"
  shows "keys_ok (db_tasks s) (db_runs s)" "refs_ok (db_tasks s) (db_deps s) (db_runs s)"
    "deps_met (db_tasks s) (db_deps s)" "wakeups (db_tasks s) (db_deps s)"
    "runs_done (db_runs s) (db_tasks s)" "leases_ok (db_tasks s)"
    "attempts_ok (db_tasks s) (db_attempts s)" "defs_ok (db_definitions s)" "distinct (map tr_id (db_tasks s))"
  using assms by (simp_all add: db_inv_def keys_ok_def)

text \<open>By the primary key, a clause that names a task and holds of one row holds of no other.\<close>

lemma key_only:
  "distinct (map tr_id ts) \<Longrightarrow> query_row P ts = Some t \<Longrightarrow> (\<And>u. P u \<Longrightarrow> tr_id u = tr_id t) \<Longrightarrow> u \<in> set ts \<Longrightarrow>
   P u \<longleftrightarrow> tr_id u = tr_id t"
  using query_row_SomeD [of P ts t] by (metis distinct_map_eq)

lemma LeaseTask_inv:
  assumes op: "LeaseTask e tid worker lease s = Inr (x, s')" and inv: "db_inv s"
  shows "db_inv s'"
  using op
proof (rule LeaseTask_Inr)
  fix t
  assume q: "query_row (lease_where tid) (db_tasks s) = Some t"
    and ts: "db_tasks s' = update_where (lease_where tid) (lease_set worker (e_gonow e + lease) (e_now e)) (db_tasks s)"
    and as: "db_attempts s' = db_attempts s @ [attempt_opened e (lease_set worker (e_gonow e + lease) (e_now e) t) worker]"
    and rest: "db_runs s' = db_runs s" "db_deps s' = db_deps s" "db_definitions s' = db_definitions s"
  note I = db_invD [OF inv]
  from q have t: "t \<in> set (db_tasks s)" "lease_where tid t" by (auto dest: query_row_SomeD)
  then have only: "lease_where tid u \<longleftrightarrow> tr_id u = tr_id t" if "u \<in> set (db_tasks s)" for u
    using that by (intro key_only [OF I(9) q]) (auto simp: lease_where_def)
  from t have na: "\<not> active t" by (auto simp: stmt_defs)
  show ?thesis
  proof (rule db_invI, unfold ts as rest)
    show "attempts_ok (update_where (lease_where tid) (lease_set worker (e_gonow e + lease) (e_now e)) (db_tasks s))
        (db_attempts s @ [attempt_opened e (lease_set worker (e_gonow e + lease) (e_now e) t) worker])"
      by (rule attempts_open [OF I(7,9) t(1) na only]) (auto simp: stmt_defs attempt_opened_def)
  qed (use I in \<open>auto simp: lease.keys_ok lease.refs_ok stmt_defs
        intro: lease.deps_met lease.wakeups lease.runs_done lease.leases_ok\<close>)
qed

lemma StartTask_inv:
  assumes op: "StartTask e tid worker s = Inr (x, s')" and inv: "db_inv s"
  shows "db_inv s'"
  using op
proof (rule StartTask_Inr)
  fix t
  assume ts: "db_tasks s' = update_where (held [LEASED] tid worker (e_now e)) (start_set (e_now e)) (db_tasks s)"
    and as: "db_attempts s' = update_where (\<lambda>a. attempt_is tid (tr_attempt_count t) a \<and> ta_executing_at a = None)
           (\<lambda>a. a\<lparr>ta_executing_at := Some (e_now e)\<rparr>) (db_attempts s)"
    and rest: "db_runs s' = db_runs s" "db_deps s' = db_deps s" "db_definitions s' = db_definitions s"
  note I = db_invD [OF inv]
  show ?thesis
    by (rule db_invI, unfold ts as rest)
       (use I in \<open>auto simp: start.keys_ok start.refs_ok stmt_defs
          intro: start.deps_met start.wakeups start.runs_done start.leases_ok attempts_annotate start.attempts_ok\<close>)
qed

lemma HeartbeatTask_inv:
  assumes op: "HeartbeatTask e tid worker lease s = Inr (x, s')" and inv: "db_inv s"
  shows "db_inv s'"
proof -
  note I = db_invD [OF inv]
  from op have s': "s' = s\<lparr>db_tasks := update_where (held [LEASED, RUNNING] tid worker (e_now e))
                   (heartbeat_set (e_gonow e + lease) (e_now e)) (db_tasks s)\<rparr>"
    by (auto elim: HeartbeatTask_Inr)
  show ?thesis
    by (rule db_invI)
       (use I in \<open>auto simp: s' heartbeat.keys_ok heartbeat.refs_ok stmt_defs
          intro: heartbeat.deps_met heartbeat.wakeups heartbeat.runs_done heartbeat.leases_ok heartbeat.attempts_ok\<close>)
qed

text \<open>
  A dependency row links two tasks of one run, so the statement that unblocks the children of a
  completed task, restricted to its run, misses none of them.
\<close>

lemma complete_wakeups:
  assumes wake: "wakeups ts ds" and refs: "refs_ok ts ds rs" and keys: "distinct (map tr_id ts)" and t: "t \<in> set ts"
    and P: "\<And>u. u \<in> set ts \<Longrightarrow> P u \<longleftrightarrow> tr_id u = tr_id t"
    and ts1: "ts1 = update_where P (complete_set out artifact now) ts"
    and U: "U = unblock_where ts1 ds (tr_workflow_run_id t) (tr_id t)"
  shows "wakeups (update_where U (unblock_set now) ts1) ds"
  unfolding wakeups_def
proof (intro ballI impI)
  fix c'
  assume "c' \<in> set (update_where U (unblock_set now) ts1)" "tr_status c' = BLOCKED"
  then have c1: "c' \<in> set ts1" "\<not> U c'" and b: "tr_status c' = BLOCKED"
    by (auto simp: set_update_where unblock_set_def split: if_splits)
  with ts1 have c: "c' \<in> set ts" by (auto simp: set_update_where complete_set_def split: if_splits)
  with wake b have "unmet ts ds c'" by (simp add: wakeups_def)
  then obtain d u where d: "d \<in> set ds" "td_task_run_id d = tr_id c'" "td_depends_on_task_run_id d = tr_id u"
    and u: "u \<in> set ts" "tr_status u \<noteq> SUCCEEDED"
    unfolding unmet_iff by metis
  have "unmet ts1 ds c'"
  proof (cases "P u")
    case True
    with P u t keys have "u = t" by (auto intro: distinct_map_eq)
    with refs_same_run [OF refs keys d(1) c u(1)] d have "tr_workflow_run_id c' = tr_workflow_run_id t" by simp
    with c1(2) b d \<open>u = t\<close> show ?thesis by (auto simp: U unblock_where_def exists_row_iff)
  next
    case False
    with u d show ?thesis
      unfolding ts1 unmet_iff bex_update_where by (intro bexI [of _ d] conjI bexI [of _ u]) simp_all
  qed
  then show "unmet (update_where U (unblock_set now) ts1) ds c'"
    by (simp add: U unblock.unmet_same)
qed

lemma run_succeed_done:
  assumes "runs_done rs ts" "\<forall>u \<in> set ts. tr_workflow_run_id u = rid \<longrightarrow> tr_status u = SUCCEEDED"
  shows "runs_done (update_where (run_succeed_where rid) (run_succeed_set now) rs) ts"
  using assms by (auto simp: runs_done_def ball_update_where run_succeed_where_def run_succeed_set_def)

lemma CompleteTask_inv:
  assumes op: "CompleteTask e tid worker out artifact logs s = Inr (x, s')" and inv: "db_inv s"
  shows "db_inv s'"
  using op
proof (rule CompleteTask_Inr)
  fix t :: task_row and j ts1 U g
  let ?P = "held [RUNNING] tid worker (e_now e)" and ?run = "tr_workflow_run_id t"
  assume q: "query_row ?P (db_tasks s) = Some t"
    and ts1: "ts1 = update_where ?P (complete_set j artifact (e_now e)) (db_tasks s)"
    and U: "U = unblock_where ts1 (db_deps s) ?run tid"
    and ts: "db_tasks s' = update_where U (unblock_set (e_now e)) ts1"
    and as: "db_attempts s' = update_where (attempt_is tid (tr_attempt_count t)) g (db_attempts s)"
    and g: "\<And>a. ta_task_run_id (g a) = ta_task_run_id a" "\<And>a. ta_attempt_number (g a) = ta_attempt_number a"
      "\<And>a. ta_ended_at (g a) = Some (e_now e)"
    and rs: "db_runs s' = (if \<forall>u \<in> set (db_tasks s'). tr_workflow_run_id u = ?run \<longrightarrow> tr_status u = SUCCEEDED
                       then update_where (run_succeed_where ?run) (run_succeed_set (e_now e)) (db_runs s)
                       else db_runs s)"
    and rest: "db_deps s' = db_deps s" "db_definitions s' = db_definitions s"
  note I = db_invD [OF inv]
  from q have t: "t \<in> set (db_tasks s)" "tr_id t = tid" by (auto simp: held_def dest: query_row_SomeD)
  have only: "?P u \<longleftrightarrow> tr_id u = tr_id t" if "u \<in> set (db_tasks s)" for u
    using that t by (intro key_only [OF I(9) q]) (auto simp: held_def)
  have done1: "runs_done (db_runs s) (db_tasks s')"
    unfolding ts U ts1 by (intro unblock.runs_done complete.runs_done I)
  have keys: "keys_ok (db_tasks s') (db_runs s)" and refs: "refs_ok (db_tasks s') (db_deps s) (db_runs s)"
    using I(1,2) by (simp_all only: ts U ts1 unblock.keys_ok complete.keys_ok unblock.refs_ok complete.refs_ok)
  have "keys_ok (db_tasks s') (db_runs s') \<and> refs_ok (db_tasks s') (db_deps s) (db_runs s') \<and>
        runs_done (db_runs s') (db_tasks s')"
  proof (cases "\<forall>u \<in> set (db_tasks s'). tr_workflow_run_id u = ?run \<longrightarrow> tr_status u = SUCCEEDED")
    case True
    with rs have "db_runs s' = update_where (run_succeed_where ?run) (run_succeed_set (e_now e)) (db_runs s)" by argo
    with keys refs run_succeed_done [OF done1 True] show ?thesis by (simp add: run_succeed.keys_ok run_succeed.refs_ok)
  next
    case False
    with rs have "db_runs s' = db_runs s" by argo
    with keys refs done1 show ?thesis by simp
  qed
  moreover have wake: "wakeups (db_tasks s') (db_deps s)"
    unfolding ts by (rule complete_wakeups [OF I(4,2,9) t(1) only ts1]) (simp_all add: U t)
  have deps: "deps_met (db_tasks s') (db_deps s)"
    unfolding ts U by (rule unblock.deps_met, unfold ts1, rule complete.deps_met [OF I(3)]) (auto simp: stmt_defs)
  have atts: "attempts_ok (db_tasks s') (db_attempts s')"
    unfolding ts as U ts1 t(2) [symmetric]
    by (rule unblock.attempts_ok, rule attempts_close [OF I(7,9) t(1) _ _ _ _ g])
       (use only t in \<open>auto simp: complete_set_def active_def\<close>)
  moreover have "leases_ok (db_tasks s')"
    unfolding ts U ts1 by (intro unblock.leases_ok complete.leases_ok I)
  ultimately show ?thesis using deps wake atts I(8) by (intro db_invI) (simp_all add: rest)
qed

text \<open>
  Settling an active task: the statement of \<^verbatim>\<open>FailTask\<close> and of \<^verbatim>\<open>recoverExpired\<close>, whose WHERE
  clause \<open>P\<close> picks, by the primary key, the row \<open>t\<close> that was read as active.
\<close>

lemma settle_tables:
  assumes keys: "keys_ok ts rs" and refs: "refs_ok ts ds rs" and deps: "deps_met ts ds" and wake: "wakeups ts ds"
    and runs: "runs_done rs ts" and leases: "leases_ok ts" and atts: "attempts_ok ts as"
    and t: "t \<in> set ts" "tr_id t = tid" "active t" and st: "st \<in> {RETRY_WAIT, DEAD, CANCELLED}"
    and P: "\<And>u. u \<in> set ts \<Longrightarrow> P u \<longleftrightarrow> tr_id u = tr_id t"
    and g: "\<And>a. ta_task_run_id (g a) = ta_task_run_id a" "\<And>a. ta_attempt_number (g a) = ta_attempt_number a"
      "\<And>a. ta_ended_at (g a) = Some now"
    and ts': "ts' = update_where P (settle_set st av now) ts"
    and as': "as' = update_where (attempt_is tid (tr_attempt_count t)) g as"
  shows "keys_ok ts' rs" "refs_ok ts' ds rs" "deps_met ts' ds" "wakeups ts' ds" "runs_done rs ts'"
    "leases_ok ts'" "attempts_ok ts' as'"
proof -
  from keys have dist: "distinct (map tr_id ts)" by (simp add: keys_ok_def)
  have "P u \<longleftrightarrow> settle_guard st tid u" if "u \<in> set ts" for u
    using P [OF that] distinct_map_eq [OF dist that t(1)] t st by (auto simp: stmt_defs)
  then have ts'': "ts' = update_where (settle_guard st tid) (settle_set st av now) ts"
    unfolding ts' by (rule update_where_cong)
  show "keys_ok ts' rs" "refs_ok ts' ds rs" unfolding ts'' settle.keys_ok settle.refs_ok by (fact keys refs)+
  show "deps_met ts' ds" unfolding ts'' by (rule settle.deps_met [OF deps]) (auto simp: stmt_defs)
  show "wakeups ts' ds" unfolding ts'' by (rule settle.wakeups [OF wake]) (auto simp: stmt_defs)
  show "runs_done rs ts'" unfolding ts'' by (rule settle.runs_done [OF runs])
  show "leases_ok ts'" unfolding ts'' by (rule settle.leases_ok [OF leases])
  show "attempts_ok ts' as'" unfolding ts' as' t(2) [symmetric]
    by (rule attempts_close [OF atts dist t(1) P _ _ _ g]) (use st in \<open>auto simp: settle_set_def active_def\<close>)
qed

lemma cancel_tables:
  assumes keys: "keys_ok ts rs" and refs: "refs_ok ts ds rs" and deps: "deps_met ts ds" and wake: "wakeups ts ds"
    and runs: "runs_done rs ts" and leases: "leases_ok ts" and atts: "attempts_ok ts as"
    and ts': "ts' = update_where (pending_where run) (cancel_set now) ts"
  shows "keys_ok ts' rs" "refs_ok ts' ds rs" "deps_met ts' ds" "wakeups ts' ds" "runs_done rs ts'"
    "leases_ok ts'" "attempts_ok ts' as"
proof -
  show "keys_ok ts' rs" "refs_ok ts' ds rs" unfolding ts' cancel.keys_ok cancel.refs_ok by (fact keys refs)+
  show "deps_met ts' ds" unfolding ts' by (rule cancel.deps_met [OF deps]) (auto simp: stmt_defs)
  show "wakeups ts' ds" unfolding ts' by (rule cancel.wakeups [OF wake]) (auto simp: stmt_defs)
  show "runs_done rs ts'" unfolding ts' by (rule cancel.runs_done [OF runs])
  show "leases_ok ts'" unfolding ts' by (rule cancel.leases_ok [OF leases])
  show "attempts_ok ts' as" unfolding ts' by (rule cancel.attempts_ok [OF atts])
qed

lemma FailTask_inv:
  assumes op: "FailTask e tid worker f s = Inr (x, s')" and inv: "db_inv s"
  shows "db_inv s'"
  using op
proof (rule FailTask_Inr)
  fix t :: task_row and r st ts1 g
  assume q: "query_row (held [LEASED, RUNNING] tid worker (e_now e)) (db_tasks s) = Some t"
    and st: "st = settled (Retryable f) (wr_status r) t"
    and ts1: "ts1 = update_where (settle_where tid worker) (settle_set st (settled_at (e_gonow e) st t) (e_now e)) (db_tasks s)"
    and ts: "db_tasks s' = (if st = DEAD then update_where (pending_where (tr_workflow_run_id t)) (cancel_set (e_now e)) ts1 else ts1)"
    and as: "db_attempts s' = update_where (attempt_is tid (tr_attempt_count t)) g (db_attempts s)"
    and g: "\<And>a. ta_task_run_id (g a) = ta_task_run_id a" "\<And>a. ta_attempt_number (g a) = ta_attempt_number a"
      "\<And>a. ta_ended_at (g a) = Some (e_now e)"
    and rs: "db_runs s' = (if st = DEAD then update_where (run_fail_where (tr_workflow_run_id t)) (run_fail_set (e_now e)) (db_runs s)
                       else db_runs s)"
    and rest: "db_deps s' = db_deps s" "db_definitions s' = db_definitions s"
  note I = db_invD [OF inv]
  from q have t: "t \<in> set (db_tasks s)" "tr_id t = tid" "active t" and own: "tr_lease_owner t = Some worker"
    by (auto simp: held_def active_def dest!: query_row_SomeD)
  have only: "settle_where tid worker u \<longleftrightarrow> tr_id u = tr_id t" if "u \<in> set (db_tasks s)" for u
    using distinct_map_eq [OF I(9) that t(1)] t own by (auto simp: settle_where_def)
  note S = settle_tables [OF I(1-7) t settled_in only g ts1 [unfolded st] as, folded st]
  show ?thesis
  proof (cases "st = DEAD")
    case True
    then have ts': "db_tasks s' = update_where (pending_where (tr_workflow_run_id t)) (cancel_set (e_now e)) ts1"
      and rs': "db_runs s' = update_where (run_fail_where (tr_workflow_run_id t)) (run_fail_set (e_now e)) (db_runs s)"
      using ts rs by simp_all
    note C = cancel_tables [OF S ts']
    from C(1,2) have "keys_ok (db_tasks s') (db_runs s')" "refs_ok (db_tasks s') (db_deps s) (db_runs s')"
      by (simp_all only: rs' run_fail.keys_ok run_fail.refs_ok)
    moreover from run_fail.runs_done [OF C(5)] have "runs_done (db_runs s') (db_tasks s')" by (simp only: rs')
    ultimately show ?thesis using C I(8) by (intro db_invI) (simp_all only: rest)
  next
    case False
    with ts rs have "db_tasks s' = ts1" "db_runs s' = db_runs s" by simp_all
    with S I(8) rest show ?thesis by (intro db_invI) simp_all
  qed
qed

lemma ReplayDead_inv:
  assumes op: "ReplayDead e tenant user tid s = Inr s'" and inv: "db_inv s"
  shows "db_inv s'"
  using op
proof (rule ReplayDead_Inr)
  fix t :: task_row and ts1
  let ?run = "tr_workflow_run_id t"
  assume t: "t \<in> set (db_tasks s)" "tr_id t = tid" "tr_status t = DEAD"
    and ts1: "ts1 = update_where (replay_where tid) (replay_set (e_now e)) (db_tasks s)"
    and ts: "db_tasks s' = update_where (rebuild_where ?run) (rebuild_set ts1 (db_deps s) (e_now e)) ts1"
    and rs: "db_runs s' = update_where (run_reopen_where ?run) run_reopen_set (db_runs s)"
    and rest: "db_attempts s' = db_attempts s" "db_deps s' = db_deps s" "db_definitions s' = db_definitions s"
  note I = db_invD [OF inv]
  have "replay_where tid u \<longleftrightarrow> task_is [DEAD] tid u" if "u \<in> set (db_tasks s)" for u
    using distinct_map_eq [OF I(9) that t(1)] t(2,3) by (auto simp: replay_where_def task_is_def)
  then have ts1': "ts1 = update_where (task_is [DEAD] tid) (replay_set (e_now e)) (db_tasks s)"
    unfolding ts1 by (rule update_where_cong)
  have deps1: "deps_met ts1 (db_deps s)"
    unfolding ts1' by (rule replay.deps_met [OF I(3)]) (auto simp: stmt_defs)
  have wake1: "wakeups ts1 (db_deps s)"
    unfolding ts1' by (rule replay.wakeups [OF I(4)]) (auto simp: stmt_defs)
  have "deps_met (db_tasks s') (db_deps s)"
    unfolding ts by (rule rebuild.deps_met [OF deps1]) (auto simp: rebuild_set_def split: if_splits)
  moreover have "wakeups (db_tasks s') (db_deps s)"
    unfolding ts by (rule rebuild.wakeups [OF wake1]) (auto simp: rebuild_set_def split: if_splits)
  moreover have "keys_ok (db_tasks s') (db_runs s')" "refs_ok (db_tasks s') (db_deps s) (db_runs s')"
    unfolding ts ts1' rs rebuild.keys_ok replay.keys_ok run_reopen.keys_ok rebuild.refs_ok replay.refs_ok
      run_reopen.refs_ok by (fact I)+
  moreover have "runs_done (db_runs s') (db_tasks s')"
    unfolding ts ts1' rs by (intro rebuild.runs_done replay.runs_done run_reopen.runs_done I)
  moreover have "leases_ok (db_tasks s')"
    unfolding ts ts1' by (intro rebuild.leases_ok replay.leases_ok I)
  moreover have "attempts_ok (db_tasks s') (db_attempts s)"
    unfolding ts ts1' by (intro rebuild.attempts_ok replay.attempts_ok I)
  ultimately show ?thesis using I(8) by (intro db_invI) (simp_all add: rest)
qed

lemma WorkerHeartbeat_inv:
  "WorkerHeartbeat e tenant worker handlers n meta s = Inr s' \<Longrightarrow> db_inv s \<Longrightarrow> db_inv s'"
  by (auto simp: WorkerHeartbeat_def Let_def db_inv_def split: if_splits)

end
