(* ===== verification/Run_Store.thy ===== *)
theory Run_Store
  imports Worker_Store Go_Strings
begin

text \<open>
  \<^verbatim>\<open>internal/storage/postgres.go\<close>: workflow definitions and their versions, runs, cancellation and
  retry, and the event log of a run. As in \<open>Worker_Store\<close>, an operation is one transaction.
  A user id of the source is the empty string or a uuid: \<^verbatim>\<open>nullableUUID\<close> stores the empty one
  as NULL, and the model passes the \<open>option\<close> directly. \<^verbatim>\<open>json.Marshal\<close> followed by
  \<^verbatim>\<open>json.Unmarshal\<close> gives a DAG back unchanged, so the column \<^verbatim>\<open>dag_spec\<close> holds the DAG.
\<close>

section \<open>Definitions and versions\<close>

definition dag_err :: "dag_error \<Rightarrow> err" where
  "dag_err d = ErrMsg
     (case d of
        NoTasks \<Rightarrow> ''workflow requires at least one task''
      | TooManyTasks \<Rightarrow> ''workflow exceeds 500 tasks''
      | InvalidTaskKey k \<Rightarrow> ''invalid task key '' @ quote k
      | InvalidHandler k \<Rightarrow> ''task '' @ quote k @ '' has invalid handler''
      | BadMaximumAttempts k \<Rightarrow> ''task '' @ quote k @ '' maximum_attempts must be between 1 and 100''
      | BadTimeout k \<Rightarrow> ''task '' @ quote k @ '' timeout_seconds must be between 1 and 86400''
      | SelfDependency k \<Rightarrow> ''task '' @ quote k @ '' cannot depend on itself''
      | MissingDependency k d \<Rightarrow> ''task '' @ quote k @ '' depends on missing task '' @ quote d
      | RepeatedDependency k d \<Rightarrow> ''task '' @ quote k @ '' repeats dependency '' @ quote d
      | TooManyEdges \<Rightarrow> ''workflow exceeds 5000 dependency edges''
      | Cycle k \<Rightarrow> ''workflow contains a cycle involving '' @ quote k)"

text \<open>
  The two orders are those of the \<^verbatim>\<open>range\<close> loops in the call of \<open>ValidateDAG\<close>. The audit event is
  written outside a transaction, with its error ignored; here it is written.
\<close>

definition CreateWorkflow ::
    "env \<Rightarrow> string list \<Rightarrow> string list \<Rightarrow> uuid \<Rightarrow> uuid option \<Rightarrow> string \<Rightarrow> dag \<Rightarrow> db \<Rightarrow> (definition_row \<times> db) res" where
  "CreateWorkflow e order1 order2 tenant user name0 d s =
     (case ValidateDAG order1 order2 d of
        Some er \<Rightarrow> Inl (dag_err er)
      | None \<Rightarrow>
          let name = (if name0 = '''' then dag_Name d else name0)
          in if name = '''' then Inl (ErrMsg ''name is required'')
             else if exists_row (\<lambda>w. wd_tenant_id w = tenant \<and> wd_name w = name \<and> wd_version w = 1) (db_definitions s)
             then Inl ErrConflict
             else
               let w = \<lparr>wd_id = e_uuid e 0, wd_tenant_id = tenant, wd_name = name, wd_version = 1,
                         wd_dag_spec = d, wd_created_by = user, wd_created_at = e_now e\<rparr>
               in Inr (w, insert_audit e tenant user ''workflow.create'' ''workflow'' (wd_id w) (JObj [])
                            (s\<lparr>db_definitions := db_definitions s @ [w]\<rparr>)))"

definition CreateVersion ::
    "env \<Rightarrow> string list \<Rightarrow> string list \<Rightarrow> uuid \<Rightarrow> uuid option \<Rightarrow> uuid \<Rightarrow> dag \<Rightarrow> db \<Rightarrow> (definition_row \<times> db) res" where
  "CreateVersion e order1 order2 tenant user defid d s =
     (case ValidateDAG order1 order2 d of
        Some er \<Rightarrow> Inl (dag_err er)
      | None \<Rightarrow>
          (case query_row (\<lambda>w. wd_id w = defid \<and> wd_tenant_id w = tenant) (db_definitions s) of
             None \<Rightarrow> Inl ErrNotFound
           | Some w0 \<Rightarrow>
               (case sort_key (\<lambda>w. - wd_version w)
                       (select (\<lambda>w. wd_tenant_id w = tenant \<and> wd_name w = wd_name w0) (db_definitions s)) of
                  [] \<Rightarrow> Inl (ErrDB ''no rows in result set'')
                | latest # _ \<Rightarrow>
                    let version = wd_version latest + 1
                    in if \<not> int4_ok version then Inl (ErrDB ''integer out of range'')
                       else
                         let w = \<lparr>wd_id = e_uuid e 0, wd_tenant_id = tenant, wd_name = wd_name w0,
                                   wd_version = version, wd_dag_spec = d, wd_created_by = user,
                                   wd_created_at = e_now e\<rparr>
                         in Inr (w, insert_audit e tenant user ''workflow.version'' ''workflow'' (wd_id w)
                                      (JObj [(''version'', JNum version)])
                                      (s\<lparr>db_definitions := db_definitions s @ [w]\<rparr>)))))"

text \<open>
  \<^verbatim>\<open>SELECT DISTINCT ON (name) ... ORDER BY name,version DESC\<close>: sorted by name and then by falling
  version, only the first row of each name is kept.
\<close>

fun distinct_on :: "('r \<Rightarrow> 'k) \<Rightarrow> 'r list \<Rightarrow> 'r list" where
  "distinct_on k [] = []"
| "distinct_on k (r # rs) = r # distinct_on k (filter (\<lambda>x. k x \<noteq> k r) rs)"

definition ListWorkflows :: "uuid \<Rightarrow> db \<Rightarrow> definition_row list" where
  "ListWorkflows tenant s =
     distinct_on wd_name
       (sort_key wd_name (sort_key (\<lambda>w. - wd_version w)
          (select (\<lambda>w. wd_tenant_id w = tenant) (db_definitions s))))"

definition GetWorkflow :: "uuid \<Rightarrow> uuid \<Rightarrow> db \<Rightarrow> definition_row res" where
  "GetWorkflow tenant defid s =
     (case query_row (\<lambda>w. wd_id w = defid \<and> wd_tenant_id w = tenant) (db_definitions s) of
        None \<Rightarrow> Inl ErrNotFound
      | Some w \<Rightarrow> Inr w)"

section \<open>CreateRun\<close>

text \<open>
  The uuids of a call: 0 is the run, 1 the outbox event and \<open>2 + i\<close> the task of the \<open>i\<close>-th entry
  of the map \<^verbatim>\<open>dag.Tasks\<close>.
\<close>

definition task_ids :: "env \<Rightarrow> dag \<Rightarrow> string \<Rightarrow> uuid option" where
  "task_ids e d = map_of (zip (map fst (dag_Tasks d)) (map (\<lambda>i. e_uuid e (2 + i)) [0..<length (dag_Tasks d)]))"

definition new_task :: "env \<Rightarrow> uuid \<Rightarrow> json \<Rightarrow> uuid \<Rightarrow> string \<Rightarrow> task_spec \<Rightarrow> task_row" where
  "new_task e run input tid key spec0 =
     (let spec = WithDefaults spec0
      in \<lparr>tr_id = tid, tr_workflow_run_id = run, tr_task_key = key, tr_handler = Handler spec,
          tr_status = (if DependsOn spec = [] then READY else BLOCKED), tr_priority = Priority spec,
          tr_available_at = e_now e, tr_attempt_count = 0, tr_maximum_attempts = MaximumAttempts spec,
          tr_timeout_seconds = TimeoutSeconds spec, tr_lease_owner = None, tr_lease_expires_at = None,
          tr_input = input, tr_output = None, tr_output_artifact_uri = None,
          tr_created_at = e_now e, tr_updated_at = e_now e\<rparr>)"

fun insert_tasks ::
    "env \<Rightarrow> uuid \<Rightarrow> json \<Rightarrow> (string \<Rightarrow> uuid option) \<Rightarrow> (string \<times> task_spec) list \<Rightarrow> task_row list res" where
  "insert_tasks e run input ids [] = Inr []"
| "insert_tasks e run input ids ((key, spec) # rest) =
     (case ids key of
        None \<Rightarrow> Inl (ErrDB ''invalid input syntax for type uuid'')
      | Some tid \<Rightarrow>
          if \<not> int4_ok (Priority spec) then Inl (ErrDB ''integer out of range'')
          else (case insert_tasks e run input ids rest of
                  Inl er \<Rightarrow> Inl er
                | Inr ts \<Rightarrow> Inr (new_task e run input tid key spec # ts)))"

fun insert_deps ::
    "uuid \<Rightarrow> (string \<Rightarrow> uuid option) \<Rightarrow> uuid \<Rightarrow> string list \<Rightarrow> dependency_row list res" where
  "insert_deps run ids tid [] = Inr []"
| "insert_deps run ids tid (dep # deps) =
     (case ids dep of
        None \<Rightarrow> Inl (ErrDB ''invalid input syntax for type uuid'')
      | Some u \<Rightarrow>
          (case insert_deps run ids tid deps of
             Inl er \<Rightarrow> Inl er
           | Inr ds \<Rightarrow>
               Inr (\<lparr>td_workflow_run_id = run, td_task_run_id = tid, td_depends_on_task_run_id = u\<rparr> # ds)))"

fun insert_all_deps ::
    "uuid \<Rightarrow> (string \<Rightarrow> uuid option) \<Rightarrow> (string \<times> task_spec) list \<Rightarrow> dependency_row list res" where
  "insert_all_deps run ids [] = Inr []"
| "insert_all_deps run ids ((key, spec) # rest) =
     (case ids key of
        None \<Rightarrow> Inl (ErrDB ''invalid input syntax for type uuid'')
      | Some tid \<Rightarrow>
          (case insert_deps run ids tid (DependsOn spec) of
             Inl er \<Rightarrow> Inl er
           | Inr ds \<Rightarrow>
               (case insert_all_deps run ids rest of
                  Inl er \<Rightarrow> Inl er
                | Inr ds' \<Rightarrow> Inr (ds @ ds'))))"

definition getRunTx :: "uuid \<Rightarrow> string \<Rightarrow> db \<Rightarrow> run_row res" where
  "getRunTx tenant key s =
     (case query_row (\<lambda>r. wr_tenant_id r = tenant \<and> wr_idempotency_key r = key) (db_runs s) of
        None \<Rightarrow> Inl (ErrDB ''no rows in result set'')
      | Some r \<Rightarrow> Inr r)"

definition new_run :: "env \<Rightarrow> uuid \<Rightarrow> definition_row \<Rightarrow> string \<Rightarrow> json \<Rightarrow> string \<Rightarrow> run_row" where
  "new_run e tenant w key input uri =
     \<lparr>wr_id = e_uuid e 0, wr_tenant_id = tenant, wr_workflow_definition_id = wd_id w,
      wr_workflow_version = wd_version w, wr_status = RunRunning, wr_input = input,
      wr_input_artifact_uri = nullif_empty uri, wr_idempotency_key = key, wr_trace_parent = e_trace e,
      wr_started_at = Some (e_now e), wr_completed_at = None, wr_created_at = e_now e\<rparr>"

definition attach_where :: "uuid \<Rightarrow> artifact_row \<Rightarrow> bool" where
  "attach_where aid a \<longleftrightarrow> ar_id a = aid \<and> ar_workflow_run_id a = None"

text \<open>
  \<open>input = None\<close> is an empty \<^verbatim>\<open>json.RawMessage\<close> and \<open>artifact = None\<close> an absent or empty input
  artifact id. The result says whether the run was created by this call.
\<close>

definition CreateRun ::
    "env \<Rightarrow> uuid \<Rightarrow> uuid option \<Rightarrow> uuid \<Rightarrow> string \<Rightarrow> json option \<Rightarrow> uuid option \<Rightarrow> db
       \<Rightarrow> ((run_row \<times> bool) \<times> db) res" where
  "CreateRun e tenant user defid key input0 artifact s =
     (if key = '''' then Inl (ErrMsg ''idempotency key is required'')
      else
        let input = (case input0 of None \<Rightarrow> JObj [] | Some j \<Rightarrow> j);
            uri = (case artifact of
                     None \<Rightarrow> Some ''''
                   | Some aid \<Rightarrow>
                       map_option ar_object_uri
                         (query_row (\<lambda>a. ar_id a = aid \<and> ar_tenant_id a = tenant \<and> ar_kind a = ''input'' \<and>
                                         ar_status a = ArtifactReady) (db_artifacts s)))
        in case uri of
             None \<Rightarrow> Inl ErrNotFound
           | Some uri \<Rightarrow>
               (case query_row (\<lambda>w. wd_id w = defid \<and> wd_tenant_id w = tenant) (db_definitions s) of
                  None \<Rightarrow> Inl ErrNotFound
                | Some w \<Rightarrow>
                    if exists_row (\<lambda>r. wr_tenant_id r = tenant \<and> wr_idempotency_key r = key) (db_runs s)
                    then (case getRunTx tenant key s of Inl er \<Rightarrow> Inl er | Inr r \<Rightarrow> Inr ((r, False), s))
                    else if (case artifact of None \<Rightarrow> False
                             | Some aid \<Rightarrow> rows_affected (attach_where aid) (db_artifacts s) \<noteq> 1)
                    then Inl ErrConflict
                    else
                      let d = wd_dag_spec w;
                          run = new_run e tenant w key input uri;
                          arts = (case artifact of
                                    None \<Rightarrow> db_artifacts s
                                  | Some aid \<Rightarrow> update_where (attach_where aid)
                                      (\<lambda>a. a\<lparr>ar_workflow_run_id := Some (wr_id run)\<rparr>) (db_artifacts s));
                          ids = task_ids e d
                      in case insert_tasks e (wr_id run) input ids (dag_Tasks d) of
                           Inl er \<Rightarrow> Inl er
                         | Inr ts \<Rightarrow>
                             (case insert_all_deps (wr_id run) ids (dag_Tasks d) of
                                Inl er \<Rightarrow> Inl er
                              | Inr ds \<Rightarrow>
                                  let payload = JObj [(''workflow_run_id'', JUuid (wr_id run)),
                                                      (''definition_id'', JUuid defid), (''status'', JStr ''RUNNING'')]
                                  in Inr ((run, True),
                                       insert_audit e tenant user ''run.create'' ''workflow_run'' (wr_id run) (JObj [])
                                         (insert_outbox
                                            [outbox_event e 1 ''workflow_run'' (wr_id run) ''workflow.run.created'' payload (e_trace e)]
                                            (s\<lparr>db_artifacts := arts, db_runs := db_runs s @ [run],
                                               db_tasks := db_tasks s @ ts, db_deps := db_deps s @ ds\<rparr>))))))"

section \<open>Reading runs\<close>

record task_view =
  tv_task :: task_row
  tv_log_artifact_uri :: "string option"
  tv_depends_on :: "string list"
  tv_attempts :: "attempt_row list"

record run_view =
  rv_run :: run_row
  rv_tasks :: "task_view list"

text \<open>
  The columns \<^verbatim>\<open>log_artifact_uri\<close> (of the latest attempt that has one) and \<^verbatim>\<open>depends_on\<close> (the
  sorted keys of the upstream tasks) of the task query of \<^verbatim>\<open>GetRun\<close>.
\<close>

definition latest_log :: "db \<Rightarrow> uuid \<Rightarrow> string option" where
  "latest_log s tid =
     (case sort_key (\<lambda>a. - ta_attempt_number a)
             (select (\<lambda>a. ta_task_run_id a = tid \<and> ta_log_artifact_uri a \<noteq> None) (db_attempts s)) of
        [] \<Rightarrow> None
      | a # _ \<Rightarrow> ta_log_artifact_uri a)"

definition upstream_keys :: "db \<Rightarrow> uuid \<Rightarrow> string list" where
  "upstream_keys s tid =
     sort (concat (map (\<lambda>d. map tr_task_key
             (select (\<lambda>u. tr_id u = td_depends_on_task_run_id d) (db_tasks s)))
        (select (\<lambda>d. td_task_run_id d = tid) (db_deps s))))"

definition GetRun :: "uuid \<Rightarrow> uuid \<Rightarrow> db \<Rightarrow> run_view res" where
  "GetRun tenant rid s =
     (case query_row (\<lambda>r. wr_id r = rid \<and> wr_tenant_id r = tenant) (db_runs s) of
        None \<Rightarrow> Inl ErrNotFound
      | Some r \<Rightarrow>
          Inr \<lparr>rv_run = r,
               rv_tasks = map (\<lambda>t. \<lparr>tv_task = t, tv_log_artifact_uri = latest_log s (tr_id t),
                                    tv_depends_on = upstream_keys s (tr_id t),
                                    tv_attempts = sort_key ta_attempt_number
                                      (select (\<lambda>a. ta_task_run_id a = tr_id t) (db_attempts s))\<rparr>)
                 (sort_key tr_created_at (sort_key tr_task_key
                    (select (\<lambda>t. tr_workflow_run_id t = rid) (db_tasks s))))\<rparr>)"

definition ListRuns :: "uuid \<Rightarrow> int \<Rightarrow> db \<Rightarrow> run_row list" where
  "ListRuns tenant limit0 s =
     (let limit = (if limit0 < 1 \<or> limit0 > 200 then 50 else limit0)
      in take (nat limit) (sort_key (\<lambda>r. - wr_created_at r) (select (\<lambda>r. wr_tenant_id r = tenant) (db_runs s))))"

section \<open>Cancelling and retrying runs\<close>

definition run_cancel_where :: "uuid \<Rightarrow> uuid \<Rightarrow> run_row \<Rightarrow> bool" where
  "run_cancel_where rid tenant r \<longleftrightarrow>
     wr_id r = rid \<and> wr_tenant_id r = tenant \<and> wr_status r \<notin> {RunSucceeded, RunFailed, RunCancelled}"

definition run_cancel_set :: "time \<Rightarrow> run_row \<Rightarrow> run_row" where
  "run_cancel_set now r = r\<lparr>wr_status := RunCancelled, wr_completed_at := Some now\<rparr>"

definition CancelRun :: "env \<Rightarrow> uuid \<Rightarrow> uuid option \<Rightarrow> uuid \<Rightarrow> db \<Rightarrow> db res" where
  "CancelRun e tenant user rid s =
     (let P = run_cancel_where rid tenant in
      if rows_affected P (db_runs s) = 0
      then (if query_row (\<lambda>r. wr_id r = rid \<and> wr_tenant_id r = tenant) (db_runs s) = None
            then Inl ErrNotFound else Inl ErrConflict)
      else
        Inr (insert_audit e tenant user ''run.cancel'' ''workflow_run'' rid (JObj [])
          (s\<lparr>db_runs := update_where P (run_cancel_set (e_now e)) (db_runs s),
             db_tasks := update_where (pending_where rid) (cancel_set (e_now e)) (db_tasks s)\<rparr>)))"

definition retry_where :: "uuid \<Rightarrow> task_row \<Rightarrow> bool" where
  "retry_where run t \<longleftrightarrow> tr_workflow_run_id t = run \<and> tr_status t = DEAD"

definition retry_set :: "time \<Rightarrow> task_row \<Rightarrow> task_row" where
  "retry_set now t =
     t\<lparr>tr_status := READY, tr_available_at := now,
       tr_maximum_attempts := max (tr_maximum_attempts t) (tr_attempt_count t + 1),
       tr_lease_owner := None, tr_lease_expires_at := None, tr_updated_at := now\<rparr>"

definition RetryRun :: "env \<Rightarrow> uuid \<Rightarrow> uuid option \<Rightarrow> uuid \<Rightarrow> db \<Rightarrow> db res" where
  "RetryRun e tenant user rid s =
     (if query_row (\<lambda>r. wr_id r = rid \<and> wr_tenant_id r = tenant) (db_runs s) = None then Inl ErrNotFound
      else if exists_row (\<lambda>t. retry_where rid t \<and> \<not> int4_ok (tr_attempt_count t + 1)) (db_tasks s)
      then Inl (ErrDB ''integer out of range'')
      else if rows_affected (retry_where rid) (db_tasks s) = 0 then Inl ErrConflict
      else
        Inr (insert_audit e tenant user ''run.retry'' ''workflow_run'' rid (JObj [])
          (s\<lparr>db_tasks := update_where (retry_where rid) (retry_set (e_now e)) (db_tasks s),
             db_runs := update_where (\<lambda>r. wr_id r = rid) run_reopen_set (db_runs s)\<rparr>)))"

section \<open>Events of a run\<close>

text \<open>
  \<^verbatim>\<open>WHERE aggregate_id=$1::uuid OR payload->>'workflow_run_id'=$1::text ORDER BY created_at,id\<close>.
\<close>

definition Events :: "uuid \<Rightarrow> uuid \<Rightarrow> db \<Rightarrow> outbox_row list res" where
  "Events tenant rid s =
     (if query_row (\<lambda>r. wr_id r = rid \<and> wr_tenant_id r = tenant) (db_runs s) = None then Inl ErrNotFound
      else Inr (sort_key ob_created_at (sort_key ob_id
        (select (\<lambda>o'. ob_aggregate_id o' = rid \<or>
                     json_field ''workflow_run_id'' (ob_payload o') = Some (JUuid rid)) (db_outbox s)))))"

section \<open>What the operations rely on\<close>

text \<open>
  A Go map has no duplicate keys, and a \<^verbatim>\<open>range\<close> loop meets every key once, in some order.
\<close>

definition map_orders :: "dag \<Rightarrow> string list \<Rightarrow> string list \<Rightarrow> bool" where
  "map_orders d order1 order2 \<longleftrightarrow>
     distinct (map fst (dag_Tasks d)) \<and> mset order1 = mset (map fst (dag_Tasks d)) \<and>
     mset order2 = mset (map fst (dag_Tasks d))"

definition dep_pairs :: "dependency_row list \<Rightarrow> (uuid \<times> uuid) set" where
  "dep_pairs ds = (\<lambda>d. (td_task_run_id d, td_depends_on_task_run_id d)) ` set ds"

text \<open>
  \<^verbatim>\<open>gen_random_uuid()\<close> and \<^verbatim>\<open>uuid.NewString()\<close> return values that no row uses and never the same
  value twice.
\<close>

definition fresh :: "env \<Rightarrow> db \<Rightarrow> bool" where
  "fresh e s \<longleftrightarrow> inj (e_uuid e) \<and> (\<forall>i. e_uuid e i \<notin> tr_id ` set (db_tasks s) \<and> e_uuid e i \<notin> wr_id ` set (db_runs s))"

section \<open>Statements of this file\<close>

interpretation retry: neutral_stmt "retry_where run" "retry_set now" for run now
  by unfold_locales (auto simp: retry_where_def retry_set_def stmt_defs)

interpretation run_cancel: run_quiet_stmt "run_cancel_where rid tenant" "run_cancel_set now" for rid tenant now
  by unfold_locales (simp_all add: run_cancel_set_def)

section \<open>The tasks of a new run\<close>

lemma task_ids_Some_iff:
  assumes "distinct (map fst (dag_Tasks d))"
  shows "task_ids e d k = Some u \<longleftrightarrow>
    (\<exists>i < length (dag_Tasks d). fst (dag_Tasks d ! i) = k \<and> u = e_uuid e (2 + i))"
proof -
  let ?L = "zip (map fst (dag_Tasks d)) (map (\<lambda>i. e_uuid e (2 + i)) [0..<length (dag_Tasks d)])"
  have "distinct (map fst ?L)" using assms by simp
  then have "task_ids e d k = Some u \<longleftrightarrow> (k, u) \<in> set ?L" by (simp add: task_ids_def)
  also have "\<dots> \<longleftrightarrow> (\<exists>i < length (dag_Tasks d). fst (dag_Tasks d ! i) = k \<and> u = e_uuid e (2 + i))"
    by (force simp: set_zip)
  finally show ?thesis .
qed

lemma task_ids_inj:
  assumes "distinct (map fst (dag_Tasks d))" "inj (e_uuid e)"
    and "task_ids e d k = Some u" "task_ids e d k' = Some u"
  shows "k = k'"
  using assms by (auto simp: task_ids_Some_iff dest: injD)

lemma task_ids_dom:
  assumes "distinct (map fst (dag_Tasks d))"
  shows "(\<exists>u. task_ids e d k = Some u) \<longleftrightarrow> k \<in> fst ` set (dag_Tasks d)"
proof -
  have "(\<exists>u. task_ids e d k = Some u) \<longleftrightarrow> (\<exists>i < length (dag_Tasks d). fst (dag_Tasks d ! i) = k)"
    using assms by (auto simp: task_ids_Some_iff)
  also have "\<dots> \<longleftrightarrow> k \<in> set (map fst (dag_Tasks d))" unfolding in_set_conv_nth by auto
  finally show ?thesis by simp
qed

lemma insert_tasks_Inr:
  assumes "insert_tasks e run input ids specs = Inr ts"
  shows "list_all2 (\<lambda>(k, spec) t. \<exists>tid. ids k = Some tid \<and> t = new_task e run input tid k spec) specs ts"
  using assms
  by (induction e run input ids specs arbitrary: ts rule: insert_tasks.induct)
     (auto split: option.splits if_splits sum.splits)

lemma insert_deps_Inr:
  assumes "insert_deps run ids tid deps = Inr ds"
  shows "list_all2 (\<lambda>dep d. ids dep = Some (td_depends_on_task_run_id d) \<and> td_task_run_id d = tid \<and>
           td_workflow_run_id d = run) deps ds"
  using assms
  by (induction run ids tid deps arbitrary: ds rule: insert_deps.induct) (auto split: option.splits sum.splits)

text \<open>The dependency rows of a new run are exactly the edges of its DAG.\<close>

lemma insert_all_deps_Inr:
  assumes "insert_all_deps run ids specs = Inr ds"
  shows "dep_pairs ds =
           {(a, b). \<exists>k spec dep. (k, spec) \<in> set specs \<and> ids k = Some a \<and> dep \<in> set (DependsOn spec) \<and> ids dep = Some b}"
      and "\<forall>d \<in> set ds. td_workflow_run_id d = run"
proof -
  have step: "dep_pairs es = {(a, b). a = tid \<and> (\<exists>dep. dep \<in> set deps \<and> ids dep = Some b)}"
      "\<forall>d \<in> set es. td_workflow_run_id d = run"
    if "insert_deps run ids tid deps = Inr es" for tid deps es
    using insert_deps_Inr [OF that] by (induction rule: list_all2_induct) (auto simp: dep_pairs_def)
  have "dep_pairs ds =
           {(a, b). \<exists>k spec dep. (k, spec) \<in> set specs \<and> ids k = Some a \<and> dep \<in> set (DependsOn spec) \<and> ids dep = Some b}
        \<and> (\<forall>d \<in> set ds. td_workflow_run_id d = run)"
    using assms
  proof (induction specs arbitrary: ds)
    case (Cons x specs)
    obtain k spec where x: "x = (k, spec)" by (cases x)
    from Cons.prems x obtain tid es fs where "ids k = Some tid"
      and es: "insert_deps run ids tid (DependsOn spec) = Inr es" and fs: "insert_all_deps run ids specs = Inr fs"
      and ds: "ds = es @ fs"
      by (auto split: option.splits sum.splits)
    have "dep_pairs ds = dep_pairs es \<union> dep_pairs fs" by (simp add: ds dep_pairs_def image_Un)
    with step [OF es] Cons.IH [OF fs] \<open>ids k = Some tid\<close> show ?case by (auto simp: x ds)
  qed (simp add: dep_pairs_def)
  then show "dep_pairs ds =
           {(a, b). \<exists>k spec dep. (k, spec) \<in> set specs \<and> ids k = Some a \<and> dep \<in> set (DependsOn spec) \<and> ids dep = Some b}"
      and "\<forall>d \<in> set ds. td_workflow_run_id d = run" by blast+
qed

text \<open>
  Adding the rows of a new run keeps the invariants, when their keys are new, every dependency row
  links two of the new tasks, and exactly the tasks without dependency rows start out READY.
\<close>

lemma unmet_old:
  assumes refs: "refs_ok ts ds rs" and t: "t \<in> set ts"
    and new: "tr_id ` set nts \<inter> tr_id ` set ts = {}" "\<forall>(a, b) \<in> dep_pairs nds. a \<in> tr_id ` set nts"
  shows "unmet (ts @ nts) (ds @ nds) t \<longleftrightarrow> unmet ts ds t"
proof -
  have "td_task_run_id d \<noteq> tr_id t" if "d \<in> set nds" for d
    using that new t by (fastforce simp: dep_pairs_def)
  moreover have "tr_id u \<noteq> td_depends_on_task_run_id d" if "d \<in> set ds" "u \<in> set nts" for d u
  proof -
    from refs_okD(2) [OF refs that(1)] obtain v where "v \<in> set ts" "tr_id v = td_depends_on_task_run_id d" by force
    with new(1) that(2) show ?thesis by (metis IntI empty_iff imageI)
  qed
  ultimately show ?thesis unfolding unmet_iff set_append by blast
qed

lemma add_run_tables:
  assumes old: "keys_ok ts rs" "refs_ok ts ds rs" "deps_met ts ds" "wakeups ts ds" "runs_done rs ts" "leases_ok ts"
      "attempts_ok ts as"
    and run: "wr_id r \<notin> wr_id ` set rs" "wr_status r = RunRunning"
    and ids: "distinct (map tr_id nts)" "tr_id ` set nts \<inter> tr_id ` set ts = {}"
    and rows: "\<And>t. t \<in> set nts \<Longrightarrow> tr_workflow_run_id t = wr_id r \<and> tr_status t \<in> {READY, BLOCKED} \<and>
        tr_attempt_count t = 0 \<and> tr_lease_expires_at t = None"
    and deps: "\<forall>d \<in> set nds. td_workflow_run_id d = wr_id r"
      "dep_pairs nds \<subseteq> tr_id ` set nts \<times> tr_id ` set nts"
    and ready: "\<And>t. t \<in> set nts \<Longrightarrow> tr_status t = READY \<longleftrightarrow> tr_id t \<notin> fst ` dep_pairs nds"
  shows "keys_ok (ts @ nts) (rs @ [r])" "refs_ok (ts @ nts) (ds @ nds) (rs @ [r])"
    "deps_met (ts @ nts) (ds @ nds)" "wakeups (ts @ nts) (ds @ nds)" "runs_done (rs @ [r]) (ts @ nts)"
    "leases_ok (ts @ nts)" "attempts_ok (ts @ nts) as"
proof -
  have unold: "unmet (ts @ nts) (ds @ nds) t \<longleftrightarrow> unmet ts ds t" if "t \<in> set ts" for t
    by (rule unmet_old [OF old(2) that ids(2)]) (use deps in auto)
  have olddep: "td_task_run_id d \<in> tr_id ` set ts" if "d \<in> set ds" for d
    using refs_okD(1) [OF old(2) that] .
  have unnew: "unmet (ts @ nts) (ds @ nds) t \<longleftrightarrow> tr_status t = BLOCKED" if t: "t \<in> set nts" for t
  proof
    assume "unmet (ts @ nts) (ds @ nds) t"
    then obtain d where d: "d \<in> set ds \<or> d \<in> set nds" "td_task_run_id d = tr_id t"
      unfolding unmet_iff set_append by blast
    have "d \<notin> set ds" using olddep [of d] d(2) ids(2) t by auto
    with d have "(tr_id t, td_depends_on_task_run_id d) \<in> dep_pairs nds" by (force simp: dep_pairs_def)
    then have "tr_id t \<in> fst ` dep_pairs nds" by force
    with ready [OF t] rows [OF t] show "tr_status t = BLOCKED" by auto
  next
    assume "tr_status t = BLOCKED"
    with ready [OF t] obtain d where d: "d \<in> set nds" "td_task_run_id d = tr_id t" by (auto simp: dep_pairs_def)
    with deps(2) obtain u where "u \<in> set nts" "tr_id u = td_depends_on_task_run_id d" by (force simp: dep_pairs_def)
    moreover from rows [OF this(1)] have "tr_status u \<noteq> SUCCEEDED" by auto
    ultimately show "unmet (ts @ nts) (ds @ nds) t" using d unfolding unmet_iff set_append by blast
  qed
  show "keys_ok (ts @ nts) (rs @ [r])" using old(1) run(1) ids by (auto simp: keys_ok_def)
  show "deps_met (ts @ nts) (ds @ nds)" using old(3) unold unnew by (auto simp: deps_met_def)
  show "wakeups (ts @ nts) (ds @ nds)" using old(4) unold unnew by (auto simp: wakeups_def)
  show "leases_ok (ts @ nts)" using old(6) rows by (fastforce simp: leases_ok_def lease_row_def active_def)
  show "attempts_ok (ts @ nts) as" using old(7) rows by (fastforce simp: attempts_ok_def)
  show "runs_done (rs @ [r]) (ts @ nts)" using old(2,5) run rows by (fastforce simp: runs_done_def refs_ok_def)
  have new: "task_in (ts @ nts) a (wr_id r)" if "a \<in> tr_id ` set nts" for a
    using that rows by (auto simp: task_in_def)
  show "refs_ok (ts @ nts) (ds @ nds) (rs @ [r])"
  proof (rule refs_okI)
    show "tr_workflow_run_id t \<in> wr_id ` set (rs @ [r])" if "t \<in> set (ts @ nts)" for t
      using that rows [of t] refs_okD(3) [OF old(2), of t] by auto
    show "task_in (ts @ nts) (td_task_run_id d) (td_workflow_run_id d) \<and>
          task_in (ts @ nts) (td_depends_on_task_run_id d) (td_workflow_run_id d)" if "d \<in> set (ds @ nds)" for d
    proof (cases "d \<in> set ds")
      case True
      with old(2) show ?thesis by (auto simp: refs_ok_def task_in_def)
    next
      case False
      with that have "d \<in> set nds" by simp
      moreover from this deps(2) have "td_task_run_id d \<in> tr_id ` set nts" "td_depends_on_task_run_id d \<in> tr_id ` set nts"
        unfolding dep_pairs_def by blast+
      ultimately show ?thesis using deps(1) new by simp
    qed
  qed
qed

text \<open>What the transaction of \<^verbatim>\<open>CreateRun\<close> inserts when it creates a run.\<close>

lemma CreateRun_created:
  assumes "CreateRun e tenant user defid key input artifact s = Inr ((r, True), s')"
  obtains w j uri ts ds where "w \<in> set (db_definitions s)" "wd_id w = defid" "wd_tenant_id w = tenant"
    and "r = new_run e tenant w key j uri"
    and "insert_tasks e (wr_id r) j (task_ids e (wd_dag_spec w)) (dag_Tasks (wd_dag_spec w)) = Inr ts"
    and "insert_all_deps (wr_id r) (task_ids e (wd_dag_spec w)) (dag_Tasks (wd_dag_spec w)) = Inr ds"
    and "db_tasks s' = db_tasks s @ ts" "db_deps s' = db_deps s @ ds" "db_runs s' = db_runs s @ [r]"
    and "db_attempts s' = db_attempts s" "db_definitions s' = db_definitions s"
    and "\<forall>q \<in> set (db_runs s). \<not> (wr_tenant_id q = tenant \<and> wr_idempotency_key q = key)"
  using assms
  by (auto simp: CreateRun_def Let_def exists_row_iff dest!: query_row_SomeD
      split: if_splits option.splits sum.splits)

lemma CreateRun_existing:
  assumes "CreateRun e tenant user defid key input artifact s = Inr ((r, False), s')"
  shows "s' = s" "r \<in> set (db_runs s)" "wr_tenant_id r = tenant" "wr_idempotency_key r = key"
  using assms
  by (auto simp: CreateRun_def getRunTx_def Let_def dest!: query_row_SomeD
      split: if_splits option.splits sum.splits)

lemma new_task_row [simp]:
  "tr_id (new_task e run input tid k spec) = tid" "tr_task_key (new_task e run input tid k spec) = k"
  "tr_workflow_run_id (new_task e run input tid k spec) = run"
  "tr_status (new_task e run input tid k spec) = (if DependsOn spec = [] then READY else BLOCKED)"
  "tr_attempt_count (new_task e run input tid k spec) = 0"
  "tr_lease_expires_at (new_task e run input tid k spec) = None"
  "tr_available_at (new_task e run input tid k spec) = e_now e"
  by (simp_all add: new_task_def Let_def)

text \<open>The rows of a new run, for a stored DAG and fresh identifiers.\<close>

lemma new_tasks:
  assumes "list_all2 (\<lambda>(k, spec) t. \<exists>tid. ids k = Some tid \<and> t = new_task e run input tid k spec) specs ts"
  shows "map tr_task_key ts = map fst specs" "map (Some \<circ> tr_id) ts = map (ids \<circ> fst) specs"
    and "t \<in> set ts \<Longrightarrow> \<exists>spec. (tr_task_key t, spec) \<in> set specs \<and> ids (tr_task_key t) = Some (tr_id t) \<and>
           t = new_task e run input (tr_id t) (tr_task_key t) spec"
    and "(k, spec) \<in> set specs \<Longrightarrow> \<exists>t \<in> set ts. tr_task_key t = k \<and> ids k = Some (tr_id t) \<and>
           t = new_task e run input (tr_id t) k spec"
  using assms by (induction rule: list_all2_induct) auto

lemma new_run_row [simp]:
  "wr_id (new_run e tenant w key j uri) = e_uuid e 0" "wr_status (new_run e tenant w key j uri) = RunRunning"
  "wr_tenant_id (new_run e tenant w key j uri) = tenant" "wr_idempotency_key (new_run e tenant w key j uri) = key"
  by (simp_all add: new_run_def)

lemma task_ids_distinct:
  assumes "distinct (map fst (dag_Tasks d))" "inj (e_uuid e)"
  shows "distinct (map (task_ids e d \<circ> fst) (dag_Tasks d))"
proof -
  have "inj_on (task_ids e d) (fst ` set (dag_Tasks d))"
  proof (rule inj_onI)
    fix k k'
    assume "k \<in> fst ` set (dag_Tasks d)" and eq: "task_ids e d k = task_ids e d k'"
    then obtain u where "task_ids e d k = Some u" using task_ids_dom [OF assms(1), of e k] by auto
    with eq show "k = k'" by (intro task_ids_inj [OF assms, of k u k']) simp_all
  qed
  with assms(1) have "distinct (map (task_ids e d) (map fst (dag_Tasks d)))"
    unfolding distinct_map [of "task_ids e d"] by simp
  then show ?thesis by (simp only: map_map)
qed

lemma created_rows:
  assumes dk: "distinct (map fst (dag_Tasks d))" and ok: "dag_ok d" and inj: "inj (e_uuid e)"
    and ins: "insert_tasks e run j (task_ids e d) (dag_Tasks d) = Inr ts"
    and insd: "insert_all_deps run (task_ids e d) (dag_Tasks d) = Inr ds"
  shows "distinct (map tr_id ts)" "dep_pairs ds \<subseteq> tr_id ` set ts \<times> tr_id ` set ts"
    and "t \<in> set ts \<Longrightarrow> tr_id t \<in> range (e_uuid e)"
    and "t \<in> set ts \<Longrightarrow> tr_status t = READY \<longleftrightarrow> tr_id t \<notin> fst ` dep_pairs ds"
proof -
  let ?ids = "task_ids e d" and ?specs = "dag_Tasks d"
  note N = new_tasks [OF insert_tasks_Inr [OF ins]] and D = insert_all_deps_Inr(1) [OF insd]
  show "distinct (map tr_id ts)"
    using task_ids_distinct [OF dk inj] unfolding N(2) [symmetric] by (metis distinct_map map_map)
  have "u \<in> tr_id ` set ts" if "?ids k = Some u" for k u
  proof -
    from that task_ids_dom [OF dk] obtain spec where "(k, spec) \<in> set ?specs" by force
    from N(4) [OF this] that show ?thesis by auto
  qed
  then show "dep_pairs ds \<subseteq> tr_id ` set ts \<times> tr_id ` set ts" unfolding D by blast
  assume "t \<in> set ts"
  from N(3) [OF this] obtain spec where spec: "(tr_task_key t, spec) \<in> set ?specs" "?ids (tr_task_key t) = Some (tr_id t)"
    and t: "t = new_task e run j (tr_id t) (tr_task_key t) spec"
    by (elim exE conjE) (rule that)
  have st: "tr_status t = (if DependsOn spec = [] then READY else BLOCKED)" by (subst t) simp
  from spec(2) show "tr_id t \<in> range (e_uuid e)" by (auto simp: task_ids_Some_iff [OF dk])
  show "tr_status t = READY \<longleftrightarrow> tr_id t \<notin> fst ` dep_pairs ds"
  proof (cases "DependsOn spec")
    case Nil
    have False if pair: "(tr_id t, b) \<in> dep_pairs ds" for b
    proof -
      from pair obtain k spec' dep where k: "(k, spec') \<in> set ?specs" "?ids k = Some (tr_id t)" "dep \<in> set (DependsOn spec')"
        unfolding D by blast
      with task_ids_inj [OF dk inj _ spec(2)] have "k = tr_task_key t" by simp
      with k(1) spec(1) dk have "spec' = spec" by (metis eq_key_imp_eq_value)
      with k(3) Nil show False by simp
    qed
    with Nil st show ?thesis by auto
  next
    case (Cons dep rest)
    with ok spec(1) have "dep \<in> fst ` set ?specs" by (force simp: dag_ok_def task_ok_def)
    then obtain b where "?ids dep = Some b" using task_ids_dom [OF dk] by blast
    with spec Cons have "(tr_id t, b) \<in> dep_pairs ds" unfolding D by force
    with Cons st show ?thesis by force
  qed
qed

lemma freshD:
  assumes "fresh e s" "u \<in> range (e_uuid e)"
  shows "u \<notin> tr_id ` set (db_tasks s)"
proof -
  from assms(2) obtain i where "u = e_uuid e i" by auto
  with assms(1) show ?thesis by (simp add: fresh_def)
qed

lemma CreateRun_inv:
  assumes op: "CreateRun e tenant user defid key input artifact s = Inr ((r, c), s')"
    and fresh: "fresh e s" and inv: "db_inv s"
  shows "db_inv s'"
proof (cases c)
  case False
  with op have "s' = s" by (auto dest: CreateRun_existing(1))
  with inv show ?thesis by simp
next
  case True
  with op have "CreateRun e tenant user defid key input artifact s = Inr ((r, True), s')" by simp
  then show ?thesis
  proof (rule CreateRun_created)
    fix w :: definition_row and j uri ts ds
    let ?d = "wd_dag_spec w"
    let ?ids = "task_ids e ?d" and ?specs = "dag_Tasks ?d"
    assume w: "w \<in> set (db_definitions s)" and r: "r = new_run e tenant w key j uri"
      and ins: "insert_tasks e (wr_id r) j ?ids ?specs = Inr ts" and insd: "insert_all_deps (wr_id r) ?ids ?specs = Inr ds"
      and s': "db_tasks s' = db_tasks s @ ts" "db_deps s' = db_deps s @ ds" "db_runs s' = db_runs s @ [r]"
        "db_attempts s' = db_attempts s" "db_definitions s' = db_definitions s"
    note I = db_invD [OF inv]
    from I(8) w have def_ok: "distinct (map fst ?specs)" "dag_ok ?d" by (auto simp: defs_ok_def)
    from fresh have inj: "inj (e_uuid e)" by (simp add: fresh_def)
    note C = created_rows [OF def_ok inj ins insd]
    have "tr_id t \<notin> tr_id ` set (db_tasks s)" if "t \<in> set ts" for t
      by (rule freshD [OF fresh C(3) [OF that]])
    then have disj: "tr_id ` set ts \<inter> tr_id ` set (db_tasks s) = {}" by blast
    have rows: "tr_workflow_run_id t = wr_id r \<and> tr_status t \<in> {READY, BLOCKED} \<and>
        tr_attempt_count t = 0 \<and> tr_lease_expires_at t = None" if "t \<in> set ts" for t
    proof -
      from new_tasks(3) [OF insert_tasks_Inr [OF ins] that]
      obtain spec where t: "t = new_task e (wr_id r) j (tr_id t) (tr_task_key t) spec" by (elim exE conjE) (rule that)
      show ?thesis by (subst (1 2 3 4) t) simp
    qed
    have "wr_id r \<notin> wr_id ` set (db_runs s)" "wr_status r = RunRunning" using fresh by (auto simp: r fresh_def)
    note A = add_run_tables [OF I(1-7) this C(1) disj rows insert_all_deps_Inr(2) [OF insd] C(2,4)]
    show ?thesis using A I(8) by (intro db_invI) (simp_all only: s')
  qed
qed

lemma CreateWorkflow_inv:
  assumes op: "CreateWorkflow e order1 order2 tenant user name d s = Inr (w, s')"
    and "map_orders d order1 order2" and inv: "db_inv s"
  shows "db_inv s'"
proof -
  from op have "ValidateDAG order1 order2 d = None" by (auto simp: CreateWorkflow_def split: option.splits)
  with assms(2) have "distinct (map fst (dag_Tasks d)) \<and> dag_ok d"
    by (simp add: map_orders_def ValidateDAG_iff)
  moreover from op have "wd_dag_spec w = d" "db_definitions s' = db_definitions s @ [w]"
    "db_tasks s' = db_tasks s" "db_deps s' = db_deps s" "db_runs s' = db_runs s" "db_attempts s' = db_attempts s"
    by (auto simp: CreateWorkflow_def Let_def split: option.splits if_splits)
  ultimately show ?thesis using inv by (simp add: db_inv_def defs_ok_def)
qed

lemma CreateVersion_inv:
  assumes op: "CreateVersion e order1 order2 tenant user defid d s = Inr (w, s')"
    and "map_orders d order1 order2" and inv: "db_inv s"
  shows "db_inv s'"
proof -
  from op have "ValidateDAG order1 order2 d = None" by (auto simp: CreateVersion_def split: option.splits)
  with assms(2) have "distinct (map fst (dag_Tasks d)) \<and> dag_ok d"
    by (simp add: map_orders_def ValidateDAG_iff)
  moreover from op have "wd_dag_spec w = d" "db_definitions s' = db_definitions s @ [w]"
    "db_tasks s' = db_tasks s" "db_deps s' = db_deps s" "db_runs s' = db_runs s" "db_attempts s' = db_attempts s"
    by (auto simp: CreateVersion_def Let_def split: option.splits if_splits list.splits)
  ultimately show ?thesis using inv by (simp add: db_inv_def defs_ok_def)
qed

section \<open>Cancelling and retrying keep the invariant\<close>

lemma CancelRun_Inr:
  assumes "CancelRun e tenant user rid s = Inr s'"
  shows "db_tasks s' = update_where (pending_where rid) (cancel_set (e_now e)) (db_tasks s)"
    "db_runs s' = update_where (run_cancel_where rid tenant) (run_cancel_set (e_now e)) (db_runs s)"
    "db_deps s' = db_deps s" "db_attempts s' = db_attempts s" "db_definitions s' = db_definitions s"
    "\<exists>r \<in> set (db_runs s). run_cancel_where rid tenant r"
  using assms by (auto simp: CancelRun_def Let_def rows_affected_0_iff split: if_splits)

lemma CancelRun_inv:
  assumes op: "CancelRun e tenant user rid s = Inr s'" and inv: "db_inv s"
  shows "db_inv s'"
proof -
  note I = db_invD [OF inv] and C = CancelRun_Inr [OF op]
  note T = cancel_tables [OF I(1-7) C(1)]
  from T(1,2) have "keys_ok (db_tasks s') (db_runs s')" "refs_ok (db_tasks s') (db_deps s) (db_runs s')"
    unfolding C(2) run_cancel.keys_ok run_cancel.refs_ok .
  moreover from T(5) have "runs_done (db_runs s') (db_tasks s')" unfolding C(2) by (rule run_cancel.runs_done)
  ultimately show ?thesis using T I(8) by (intro db_invI) (simp_all only: C(3-5))
qed

lemma RetryRun_Inr:
  assumes "RetryRun e tenant user rid s = Inr s'"
  shows "db_tasks s' = update_where (retry_where rid) (retry_set (e_now e)) (db_tasks s)"
    "db_runs s' = update_where (\<lambda>r. wr_id r = rid) run_reopen_set (db_runs s)"
    "db_deps s' = db_deps s" "db_attempts s' = db_attempts s" "db_definitions s' = db_definitions s"
    "\<exists>t \<in> set (db_tasks s). retry_where rid t"
  using assms by (auto simp: RetryRun_def Let_def rows_affected_0_iff split: if_splits)

lemma RetryRun_inv:
  assumes op: "RetryRun e tenant user rid s = Inr s'" and inv: "db_inv s"
  shows "db_inv s'"
proof -
  note I = db_invD [OF inv] and C = RetryRun_Inr [OF op]
  have "keys_ok (db_tasks s') (db_runs s')" "refs_ok (db_tasks s') (db_deps s) (db_runs s')"
    unfolding C(1,2) retry.keys_ok retry.refs_ok run_reopen.keys_ok run_reopen.refs_ok by (fact I)+
  moreover have "deps_met (db_tasks s') (db_deps s)"
    unfolding C(1) by (rule retry.deps_met [OF I(3)]) (simp add: retry_where_def)
  moreover have "wakeups (db_tasks s') (db_deps s)"
    unfolding C(1) by (rule retry.wakeups [OF I(4)]) (simp add: retry_set_def)
  moreover have "runs_done (db_runs s') (db_tasks s')"
    unfolding C(1,2) by (intro retry.runs_done run_reopen.runs_done I)
  moreover have "leases_ok (db_tasks s')" "attempts_ok (db_tasks s') (db_attempts s)"
    unfolding C(1) by (intro retry.leases_ok retry.attempts_ok I)+
  ultimately show ?thesis using I(8) by (intro db_invI) (simp_all only: C(3-5))
qed

end
