(* ===== verification/Scheduler.thy ===== *)
theory Scheduler
  imports Run_Store
begin

text \<open>
  The scheduling half of \<^verbatim>\<open>internal/scheduler/scheduler.go\<close>: one \<^verbatim>\<open>tick\<close> fires the due cron
  schedules, promotes tasks whose retry delay is over, recovers expired leases and dispatches
  ready tasks. \<^verbatim>\<open>FOR UPDATE SKIP LOCKED\<close> leaves out the rows that concurrent transactions have
  locked; \<open>locked\<close> says which those are. A statement without ORDER BY meets the rows in scan order.

  Code outside the repository is a parameter: \<open>sched_lib\<close> holds \<^verbatim>\<open>time.LoadLocation\<close> (does the
  zone load), the cron parser (the \<^verbatim>\<open>Next\<close> function of a parsed expression), the text forms of
  uuids and instants, and what pgx answers to \<^verbatim>\<open>tx.Exec\<close> while the rows of a query on the same
  transaction are still open.
\<close>

record sched_lib =
  lib_location :: "string \<Rightarrow> bool"
  lib_cron :: "string \<Rightarrow> (string \<Rightarrow> time \<Rightarrow> time) option"
  lib_uuid_text :: "uuid \<Rightarrow> string"
  lib_time_text :: "time \<Rightarrow> string"
  lib_exec_while_open :: "err option"

section \<open>Promotion of retries\<close>

definition promote_where :: "time \<Rightarrow> task_row \<Rightarrow> bool" where
  "promote_where now t \<longleftrightarrow> tr_status t = RETRY_WAIT \<and> tr_available_at t \<le> now"

definition promote_set :: "time \<Rightarrow> task_row \<Rightarrow> task_row" where
  "promote_set now t = t\<lparr>tr_status := READY, tr_updated_at := now\<rparr>"

definition promote_retries :: "env \<Rightarrow> db \<Rightarrow> db" where
  "promote_retries e s =
     s\<lparr>db_tasks := update_where (promote_where (e_now e)) (promote_set (e_now e)) (db_tasks s)\<rparr>"

section \<open>Recovery of expired leases\<close>

definition expired_where :: "time \<Rightarrow> task_row \<Rightarrow> bool" where
  "expired_where now t \<longleftrightarrow> tr_status t \<in> {LEASED, RUNNING} \<and> lease_expired now t"

text \<open>The rows scanned into the struct \<^verbatim>\<open>expired\<close>: a task with the status of its run.\<close>

definition expired_rows :: "(uuid \<Rightarrow> bool) \<Rightarrow> time \<Rightarrow> db \<Rightarrow> (task_row \<times> workflow_status) list" where
  "expired_rows locked now s =
     take 100 (concat (map (\<lambda>t. case run_of s (tr_workflow_run_id t) of
                                 None \<Rightarrow> [] | Some r \<Rightarrow> [(t, wr_status r)])
                        (select (\<lambda>t. expired_where now t \<and> \<not> locked (tr_id t)) (db_tasks s))))"

definition recover_one :: "env \<Rightarrow> nat \<Rightarrow> task_row \<times> workflow_status \<Rightarrow> db \<Rightarrow> db" where
  "recover_one e i x s =
     (let (t, runStatus) = x;
          now = e_now e;
          run = tr_workflow_run_id t;
          attempt = tr_attempt_count t;
          (status, available, event) =
            (if runStatus = RunCancelled then (CANCELLED, e_gonow e, ''task.cancelled'')
             else if attempt < tr_maximum_attempts t
             then (RETRY_WAIT, e_gonow e + RetryDelay attempt, ''task.retry_wait'')
             else (DEAD, e_gonow e, ''task.dead''));
          ts = update_where (\<lambda>u. tr_id u = tr_id t) (settle_set status available now) (db_tasks s);
          as = update_where (attempt_is (tr_id t) attempt)
                 (\<lambda>a. a\<lparr>ta_ended_at := Some now, ta_exit_status := Some status,
                        ta_error_type := Some ''LeaseExpired'',
                        ta_error_message := Some ''worker heartbeat lease expired''\<rparr>) (db_attempts s);
          payload = JObj [(''workflow_run_id'', JUuid run), (''task_run_id'', JUuid (tr_id t)),
                          (''task_key'', JStr (tr_task_key t)), (''attempt'', JNum attempt),
                          (''available_at'', JTime available), (''error_type'', JStr ''LeaseExpired'')];
          evs = map (\<lambda>r. outbox_event e i ''task_run'' (tr_id t) event payload (wr_trace_parent r))
                  (select (\<lambda>r. wr_id r = run) (db_runs s));
          rs = (if status = DEAD then update_where (run_fail_where run) (run_fail_set now) (db_runs s)
                else db_runs s)
      in insert_outbox evs (s\<lparr>db_tasks := ts, db_attempts := as, db_runs := rs\<rparr>))"

fun recover_loop :: "env \<Rightarrow> nat \<Rightarrow> (task_row \<times> workflow_status) list \<Rightarrow> db \<Rightarrow> db" where
  "recover_loop e i [] s = s"
| "recover_loop e i (x # xs) s = recover_loop e (Suc i) xs (recover_one e i x s)"

definition recoverExpired :: "env \<Rightarrow> (uuid \<Rightarrow> bool) \<Rightarrow> db \<Rightarrow> db" where
  "recoverExpired e locked s = recover_loop e 0 (expired_rows locked (e_now e) s) s"

section \<open>Dispatch\<close>

definition ready_rows :: "(uuid \<Rightarrow> bool) \<Rightarrow> time \<Rightarrow> db \<Rightarrow> (task_row \<times> string) list" where
  "ready_rows locked now s =
     take 100 (concat (map (\<lambda>t. case run_of s (tr_workflow_run_id t) of
                                 None \<Rightarrow> [] | Some r \<Rightarrow> [(t, wr_trace_parent r)])
                 (sort_key (\<lambda>t. - tr_priority t) (sort_key tr_available_at
                    (select (\<lambda>t. tr_status t = READY \<and> tr_available_at t \<le> now \<and> \<not> locked (tr_id t))
                       (db_tasks s))))))"

definition dispatch_where :: "uuid \<Rightarrow> task_row \<Rightarrow> bool" where
  "dispatch_where tid t \<longleftrightarrow> tr_id t = tid \<and> tr_status t = READY"

definition dispatch_set :: "time \<Rightarrow> task_row \<Rightarrow> task_row" where
  "dispatch_set now t = t\<lparr>tr_status := DISPATCHING, tr_updated_at := now\<rparr>"

definition dispatch_one :: "env \<Rightarrow> nat \<Rightarrow> task_row \<times> string \<Rightarrow> db \<Rightarrow> db" where
  "dispatch_one e i x s =
     (let (t, trace) = x in
      if rows_affected (dispatch_where (tr_id t)) (db_tasks s) \<noteq> 1
      then s\<lparr>db_tasks := update_where (dispatch_where (tr_id t)) (dispatch_set (e_now e)) (db_tasks s)\<rparr>
      else
        let payload = JObj [(''task_run_id'', JUuid (tr_id t)), (''workflow_run_id'', JUuid (tr_workflow_run_id t)),
                            (''task_key'', JStr (tr_task_key t)), (''handler'', JStr (tr_handler t))]
        in insert_outbox [outbox_event e i ''task_run'' (tr_id t) ''task.dispatch'' payload trace]
             (s\<lparr>db_tasks := update_where (dispatch_where (tr_id t)) (dispatch_set (e_now e)) (db_tasks s)\<rparr>))"

fun dispatch_loop :: "env \<Rightarrow> nat \<Rightarrow> (task_row \<times> string) list \<Rightarrow> db \<Rightarrow> db" where
  "dispatch_loop e i [] s = s"
| "dispatch_loop e i (x # xs) s = dispatch_loop e (Suc i) xs (dispatch_one e i x s)"

definition dispatch_ready :: "env \<Rightarrow> (uuid \<Rightarrow> bool) \<Rightarrow> db \<Rightarrow> db" where
  "dispatch_ready e locked s = dispatch_loop e 0 (ready_rows locked (e_now e) s) s"

section \<open>Cron schedules\<close>

definition due_schedules :: "(uuid \<Rightarrow> bool) \<Rightarrow> time \<Rightarrow> db \<Rightarrow> schedule_row list" where
  "due_schedules locked now s =
     take 50 (sort_key sc_next_execution_at
       (select (\<lambda>c. sc_enabled c \<and> sc_next_execution_at c \<le> now \<and> \<not> locked (sc_id c)) (db_schedules s)))"

definition next_execution :: "sched_lib \<Rightarrow> env \<Rightarrow> schedule_row \<Rightarrow> time res" where
  "next_execution L e c =
     (if \<not> lib_location L (sc_timezone c) then Inl (ErrDB ''unknown time zone'')
      else (case lib_cron L (sc_cron_expression c) of
              None \<Rightarrow> Inl (ErrDB ''cron expression'')
            | Some nxt \<Rightarrow>
                let base = (if sc_misfire_policy c = ''skip'' \<and> e_gonow e - sc_next_execution_at c > 60 * second
                            then e_gonow e else sc_next_execution_at c)
                in Inr (nxt (sc_timezone c) base)))"

text \<open>
  The loop over the due schedules. Its UPDATE runs on the transaction whose query is still being
  read: the first \<^verbatim>\<open>tx.Exec\<close> returns what \<open>lib_exec_while_open\<close> says.
\<close>

fun advance_schedules :: "sched_lib \<Rightarrow> env \<Rightarrow> schedule_row list \<Rightarrow> schedule_row list \<Rightarrow> schedule_row list res" where
  "advance_schedules L e [] table = Inr table"
| "advance_schedules L e (c # cs) table =
     (case next_execution L e c of
        Inl er \<Rightarrow> Inl er
      | Inr nxt \<Rightarrow>
          (case lib_exec_while_open L of
             Some er \<Rightarrow> Inl er
           | None \<Rightarrow>
               advance_schedules L e cs
                 (update_where (\<lambda>d. sc_id d = sc_id c) (\<lambda>d. d\<lparr>sc_next_execution_at := nxt\<rparr>) table)))"

definition schedule_key :: "sched_lib \<Rightarrow> schedule_row \<Rightarrow> string" where
  "schedule_key L c = ''schedule:'' @ lib_uuid_text L (sc_id c) @ '':'' @ lib_time_text L (sc_next_execution_at c)"

fun start_due :: "sched_lib \<Rightarrow> (nat \<Rightarrow> env) \<Rightarrow> nat \<Rightarrow> schedule_row list \<Rightarrow> db \<Rightarrow> err option \<times> db" where
  "start_due L E i [] s = (None, s)"
| "start_due L E i (c # cs) s =
     (case CreateRun (E i) (sc_tenant_id c) None (sc_workflow_definition_id c) (schedule_key L c)
             (Some (JObj [])) None s of
        Inr (_, s') \<Rightarrow> start_due L E (Suc i) cs s'
      | Inl er \<Rightarrow> if er = ErrConflict then start_due L E (Suc i) cs s else (Some er, s))"

text \<open>\<open>E 0\<close> is the transaction that advances the schedules, \<open>E (i + 1)\<close> the \<open>i\<close>-th \<^verbatim>\<open>CreateRun\<close>.\<close>

definition fireSchedules :: "sched_lib \<Rightarrow> (nat \<Rightarrow> env) \<Rightarrow> (uuid \<Rightarrow> bool) \<Rightarrow> db \<Rightarrow> err option \<times> db" where
  "fireSchedules L E locked s =
     (let due = due_schedules locked (e_now (E 0)) s in
      case advance_schedules L (E 0) due (db_schedules s) of
        Inl er \<Rightarrow> (Some er, s)
      | Inr table \<Rightarrow> start_due L E 1 due (s\<lparr>db_schedules := table\<rparr>))"

section \<open>One scheduling cycle\<close>

definition tick ::
    "sched_lib \<Rightarrow> (nat \<Rightarrow> env) \<Rightarrow> env \<Rightarrow> env \<Rightarrow> env \<Rightarrow> (uuid \<Rightarrow> bool) \<Rightarrow> db \<Rightarrow> err option \<times> db" where
  "tick L E e1 e2 e3 locked s =
     (case fireSchedules L E locked s of
        (Some er, s') \<Rightarrow> (Some er, s')
      | (None, s') \<Rightarrow> (None, dispatch_ready e3 locked (recoverExpired e2 locked (promote_retries e1 s'))))"

text \<open>Fresh identifiers for a sequence of transactions: fresh in each, and never drawn twice.\<close>

definition fresh_seq :: "(nat \<Rightarrow> env) \<Rightarrow> db \<Rightarrow> bool" where
  "fresh_seq E s \<longleftrightarrow> (\<forall>i. fresh (E i) s) \<and>
     (\<forall>i j. i \<noteq> j \<longrightarrow> range (e_uuid (E i)) \<inter> range (e_uuid (E j)) = {})"

section \<open>The statements meet their contracts\<close>

lemmas sched_defs = promote_where_def promote_set_def dispatch_where_def dispatch_set_def

interpretation promote: neutral_stmt "promote_where now" "promote_set now" for now
  by unfold_locales (auto simp: sched_defs lease_row_def active_def)

interpretation dispatch: neutral_stmt "dispatch_where tid" "dispatch_set now" for tid now
  by unfold_locales (auto simp: sched_defs lease_row_def active_def)

section \<open>Every step of a cycle keeps the invariant\<close>

lemma promote_retries_inv:
  assumes "db_inv s"
  shows "db_inv (promote_retries e s)"
proof -
  note I = db_invD [OF assms]
  have "deps_met (db_tasks (promote_retries e s)) (db_deps s)"
    unfolding promote_retries_def by simp (rule promote.deps_met [OF I(3)], simp add: sched_defs)
  moreover have "wakeups (db_tasks (promote_retries e s)) (db_deps s)"
    unfolding promote_retries_def by simp (rule promote.wakeups [OF I(4)], simp add: sched_defs)
  ultimately show ?thesis
    using I promote.runs_done [OF I(5)] promote.leases_ok [OF I(6)] promote.attempts_ok [OF I(7)]
    by (intro db_invI) (simp_all add: promote_retries_def promote.keys_ok promote.refs_ok)
qed

lemma dispatch_one_tables:
  "db_tasks (dispatch_one e i (t, trace) s) = update_where (dispatch_where (tr_id t)) (dispatch_set (e_now e)) (db_tasks s)"
  "db_runs (dispatch_one e i x s) = db_runs s" "db_deps (dispatch_one e i x s) = db_deps s"
  "db_attempts (dispatch_one e i x s) = db_attempts s" "db_definitions (dispatch_one e i x s) = db_definitions s"
  by (simp_all add: dispatch_one_def Let_def split: prod.split)

lemma dispatch_one_inv:
  assumes "db_inv s"
  shows "db_inv (dispatch_one e i x s)"
proof (cases x)
  case (Pair t trace)
  note I = db_invD [OF assms] and T = dispatch_one_tables
  have "deps_met (db_tasks (dispatch_one e i x s)) (db_deps s)"
    unfolding Pair T(1) by (rule dispatch.deps_met [OF I(3)]) (simp add: sched_defs)
  moreover have "wakeups (db_tasks (dispatch_one e i x s)) (db_deps s)"
    unfolding Pair T(1) by (rule dispatch.wakeups [OF I(4)]) (simp add: sched_defs)
  ultimately show ?thesis
    using I dispatch.runs_done [OF I(5)] dispatch.leases_ok [OF I(6)] dispatch.attempts_ok [OF I(7)]
    by (intro db_invI) (simp_all add: Pair T dispatch.keys_ok dispatch.refs_ok)
qed

lemma dispatch_loop_inv: "db_inv s \<Longrightarrow> db_inv (dispatch_loop e i xs s)"
  by (induction e i xs s rule: dispatch_loop.induct) (simp_all add: dispatch_one_inv)

lemma dispatch_ready_inv: "db_inv s \<Longrightarrow> db_inv (dispatch_ready e locked s)"
  by (simp add: dispatch_ready_def dispatch_loop_inv)

text \<open>Recovering one lease settles that task as \<^verbatim>\<open>FailTask\<close> does, and touches no other task.\<close>

lemma recover_one_tables:
  assumes "st = settled True runStatus t"
  shows "db_tasks (recover_one e i (t, runStatus) s) =
      update_where (\<lambda>u. tr_id u = tr_id t) (settle_set st (settled_at (e_gonow e) st t) (e_now e)) (db_tasks s)"
    "db_runs (recover_one e i (t, runStatus) s) =
      (if st = DEAD then update_where (run_fail_where (tr_workflow_run_id t)) (run_fail_set (e_now e)) (db_runs s) else db_runs s)"
    "db_deps (recover_one e i (t, runStatus) s) = db_deps s"
    "db_definitions (recover_one e i (t, runStatus) s) = db_definitions s"
    "db_attempts (recover_one e i (t, runStatus) s) = update_where (attempt_is (tr_id t) (tr_attempt_count t))
        (\<lambda>a. a\<lparr>ta_ended_at := Some (e_now e), ta_exit_status := Some st, ta_error_type := Some ''LeaseExpired'',
               ta_error_message := Some ''worker heartbeat lease expired''\<rparr>) (db_attempts s)"
  unfolding assms by (simp_all add: recover_one_def Let_def settled_def settled_at_def)

lemma recover_one_inv:
  assumes inv: "db_inv s" and t: "t \<in> set (db_tasks s)" "active t"
  shows "db_inv (recover_one e i (t, runStatus) s)" (is "db_inv ?s'")
proof -
  define st where "st = settled True runStatus t"
  note I = db_invD [OF inv] and R = recover_one_tables [OF st_def]
  note S = settle_tables [OF I(1-7) t(1) refl t(2) settled_in _ _ _ _ R(1) [unfolded st_def] R(5), folded st_def]
  have S': "keys_ok (db_tasks ?s') (db_runs s)" "refs_ok (db_tasks ?s') (db_deps s) (db_runs s)"
    "deps_met (db_tasks ?s') (db_deps s)" "wakeups (db_tasks ?s') (db_deps s)"
    "runs_done (db_runs s) (db_tasks ?s')" "leases_ok (db_tasks ?s')" "attempts_ok (db_tasks ?s') (db_attempts ?s')"
    by (rule S; simp)+
  have "keys_ok (db_tasks ?s') (db_runs ?s')" "refs_ok (db_tasks ?s') (db_deps s) (db_runs ?s')"
    "runs_done (db_runs ?s') (db_tasks ?s')"
    using S'(1,2,5) run_fail.runs_done [OF S'(5)] unfolding R(2) by (simp_all add: run_fail.keys_ok run_fail.refs_ok)
  with S'(3,4,6,7) I(8) show ?thesis by (intro db_invI) (simp_all only: R(3,4))
qed

lemma recover_one_other:
  assumes "u \<in> set (db_tasks s)" "tr_id u \<noteq> tr_id t"
  shows "u \<in> set (db_tasks (recover_one e i (t, runStatus) s))"
  unfolding recover_one_tables(1) [OF refl] set_update_where using assms by force

lemma recover_loop_inv:
  assumes "db_inv s" "distinct (map (tr_id \<circ> fst) xs)"
    and "\<And>t st. (t, st) \<in> set xs \<Longrightarrow> t \<in> set (db_tasks s) \<and> active t"
  shows "db_inv (recover_loop e i xs s)"
  using assms
proof (induction e i xs s rule: recover_loop.induct)
  case (2 e i x xs s)
  obtain t st where x: "x = (t, st)" by (cases x)
  have "db_inv (recover_one e i x s)"
    unfolding x using 2(2,4) by (intro recover_one_inv) (auto simp: x)
  moreover have "u \<in> set (db_tasks (recover_one e i x s)) \<and> active u" if "(u, st') \<in> set xs" for u st'
  proof -
    from 2(3) that have "tr_id u \<noteq> tr_id t" by (force simp: x)
    with 2(4) [of u st'] that show ?thesis by (auto simp: x intro: recover_one_other)
  qed
  ultimately show ?case using 2(1,3) by simp
qed simp

text \<open>The rows of the recovery query are distinct active tasks whose lease has expired.\<close>

lemma set_expired_rows:
  "(t, st) \<in> set (expired_rows locked now s) \<Longrightarrow>
     t \<in> set (db_tasks s) \<and> expired_where now t \<and> \<not> locked (tr_id t) \<and>
     (\<exists>r. run_of s (tr_workflow_run_id t) = Some r \<and> wr_status r = st)"
  unfolding expired_rows_def by (drule in_set_takeD) (force simp: set_select split: option.splits)

lemma distinct_joined:
  assumes "distinct (map k rows)"
    and J: "\<And>t. map (k \<circ> fst) (J t) = [] \<or> map (k \<circ> fst) (J t) = [k t]"
  shows "distinct (map (k \<circ> fst) (concat (map J rows)))"
proof -
  let ?M = "\<lambda>rows. map (k \<circ> fst) (concat (map J rows))"
  have "distinct (?M rows) \<and> set (?M rows) \<subseteq> set (map k rows)"
    using assms(1)
  proof (induction rows)
    case (Cons t rows)
    from Cons.prems have "k t \<notin> set (map k rows)" "distinct (map k rows)" by auto
    with Cons.IH have IH: "distinct (?M rows)" "set (?M rows) \<subseteq> set (map k rows)" "k t \<notin> set (?M rows)" by blast+
    have M: "?M (t # rows) = map (k \<circ> fst) (J t) @ ?M rows" by (simp only: list.map concat.simps map_append)
    show ?case
      using J [of t]
    proof
      assume "map (k \<circ> fst) (J t) = []"
      then have "?M (t # rows) = ?M rows" unfolding M by (simp only: append_Nil)
      with IH show ?thesis by (metis list.set_intros(2) list.simps(9) subset_iff)
    next
      assume "map (k \<circ> fst) (J t) = [k t]"
      then have "?M (t # rows) = k t # ?M rows" unfolding M by (simp only: append_Cons append_Nil)
      with IH show ?thesis by (simp only: distinct.simps list.set list.map) blast
    qed
  qed simp
  then show ?thesis by blast
qed

lemma distinct_expired_rows:
  assumes "distinct (map tr_id (db_tasks s))"
  shows "distinct (map (tr_id \<circ> fst) (expired_rows locked now s))"
  unfolding expired_rows_def take_map [symmetric]
proof (intro distinct_take distinct_joined)
  show "distinct (map tr_id (select (\<lambda>t. expired_where now t \<and> \<not> locked (tr_id t)) (db_tasks s)))"
    unfolding select_def by (rule distinct_map_filter [OF assms])
qed (simp split: option.split)

lemma recoverExpired_inv:
  assumes "db_inv s"
  shows "db_inv (recoverExpired e locked s)"
  unfolding recoverExpired_def
  by (rule recover_loop_inv [OF assms distinct_expired_rows])
     (use db_invD(9) [OF assms] in \<open>auto dest!: set_expired_rows simp: expired_where_def active_def\<close>)

text \<open>Runs started by schedules.\<close>

lemma CreateRun_fresh:
  assumes op: "CreateRun e tenant user defid key input artifact s = Inr ((r, c), s')"
    and "defs_ok (db_definitions s)" and "fresh e' s" and "range (e_uuid e') \<inter> range (e_uuid e) = {}"
  shows "fresh e' s'"
proof (cases c)
  case False
  with op have "s' = s" by (auto dest: CreateRun_existing(1))
  with assms(3) show ?thesis by simp
next
  case True
  with op have "CreateRun e tenant user defid key input artifact s = Inr ((r, True), s')" by simp
  then show ?thesis
  proof (rule CreateRun_created)
    fix w :: definition_row and j uri ts ds
    assume w: "w \<in> set (db_definitions s)" and r: "r = new_run e tenant w key j uri"
      and ins: "insert_tasks e (wr_id r) j (task_ids e (wd_dag_spec w)) (dag_Tasks (wd_dag_spec w)) = Inr ts"
      and s': "db_tasks s' = db_tasks s @ ts" "db_runs s' = db_runs s @ [r]"
    from w assms(2) have dk: "distinct (map fst (dag_Tasks (wd_dag_spec w)))" by (auto simp: defs_ok_def)
    have new: "tr_id ` set ts \<subseteq> range (e_uuid e)"
      using new_tasks(3) [OF insert_tasks_Inr [OF ins]] by (fastforce simp: task_ids_Some_iff [OF dk])
    have sep: "e_uuid e' i \<notin> range (e_uuid e)" for i using assms(4) by blast
    have "e_uuid e' i \<notin> tr_id ` set ts" for i using new sep by blast
    moreover have "e_uuid e' i \<noteq> wr_id r" for i using sep [of i] by (metis new_run_row(1) r rangeI)
    ultimately show ?thesis using assms(3) unfolding fresh_def s' set_append image_Un by simp
  qed
qed

text \<open>
  A property of the database that creating a run keeps, and that does not depend on the schedules,
  is kept by firing schedules; if the other phases keep it as well, a whole cycle does.
\<close>

lemma start_due_keeps:
  assumes sep: "\<And>j k. j \<noteq> k \<Longrightarrow> range (e_uuid (E j)) \<inter> range (e_uuid (E k)) = {}"
    and create: "\<And>e tenant user defid key input artifact s r c s'.
      CreateRun e tenant user defid key input artifact s = Inr ((r, c), s') \<Longrightarrow> fresh e s \<Longrightarrow> db_inv s \<Longrightarrow> Q s \<Longrightarrow> Q s'"
  shows "db_inv s \<Longrightarrow> Q s \<Longrightarrow> (\<And>j. i \<le> j \<Longrightarrow> fresh (E j) s) \<Longrightarrow>
    db_inv (snd (start_due L E i cs s)) \<and> Q (snd (start_due L E i cs s))"
proof (induction cs arbitrary: i s)
  case (Cons c cs)
  note fresh = Cons.prems(3)
  show ?case
  proof (cases "CreateRun (E i) (sc_tenant_id c) None (sc_workflow_definition_id c) (schedule_key L c) (Some (JObj [])) None s")
    case (Inl er)
    with Cons.prems Cons.IH [OF Cons.prems(1,2), of "Suc i"] show ?thesis by simp
  next
    case (Inr x)
    obtain r b s' where x: "x = ((r, b), s')" by (cases x) auto
    note op = Inr [unfolded x]
    have "db_inv s'" by (rule CreateRun_inv [OF op fresh [OF order.refl] Cons.prems(1)])
    moreover have "Q s'" by (rule create [OF op fresh [OF order.refl] Cons.prems(1,2)])
    moreover have "fresh (E j) s'" if "Suc i \<le> j" for j
      by (rule CreateRun_fresh [OF op db_invD(8) [OF Cons.prems(1)] fresh sep]) (use that in simp_all)
    ultimately have "db_inv (snd (start_due L E (Suc i) cs s')) \<and> Q (snd (start_due L E (Suc i) cs s'))" by (rule Cons.IH)
    with op show ?thesis by simp
  qed
qed simp

lemma fresh_schedules [simp]: "fresh e (s\<lparr>db_schedules := table\<rparr>) \<longleftrightarrow> fresh e s"
  by (simp add: fresh_def)

lemma fireSchedules_keeps:
  assumes "db_inv s" "Q s" "fresh_seq E s"
    and create: "\<And>e tenant user defid key input artifact s r c s'.
      CreateRun e tenant user defid key input artifact s = Inr ((r, c), s') \<Longrightarrow> fresh e s \<Longrightarrow> db_inv s \<Longrightarrow> Q s \<Longrightarrow> Q s'"
    and table: "\<And>s table. Q s \<Longrightarrow> Q (s\<lparr>db_schedules := table\<rparr>)"
  shows "db_inv (snd (fireSchedules L E locked s)) \<and> Q (snd (fireSchedules L E locked s))"
proof (cases "advance_schedules L (E 0) (due_schedules locked (e_now (E 0)) s) (db_schedules s)")
  case (Inl er)
  with assms show ?thesis by (simp add: fireSchedules_def Let_def)
next
  case (Inr tab)
  let ?s = "s\<lparr>db_schedules := tab\<rparr>" and ?due = "due_schedules locked (e_now (E 0)) s"
  have inv: "db_inv ?s" using assms(1) by (simp add: db_inv_def)
  have sep: "range (e_uuid (E j)) \<inter> range (e_uuid (E k)) = {}" if "j \<noteq> k" for j k using assms(3) that by (simp add: fresh_seq_def)
  have fresh: "fresh (E j) ?s" if "1 \<le> j" for j using assms(3) by (simp add: fresh_seq_def)
  have "db_inv (snd (start_due L E 1 ?due ?s)) \<and> Q (snd (start_due L E 1 ?due ?s))"
    by (rule start_due_keeps [of E Q, OF _ _ inv table [OF assms(2)]]) (fact sep, fact create, fact fresh)
  with Inr show ?thesis by (simp add: fireSchedules_def Let_def)
qed

lemma tick_keeps:
  assumes "db_inv s" "Q s" "fresh_seq E s"
    and create: "\<And>e tenant user defid key input artifact s r c s'.
      CreateRun e tenant user defid key input artifact s = Inr ((r, c), s') \<Longrightarrow> fresh e s \<Longrightarrow> db_inv s \<Longrightarrow> Q s \<Longrightarrow> Q s'"
    and table: "\<And>s table. Q s \<Longrightarrow> Q (s\<lparr>db_schedules := table\<rparr>)"
    and promote: "\<And>s. db_inv s \<Longrightarrow> Q s \<Longrightarrow> Q (promote_retries e1 s)"
    and recover: "\<And>s. db_inv s \<Longrightarrow> Q s \<Longrightarrow> Q (recoverExpired e2 locked s)"
    and dispatch: "\<And>s. db_inv s \<Longrightarrow> Q s \<Longrightarrow> Q (dispatch_ready e3 locked s)"
  shows "db_inv (snd (tick L E e1 e2 e3 locked s)) \<and> Q (snd (tick L E e1 e2 e3 locked s))"
proof -
  obtain r s1 where f: "fireSchedules L E locked s = (r, s1)" by (cases "fireSchedules L E locked s")
  have "db_inv (snd (fireSchedules L E locked s)) \<and> Q (snd (fireSchedules L E locked s))"
    by (rule fireSchedules_keeps [of s Q, OF assms(1-3)]) (fact create, fact table)
  with f have 1: "db_inv s1" "Q s1" by simp_all
  let ?s2 = "promote_retries e1 s1" and ?s3 = "recoverExpired e2 locked (promote_retries e1 s1)"
  have 2: "db_inv ?s2" "Q ?s2" by (rule promote_retries_inv promote; rule 1)+
  have 3: "db_inv ?s3" "Q ?s3" by (rule recoverExpired_inv recover; rule 2)+
  have "db_inv (dispatch_ready e3 locked ?s3)" "Q (dispatch_ready e3 locked ?s3)" by (rule dispatch_ready_inv dispatch; rule 3)+
  with 1 f show ?thesis by (simp add: tick_def split: option.split)
qed

lemma tick_inv:
  assumes "db_inv s" "fresh_seq E s"
  shows "db_inv (snd (tick L E e1 e2 e3 locked s))"
  using tick_keeps [of s "\<lambda>_. True", OF assms(1) _ assms(2)] by simp

end
