(* ===== verification/Lifecycle.thy ===== *)
theory Lifecycle
  imports Scheduler
begin

text \<open>
  The life of one task, as an abstract machine: what a client may rely on about a task without
  knowing tables, transactions and statements. \<open>task_step\<close> has one rule per kind of event;
  \<open>evolves A ts ts'\<close> says that between two states of the task table every task is still there and
  moved by a sequence of events of the kinds \<open>A\<close>. Every operation of the store and every scheduler
  cycle refines the machine, with the kinds of events that the operation may cause.
\<close>

section \<open>The abstract machine\<close>

record task_abs =
  a_status :: task_status
  a_attempts :: int
  a_limit :: int
  a_owner :: "string option"
  a_result :: "json option \<times> string option"

datatype task_event =
    EvLease | EvStart | EvComplete | EvUnblock | EvSettle | EvCancel | EvPromote | EvDispatch
  | EvRetry | EvReplay | EvRebuild

inductive task_step :: "task_abs \<Rightarrow> task_event \<Rightarrow> task_abs \<Rightarrow> bool" where
  lease: "task_step a EvLease (a\<lparr>a_status := LEASED, a_attempts := a_attempts a + 1, a_owner := Some w\<rparr>)"
    if "a_status a = DISPATCHING"
| start: "task_step a EvStart (a\<lparr>a_status := RUNNING\<rparr>)" if "a_status a = LEASED"
| complete: "task_step a EvComplete (a\<lparr>a_status := SUCCEEDED, a_result := x\<rparr>)" if "a_status a = RUNNING"
| unblock: "task_step a EvUnblock (a\<lparr>a_status := READY\<rparr>)" if "a_status a = BLOCKED"
| settle: "task_step a EvSettle (a\<lparr>a_status := st, a_owner := None\<rparr>)"
    if "a_status a \<in> {LEASED, RUNNING}" and "st \<in> {DEAD, CANCELLED} \<or> st = RETRY_WAIT \<and> a_attempts a < a_limit a"
| cancel: "task_step a EvCancel (a\<lparr>a_status := CANCELLED\<rparr>)"
    if "a_status a \<in> {BLOCKED, READY, DISPATCHING, RETRY_WAIT}"
| promote: "task_step a EvPromote (a\<lparr>a_status := READY\<rparr>)" if "a_status a = RETRY_WAIT"
| dispatch: "task_step a EvDispatch (a\<lparr>a_status := DISPATCHING\<rparr>)" if "a_status a = READY"
| retry: "task_step a EvRetry (a\<lparr>a_status := READY, a_limit := max (a_limit a) (a_attempts a + 1), a_owner := None\<rparr>)"
    if "a_status a = DEAD"
| replay: "task_step a EvReplay (a\<lparr>a_status := READY, a_limit := max (a_limit a) (a_attempts a + 1)\<rparr>)"
    if "a_status a = DEAD"
| rebuild: "task_step a EvRebuild (a\<lparr>a_status := st\<rparr>)"
    if "a_status a = CANCELLED" and "st \<in> {BLOCKED, RETRY_WAIT, READY}"

inductive_cases task_stepE: "task_step a ev b"

definition task_moves :: "task_event set \<Rightarrow> task_abs \<Rightarrow> task_abs \<Rightarrow> bool" where
  "task_moves A = (\<lambda>a b. \<exists>ev \<in> A. task_step a ev b)\<^sup>*\<^sup>*"

definition abs_task :: "task_row \<Rightarrow> task_abs" where
  "abs_task t = \<lparr>a_status = tr_status t, a_attempts = tr_attempt_count t, a_limit = tr_maximum_attempts t,
     a_owner = tr_lease_owner t, a_result = (tr_output t, tr_output_artifact_uri t)\<rparr>"

definition evolves :: "task_event set \<Rightarrow> task_row list \<Rightarrow> task_row list \<Rightarrow> bool" where
  "evolves A ts ts' \<longleftrightarrow> (\<forall>t \<in> set ts. \<exists>t' \<in> set ts'. tr_id t' = tr_id t \<and>
     tr_workflow_run_id t' = tr_workflow_run_id t \<and> tr_task_key t' = tr_task_key t \<and> task_moves A (abs_task t) (abs_task t'))"

section \<open>The machine\<close>

lemma task_moves_refl [simp]: "task_moves A a a"
  by (simp add: task_moves_def)

lemma task_moves_trans: "task_moves A a b \<Longrightarrow> task_moves A b c \<Longrightarrow> task_moves A a c"
  unfolding task_moves_def by (rule rtranclp_trans)

lemma task_moves_step: "task_step a ev b \<Longrightarrow> ev \<in> A \<Longrightarrow> task_moves A a b"
  unfolding task_moves_def by (rule r_into_rtranclp) blast

lemma task_moves_mono: "task_moves A a b \<Longrightarrow> A \<subseteq> B \<Longrightarrow> task_moves B a b"
  unfolding task_moves_def by (erule rtranclp_mono [THEN predicate2D, rotated]) auto

lemma task_moves_inv:
  assumes "task_moves A a b" "I a" and "\<And>x ev y. task_step x ev y \<Longrightarrow> ev \<in> A \<Longrightarrow> I x \<Longrightarrow> I y"
  shows "I b"
  using assms(1,2) unfolding task_moves_def by (induction rule: rtranclp_induct) (use assms(3) in blast)+

lemma task_moves_none: "task_moves {} a b \<longleftrightarrow> b = a"
  by (auto simp: task_moves_def elim: rtranclp.cases)

lemma abs_task_fields [simp]:
  "a_status (abs_task t) = tr_status t" "a_attempts (abs_task t) = tr_attempt_count t"
  "a_limit (abs_task t) = tr_maximum_attempts t" "a_owner (abs_task t) = tr_lease_owner t"
  "a_result (abs_task t) = (tr_output t, tr_output_artifact_uri t)"
  by (simp_all add: abs_task_def)

text \<open>Nothing leaves SUCCEEDED; only a replay leaves CANCELLED; only a retry or a replay leaves DEAD.\<close>

lemma task_step_from:
  assumes "task_step a ev b"
  shows "a_status a \<noteq> SUCCEEDED" "a_status a = CANCELLED \<Longrightarrow> ev = EvRebuild" "a_status a = DEAD \<Longrightarrow> ev \<in> {EvRetry, EvReplay}"
  using assms by (auto elim!: task_stepE)

lemma task_moves_succeeded:
  assumes "task_moves A a b" "a_status a = SUCCEEDED"
  shows "b = a"
proof -
  have "b = a \<and> a_status b = SUCCEEDED"
    using assms by (intro task_moves_inv [where I = "\<lambda>b. b = a \<and> a_status b = SUCCEEDED", OF assms(1)]) (auto dest: task_step_from(1))
  then show ?thesis ..
qed

lemma task_moves_cancelled:
  assumes "task_moves A a b" "a_status a = CANCELLED" "EvRebuild \<notin> A"
  shows "a_status b = CANCELLED"
  by (rule task_moves_inv [where I = "\<lambda>b. a_status b = CANCELLED", OF assms(1,2)]) (use assms(3) task_step_from(2) in blast)

text \<open>Events other than retry, replay and rebuild follow the transition table of \<^verbatim>\<open>state.go\<close>.\<close>

lemma task_step_CanTransition:
  assumes "task_step a ev b" "ev \<notin> {EvRetry, EvReplay, EvRebuild}"
  shows "CanTransition (a_status a) (a_status b)"
  using assms by (auto elim!: task_stepE simp: CanTransition_def)

lemma task_moves_CanTransition:
  assumes "task_moves A a b" "A \<inter> {EvRetry, EvReplay, EvRebuild} = {}"
  shows "CanTransition\<^sup>*\<^sup>* (a_status a) (a_status b)"
  by (rule task_moves_inv [where I = "\<lambda>b. CanTransition\<^sup>*\<^sup>* (a_status a) (a_status b)", OF assms(1)])
     (use assms(2) in \<open>auto intro: rtranclp.rtrancl_into_rtrancl dest: task_step_CanTransition\<close>)

text \<open>The attempt budget: a waiting task has an attempt left, and the limit is never exceeded.\<close>

definition budget :: "task_abs \<Rightarrow> bool" where
  "budget a \<longleftrightarrow> 0 \<le> a_attempts a \<and> a_attempts a \<le> a_limit a \<and>
     (a_status a \<in> {BLOCKED, READY, DISPATCHING, RETRY_WAIT} \<longrightarrow> a_attempts a < a_limit a)"

lemma task_step_budget: "task_step a ev b \<Longrightarrow> ev \<noteq> EvRebuild \<Longrightarrow> budget a \<Longrightarrow> budget b"
  by (erule task_stepE) (auto simp: budget_def)

lemma task_moves_budget: "task_moves A a b \<Longrightarrow> EvRebuild \<notin> A \<Longrightarrow> budget a \<Longrightarrow> budget b"
  by (erule task_moves_inv) (auto dest: task_step_budget)

text \<open>An attempt is only ever added.\<close>

lemma task_moves_attempts:
  assumes "task_moves A a b"
  shows "a_attempts a \<le> a_attempts b \<and> a_limit a \<le> a_limit b"
  by (rule task_moves_inv [where I = "\<lambda>b. a_attempts a \<le> a_attempts b \<and> a_limit a \<le> a_limit b", OF assms])
     (auto elim!: task_stepE)

section \<open>Tables\<close>

lemma evolves_refl [simp]: "evolves A ts ts"
  by (auto simp: evolves_def)

lemma evolves_append [simp]: "evolves A ts (ts @ new)"
  by (auto simp: evolves_def)

lemma evolves_trans:
  assumes "evolves A ts ts'" "evolves A ts' ts''"
  shows "evolves A ts ts''"
  unfolding evolves_def
proof
  fix t assume "t \<in> set ts"
  with assms(1) obtain t' where 1: "t' \<in> set ts'" "tr_id t' = tr_id t" "tr_workflow_run_id t' = tr_workflow_run_id t"
    "tr_task_key t' = tr_task_key t" "task_moves A (abs_task t) (abs_task t')" unfolding evolves_def by blast
  with assms(2) obtain t'' where 2: "t'' \<in> set ts''" "tr_id t'' = tr_id t'" "tr_workflow_run_id t'' = tr_workflow_run_id t'"
    "tr_task_key t'' = tr_task_key t'" "task_moves A (abs_task t') (abs_task t'')" unfolding evolves_def by blast
  from 1 2 task_moves_trans [OF 1(5) 2(5)]
  show "\<exists>u \<in> set ts''. tr_id u = tr_id t \<and> tr_workflow_run_id u = tr_workflow_run_id t \<and> tr_task_key u = tr_task_key t \<and>
      task_moves A (abs_task t) (abs_task u)"
    by (intro bexI [OF _ 2(1)]) simp
qed

lemma evolves_mono: "evolves A ts ts' \<Longrightarrow> A \<subseteq> B \<Longrightarrow> evolves B ts ts'"
  unfolding evolves_def using task_moves_mono by meson

lemma evolves_both: "evolves A ts ts' \<Longrightarrow> evolves B ts' ts'' \<Longrightarrow> A \<subseteq> C \<Longrightarrow> B \<subseteq> C \<Longrightarrow> evolves C ts ts''"
  using evolves_mono evolves_trans by metis

lemma evolvesD:
  assumes "evolves A ts ts'" "t \<in> set ts"
  obtains t' where "t' \<in> set ts'" "tr_id t' = tr_id t" "tr_workflow_run_id t' = tr_workflow_run_id t" "tr_task_key t' = tr_task_key t"
    "task_moves A (abs_task t) (abs_task t')"
  using assms unfolding evolves_def by blast

text \<open>The contract of a statement that is one event of the machine for the rows it finds.\<close>

locale event_stmt =
  fixes ev :: task_event and P :: "task_row \<Rightarrow> bool" and f :: "task_row \<Rightarrow> task_row"
  assumes keeps: "tr_id (f t) = tr_id t" "tr_workflow_run_id (f t) = tr_workflow_run_id t" "tr_task_key (f t) = tr_task_key t"
    and event: "P t \<Longrightarrow> task_step (abs_task t) ev (abs_task (f t))"
begin

lemma evolves:
  assumes "\<And>t. t \<in> set ts \<Longrightarrow> Q t \<Longrightarrow> P t" and "ev \<in> A"
  shows "evolves A ts (update_where Q f ts)"
  unfolding evolves_def bex_update_where
proof
  fix t assume t: "t \<in> set ts"
  have "task_moves A (abs_task t) (abs_task (if Q t then f t else t))"
    using assms(1) [OF t] task_moves_step [OF event assms(2)] by simp
  then show "\<exists>r \<in> set ts. tr_id (if Q r then f r else r) = tr_id t \<and> tr_workflow_run_id (if Q r then f r else r) = tr_workflow_run_id t \<and>
      tr_task_key (if Q r then f r else r) = tr_task_key t \<and> task_moves A (abs_task t) (abs_task (if Q r then f r else r))"
    using t by (intro bexI [of _ t]) (auto simp: keeps)
qed

end

section \<open>Statements\<close>

lemmas event_defs = abs_task_def lease_where_def lease_set_def held_def start_set_def complete_set_def
  unblock_where_def unblock_set_def task_is_def settle_set_def pending_where_def cancel_set_def
  replay_set_def rebuild_where_def rebuild_set_def retry_where_def retry_set_def sched_defs

interpretation ev_lease: event_stmt EvLease "lease_where tid" "lease_set worker expires now" for tid worker expires now
  by unfold_locales (auto simp: event_defs intro!: task_step.lease [THEN back_subst [of "task_step _ _"]])

interpretation ev_start: event_stmt EvStart "held [LEASED] tid worker now" "start_set now" for tid worker now
  by unfold_locales (auto simp: event_defs intro!: task_step.start [THEN back_subst [of "task_step _ _"]])

interpretation ev_complete: event_stmt EvComplete "held [RUNNING] tid worker now" "complete_set out artifact now"
  for tid worker now out artifact
  by unfold_locales (auto simp: event_defs intro!: task_step.complete [THEN back_subst [of "task_step _ _"]])

interpretation ev_unblock: event_stmt EvUnblock "unblock_where ts ds run completed" "unblock_set now" for ts ds run completed now
  by unfold_locales (auto simp: event_defs intro!: task_step.unblock [THEN back_subst [of "task_step _ _"]])

interpretation ev_settle: event_stmt EvSettle "\<lambda>t. active t \<and> (st \<in> {DEAD, CANCELLED} \<or> st = RETRY_WAIT \<and> tr_attempt_count t < tr_maximum_attempts t)"
    "settle_set st available now" for st available now
  by unfold_locales
     (auto simp: event_defs active_def intro!: task_step.settle [where st = st, THEN back_subst [of "task_step _ _"]])

interpretation ev_cancel: event_stmt EvCancel "pending_where run" "cancel_set now" for run now
  by unfold_locales (auto simp: event_defs intro!: task_step.cancel [THEN back_subst [of "task_step _ _"]])

interpretation ev_promote: event_stmt EvPromote "promote_where now" "promote_set now" for now
  by unfold_locales (auto simp: event_defs intro!: task_step.promote [THEN back_subst [of "task_step _ _"]])

interpretation ev_dispatch: event_stmt EvDispatch "dispatch_where tid" "dispatch_set now" for tid now
  by unfold_locales (auto simp: event_defs intro!: task_step.dispatch [THEN back_subst [of "task_step _ _"]])

interpretation ev_retry: event_stmt EvRetry "retry_where run" "retry_set now" for run now
  by unfold_locales (auto simp: event_defs intro!: task_step.retry [THEN back_subst [of "task_step _ _"]])

interpretation ev_replay: event_stmt EvReplay "task_is [DEAD] tid" "replay_set now" for tid now
  by unfold_locales (auto simp: event_defs intro!: task_step.replay [THEN back_subst [of "task_step _ _"]])

interpretation ev_rebuild: event_stmt EvRebuild "rebuild_where run" "rebuild_set ts ds now" for run ts ds now
proof unfold_locales
  fix t assume "rebuild_where run t"
  then have "task_step (abs_task t) EvRebuild ((abs_task t)\<lparr>a_status := tr_status (rebuild_set ts ds now t)\<rparr>)"
    by (intro task_step.rebuild) (simp_all add: event_defs)
  then show "task_step (abs_task t) EvRebuild (abs_task (rebuild_set ts ds now t))" by (simp add: event_defs)
qed (simp_all add: event_defs)

section \<open>Operations\<close>

lemma LeaseTask_evolves:
  assumes "LeaseTask e tid worker lease s = Inr (x, s')"
  shows "evolves {EvLease} (db_tasks s) (db_tasks s')"
  using assms by (rule LeaseTask_Inr) (simp add: ev_lease.evolves)

lemma StartTask_evolves:
  assumes "StartTask e tid worker s = Inr (x, s')"
  shows "evolves {EvStart} (db_tasks s) (db_tasks s')"
  using assms by (rule StartTask_Inr) (simp add: ev_start.evolves)

lemma HeartbeatTask_evolves:
  assumes "HeartbeatTask e tid worker lease s = Inr (x, s')"
  shows "evolves {} (db_tasks s) (db_tasks s')"
  using assms
proof (rule HeartbeatTask_Inr)
  assume s': "s' = s\<lparr>db_tasks := update_where (held [LEASED, RUNNING] tid worker (e_now e))
                   (heartbeat_set (e_gonow e + lease) (e_now e)) (db_tasks s)\<rparr>"
  show ?thesis unfolding s' evolves_def by (auto simp: bex_update_where heartbeat_set_def abs_task_def intro!: bexI)
qed

lemma CompleteTask_evolves:
  assumes "CompleteTask e tid worker out artifact logs s = Inr (x, s')"
  shows "evolves {EvComplete, EvUnblock} (db_tasks s) (db_tasks s')"
  using assms
proof (rule CompleteTask_Inr)
  fix t :: task_row and j ts1 U
  assume "ts1 = update_where (held [RUNNING] tid worker (e_now e)) (complete_set j artifact (e_now e)) (db_tasks s)"
    and "U = unblock_where ts1 (db_deps s) (tr_workflow_run_id t) tid" "db_tasks s' = update_where U (unblock_set (e_now e)) ts1"
  then show ?thesis
    by - (rule evolves_trans [of _ "db_tasks s" ts1], simp_all add: ev_complete.evolves ev_unblock.evolves)
qed

lemma settle_evolves:
  assumes "active t" and keys: "distinct (map tr_id ts)" "t \<in> set ts" and P: "\<And>u. u \<in> set ts \<Longrightarrow> P u \<Longrightarrow> tr_id u = tr_id t"
  shows "evolves {EvSettle} ts (update_where P (settle_set (settled b run t) available now) ts)"
proof (rule ev_settle.evolves)
  fix u assume u: "u \<in> set ts" "P u"
  have "u = t" by (rule distinct_map_eq [OF keys(1) u(1) keys(2) P [OF u]])
  then show "active u \<and> (settled b run t \<in> {DEAD, CANCELLED} \<or> settled b run t = RETRY_WAIT \<and> tr_attempt_count u < tr_maximum_attempts u)"
    using assms(1) by (simp add: settled_def)
qed simp

lemma FailTask_evolves:
  assumes op: "FailTask e tid worker f s = Inr (x, s')" and inv: "db_inv s"
  shows "evolves {EvSettle, EvCancel} (db_tasks s) (db_tasks s')"
  using op
proof (rule FailTask_Inr)
  fix t :: task_row and r st ts1
  assume q: "query_row (held [LEASED, RUNNING] tid worker (e_now e)) (db_tasks s) = Some t"
    and st: "st = settled (Retryable f) (wr_status r) t"
    and ts1: "ts1 = update_where (settle_where tid worker) (settle_set st (settled_at (e_gonow e) st t) (e_now e)) (db_tasks s)"
    and ts': "db_tasks s' = (if st = DEAD then update_where (pending_where (tr_workflow_run_id t)) (cancel_set (e_now e)) ts1 else ts1)"
  from query_row_SomeD [OF q] have t: "t \<in> set (db_tasks s)" "tr_id t = tid" "active t" by (auto simp: held_def active_def)
  have "evolves {EvSettle} (db_tasks s) ts1"
    unfolding ts1 st by (rule settle_evolves [OF t(3) db_invD(9) [OF inv] t(1)]) (simp add: settle_where_def t)
  moreover have "evolves {EvCancel} ts1 (db_tasks s')" unfolding ts' by (simp add: ev_cancel.evolves)
  ultimately show ?thesis by (rule evolves_both) simp_all
qed

lemma CancelRun_evolves:
  "CancelRun e tenant user rid s = Inr s' \<Longrightarrow> evolves {EvCancel} (db_tasks s) (db_tasks s')"
  unfolding CancelRun_Inr(1) by (simp add: ev_cancel.evolves)

lemma RetryRun_evolves:
  "RetryRun e tenant user rid s = Inr s' \<Longrightarrow> evolves {EvRetry} (db_tasks s) (db_tasks s')"
  unfolding RetryRun_Inr(1) by (simp add: ev_retry.evolves)

lemma ReplayDead_evolves:
  assumes op: "ReplayDead e tenant user tid s = Inr s'" and inv: "db_inv s"
  shows "evolves {EvReplay, EvRebuild} (db_tasks s) (db_tasks s')"
  using op
proof (rule ReplayDead_Inr)
  fix t :: task_row and ts1
  assume t: "t \<in> set (db_tasks s)" "tr_id t = tid" "tr_status t = DEAD"
    and ts1: "ts1 = update_where (replay_where tid) (replay_set (e_now e)) (db_tasks s)"
    and ts': "db_tasks s' = update_where (rebuild_where (tr_workflow_run_id t)) (rebuild_set ts1 (db_deps s) (e_now e)) ts1"
  have "evolves {EvReplay} (db_tasks s) ts1" unfolding ts1
  proof (rule ev_replay.evolves)
    fix u assume u: "u \<in> set (db_tasks s)" "replay_where tid u"
    then have "u = t" using distinct_map_eq [OF db_invD(9) [OF inv] u(1) t(1)] t(2) by (simp add: replay_where_def)
    then show "task_is [DEAD] tid u" using t by (simp add: task_is_def)
  qed simp
  moreover have "evolves {EvRebuild} ts1 (db_tasks s')" unfolding ts' by (simp add: ev_rebuild.evolves)
  ultimately show ?thesis by (rule evolves_both) simp_all
qed

lemma CreateRun_evolves:
  assumes op: "CreateRun e tenant user defid key input artifact s = Inr ((r, c), s')"
  shows "evolves {} (db_tasks s) (db_tasks s')"
proof (cases c)
  case True
  with op have "CreateRun e tenant user defid key input artifact s = Inr ((r, True), s')" by simp
  then show ?thesis by (rule CreateRun_created) simp
next
  case False
  with op have "s' = s" by (auto dest: CreateRun_existing(1))
  then show ?thesis by simp
qed

section \<open>A scheduling cycle\<close>

lemma recover_loop_evolves:
  assumes "distinct (map tr_id (db_tasks s))" "distinct (map (tr_id \<circ> fst) xs)"
    and "\<And>t st. (t, st) \<in> set xs \<Longrightarrow> t \<in> set (db_tasks s) \<and> active t"
  shows "evolves {EvSettle} (db_tasks s) (db_tasks (recover_loop e i xs s))"
  using assms
proof (induction e i xs s rule: recover_loop.induct)
  case (2 e i x xs s)
  obtain t st where x: "x = (t, st)" by (cases x)
  let ?s1 = "recover_one e i (t, st) s"
  have t: "t \<in> set (db_tasks s)" "active t" using 2(4) by (auto simp: x)
  have 1: "evolves {EvSettle} (db_tasks s) (db_tasks ?s1)"
    unfolding recover_one_tables(1) [OF refl] by (rule settle_evolves [OF t(2) 2(2) t(1)])
  have "distinct (map tr_id (db_tasks ?s1))"
    unfolding recover_one_tables(1) [OF refl] using 2(2) by (simp add: map_update_where settle_set_def)
  moreover have "u \<in> set (db_tasks ?s1) \<and> active u" if "(u, st') \<in> set xs" for u st'
  proof -
    from 2(3) that have "tr_id u \<noteq> tr_id t" by (force simp: x)
    with 2(4) [of u st'] that show ?thesis by (auto simp: x intro: recover_one_other)
  qed
  ultimately have "evolves {EvSettle} (db_tasks ?s1) (db_tasks (recover_loop e (Suc i) xs ?s1))"
    using 2(1) [folded x] 2(3) by (simp add: x)
  with 1 show ?case unfolding x recover_loop.simps by (rule evolves_trans)
qed simp

lemma recoverExpired_evolves:
  assumes "db_inv s"
  shows "evolves {EvSettle} (db_tasks s) (db_tasks (recoverExpired e locked s))"
  unfolding recoverExpired_def
  by (rule recover_loop_evolves [OF db_invD(9) [OF assms] distinct_expired_rows [OF db_invD(9) [OF assms]]])
     (auto dest!: set_expired_rows simp: expired_where_def active_def)

lemma dispatch_ready_evolves: "evolves {EvDispatch} (db_tasks s) (db_tasks (dispatch_ready e locked s))"
proof -
  have "evolves {EvDispatch} (db_tasks s) (db_tasks (dispatch_loop e i xs s))" for e i xs s
  proof (induction e i xs s rule: dispatch_loop.induct)
    case (2 e i x xs s)
    have "evolves {EvDispatch} (db_tasks s) (db_tasks (dispatch_one e i x s))"
      by (cases x) (simp add: dispatch_one_tables(1) ev_dispatch.evolves)
    then show ?case unfolding dispatch_loop.simps by (rule evolves_trans) (rule 2)
  qed simp
  then show ?thesis by (simp add: dispatch_ready_def)
qed

lemma tick_evolves:
  assumes "db_inv s" "fresh_seq E s"
  shows "evolves {EvPromote, EvSettle, EvDispatch} (db_tasks s) (db_tasks (snd (tick L E e1 e2 e3 locked s)))" (is "evolves ?A _ _")
proof (rule tick_keeps [of s "\<lambda>s'. evolves ?A (db_tasks s) (db_tasks s')", THEN conjunct2, OF assms(1) evolves_refl assms(2)])
  fix e tenant user defid key input artifact u r c u'
  assume op: "CreateRun e tenant user defid key input artifact u = Inr ((r, c), u')" and "evolves ?A (db_tasks s) (db_tasks u)"
  from this(2) show "evolves ?A (db_tasks s) (db_tasks u')"
    by (rule evolves_trans) (rule evolves_mono [OF CreateRun_evolves [OF op] empty_subsetI])
next
  fix u assume "evolves ?A (db_tasks s) (db_tasks u)" and inv: "db_inv u"
  note T = evolves_trans [OF this(1)]
  show "evolves ?A (db_tasks s) (db_tasks (promote_retries e1 u))"
    by (rule T) (simp add: promote_retries_def ev_promote.evolves)
  show "evolves ?A (db_tasks s) (db_tasks (recoverExpired e2 locked u))"
    by (rule T [OF evolves_mono [OF recoverExpired_evolves [OF inv]]]) simp
  show "evolves ?A (db_tasks s) (db_tasks (dispatch_ready e3 locked u))"
    by (rule T [OF evolves_mono [OF dispatch_ready_evolves]]) simp
qed simp

end
