(* ===== verification/Progress.thy ===== *)
theory Progress
  imports Lifecycle
begin

text \<open>
  Why a run cannot deadlock: the dependency rows stay acyclic, and a RUNNING run always has a task
  left to do. Together with the invariant that a BLOCKED task waits for a task that has not
  succeeded, some task of every RUNNING run is neither BLOCKED nor SUCCEEDED.
\<close>

definition deps_wf :: "dependency_row list \<Rightarrow> bool" where
  "deps_wf ds \<longleftrightarrow> wf ((dep_pairs ds)\<inverse>)"

definition open_runs :: "run_row list \<Rightarrow> task_row list \<Rightarrow> bool" where
  "open_runs rs ts \<longleftrightarrow> (\<forall>r \<in> set rs. wr_status r = RunRunning \<longrightarrow>
     (\<exists>t \<in> set ts. tr_workflow_run_id t = wr_id r \<and> tr_status t \<noteq> SUCCEEDED))"

definition progress_inv :: "db \<Rightarrow> bool" where
  "progress_inv s \<longleftrightarrow> deps_wf (db_deps s) \<and> open_runs (db_runs s) (db_tasks s)"

text \<open>No run starts or resumes between two states of the run table.\<close>

definition still_running :: "run_row list \<Rightarrow> run_row list \<Rightarrow> bool" where
  "still_running rs rs' \<longleftrightarrow> (\<forall>r' \<in> set rs'. wr_status r' = RunRunning \<longrightarrow>
     (\<exists>r \<in> set rs. wr_id r = wr_id r' \<and> wr_status r = RunRunning))"

section \<open>No deadlock\<close>

lemma not_deadlocked:
  assumes inv: "db_inv s" "progress_inv s" and r: "r \<in> set (db_runs s)" "wr_status r = RunRunning"
  shows "\<exists>t \<in> set (db_tasks s). tr_workflow_run_id t = wr_id r \<and> tr_status t \<notin> {BLOCKED, SUCCEEDED}"
proof -
  note I = db_invD [OF inv(1)]
  let ?Q = "tr_id ` {t \<in> set (db_tasks s). tr_workflow_run_id t = wr_id r \<and> tr_status t \<noteq> SUCCEEDED}"
  from inv(2) r obtain t0 where "t0 \<in> set (db_tasks s)" "tr_workflow_run_id t0 = wr_id r" "tr_status t0 \<noteq> SUCCEEDED"
    unfolding progress_inv_def open_runs_def by blast
  then have "tr_id t0 \<in> ?Q" by simp
  with inv(2) [unfolded progress_inv_def deps_wf_def, THEN conjunct1]
  obtain z where "z \<in> ?Q" and min: "\<And>y. (y, z) \<in> (dep_pairs (db_deps s))\<inverse> \<Longrightarrow> y \<notin> ?Q" by (rule wfE_min) (rule that)
  then obtain t where t: "t \<in> set (db_tasks s)" "tr_id t = z" "tr_workflow_run_id t = wr_id r" "tr_status t \<noteq> SUCCEEDED" by auto
  have "tr_status t \<noteq> BLOCKED"
  proof
    assume "tr_status t = BLOCKED"
    with I(4) t(1) have "unmet (db_tasks s) (db_deps s) t" by (simp add: wakeups_def)
    then obtain d u where d: "d \<in> set (db_deps s)" "td_task_run_id d = tr_id t"
      and u: "u \<in> set (db_tasks s)" "tr_id u = td_depends_on_task_run_id d" "tr_status u \<noteq> SUCCEEDED"
      unfolding unmet_iff by blast
    have "tr_workflow_run_id t = tr_workflow_run_id u"
      by (rule refs_same_run [OF I(2) I(9) d(1) t(1) u(1) d(2) u(2) [symmetric]])
    with t(3) u(1,3) have "tr_id u \<in> ?Q" by (intro imageI) simp
    moreover have "(tr_id u, z) \<in> (dep_pairs (db_deps s))\<inverse>" using d t(2) u(2) by (force simp: dep_pairs_def)
    ultimately show False using min by blast
  qed
  with t show ?thesis by blast
qed

section \<open>Run tables\<close>

lemma still_running_refl [simp]: "still_running rs rs"
  by (auto simp: still_running_def)

lemma still_running_trans: "still_running rs rs' \<Longrightarrow> still_running rs' rs'' \<Longrightarrow> still_running rs rs''"
  unfolding still_running_def by metis

lemma still_running_update:
  assumes "\<And>r. wr_id (f r) = wr_id r" "\<And>r. P r \<Longrightarrow> wr_status (f r) = RunRunning \<Longrightarrow> wr_status r = RunRunning"
  shows "still_running rs (update_where P f rs)"
  unfolding still_running_def ball_update_where
proof (intro ballI impI)
  fix r assume "r \<in> set rs" "wr_status (if P r then f r else r) = RunRunning"
  then show "\<exists>r' \<in> set rs. wr_id r' = wr_id (if P r then f r else r) \<and> wr_status r' = RunRunning"
    using assms by (intro bexI [of _ r]) (auto split: if_splits)
qed

lemma still_running_stop [simp]:
  "still_running rs (update_where (run_fail_where rid) (run_fail_set now) rs)"
  "still_running rs (update_where (run_cancel_where rid tenant) (run_cancel_set now) rs)"
  by (rule still_running_update; simp add: run_fail_set_def run_cancel_set_def)+

lemma task_moves_unfinished:
  assumes "task_moves A a b" "a_status a \<noteq> SUCCEEDED" "EvComplete \<notin> A"
  shows "a_status b \<noteq> SUCCEEDED"
  by (rule task_moves_inv [where I = "\<lambda>b. a_status b \<noteq> SUCCEEDED", OF assms(1,2)])
     (use assms(3) in \<open>auto elim!: task_stepE\<close>)

lemma open_runs_evolves:
  assumes "open_runs rs ts" "still_running rs rs'" "evolves A ts ts'" "EvComplete \<notin> A"
  shows "open_runs rs' ts'"
  unfolding open_runs_def
proof (intro ballI impI)
  fix r' assume "r' \<in> set rs'" "wr_status r' = RunRunning"
  with assms(2) obtain r where r: "r \<in> set rs" "wr_id r = wr_id r'" "wr_status r = RunRunning" unfolding still_running_def by blast
  with assms(1) obtain t where t: "t \<in> set ts" "tr_workflow_run_id t = wr_id r'" "tr_status t \<noteq> SUCCEEDED"
    unfolding open_runs_def by metis
  from assms(3) t(1) show "\<exists>t \<in> set ts'. tr_workflow_run_id t = wr_id r' \<and> tr_status t \<noteq> SUCCEEDED"
  proof (rule evolvesD)
    fix t' assume t': "t' \<in> set ts'" "tr_workflow_run_id t' = tr_workflow_run_id t" "task_moves A (abs_task t) (abs_task t')"
    have "tr_status t' \<noteq> SUCCEEDED" using task_moves_unfinished [OF t'(3)] t(3) assms(4) by simp
    with t' t(2) show ?thesis by auto
  qed
qed

text \<open>An operation that leaves the dependency rows alone, completes no task and resumes no run.\<close>

lemma progress_keep:
  assumes "progress_inv s" "db_deps s' = db_deps s" "still_running (db_runs s) (db_runs s')"
    "evolves A (db_tasks s) (db_tasks s')" "EvComplete \<notin> A"
  shows "progress_inv s'"
  using assms open_runs_evolves by (auto simp: progress_inv_def)

text \<open>A reopened run has the task for which it was reopened.\<close>

lemma progress_reopen:
  assumes "progress_inv s" "db_deps s' = db_deps s" "evolves A (db_tasks s) (db_tasks s')" "EvComplete \<notin> A"
    and "db_runs s' = update_where P run_reopen_set (db_runs s)" "\<And>r. P r \<Longrightarrow> wr_id r = rid"
    and t: "t \<in> set (db_tasks s)" "tr_workflow_run_id t = rid" "tr_status t = DEAD"
  shows "progress_inv s'"
proof -
  from assms(3) t(1) obtain t' where t': "t' \<in> set (db_tasks s')" "tr_workflow_run_id t' = rid" "tr_status t' \<noteq> SUCCEEDED"
  proof (rule evolvesD)
    fix t' assume t': "t' \<in> set (db_tasks s')" "tr_workflow_run_id t' = tr_workflow_run_id t" "task_moves A (abs_task t) (abs_task t')"
    have "tr_status t' \<noteq> SUCCEEDED" using task_moves_unfinished [OF t'(3)] t(3) assms(4) by simp
    with that t' t(2) show thesis by simp
  qed
  have keep: "open_runs (db_runs s) (db_tasks s')"
    by (rule open_runs_evolves [OF _ still_running_refl assms(3,4)]) (use assms(1) in \<open>simp add: progress_inv_def\<close>)
  have "open_runs (db_runs s') (db_tasks s')"
    unfolding open_runs_def assms(5) ball_update_where
  proof (intro ballI impI)
    fix r assume r: "r \<in> set (db_runs s)" "wr_status (if P r then run_reopen_set r else r) = RunRunning"
    show "\<exists>t \<in> set (db_tasks s'). tr_workflow_run_id t = wr_id (if P r then run_reopen_set r else r) \<and> tr_status t \<noteq> SUCCEEDED"
    proof (cases "P r")
      case True
      with assms(6) t' show ?thesis by (auto simp: run_reopen_set_def)
    next
      case False
      with keep r show ?thesis by (simp add: open_runs_def)
    qed
  qed
  with assms(1,2) show ?thesis by (simp add: progress_inv_def)
qed

section \<open>Operations\<close>

lemma LeaseTask_progress: "LeaseTask e tid worker lease s = Inr (x, s') \<Longrightarrow> progress_inv s \<Longrightarrow> progress_inv s'"
  by (frule LeaseTask_evolves, erule LeaseTask_Inr) (auto elim!: progress_keep)

lemma StartTask_progress: "StartTask e tid worker s = Inr (x, s') \<Longrightarrow> progress_inv s \<Longrightarrow> progress_inv s'"
  by (frule StartTask_evolves, erule StartTask_Inr) (auto elim!: progress_keep)

lemma HeartbeatTask_progress: "HeartbeatTask e tid worker lease s = Inr (x, s') \<Longrightarrow> progress_inv s \<Longrightarrow> progress_inv s'"
  by (frule HeartbeatTask_evolves, erule HeartbeatTask_Inr) (auto elim!: progress_keep)

lemma FailTask_progress:
  assumes "FailTask e tid worker f s = Inr (x, s')" "db_inv s" "progress_inv s"
  shows "progress_inv s'"
  using assms(1)
proof (rule FailTask_Inr)
  fix t :: task_row and st
  assume "db_runs s' = (if st = DEAD then update_where (run_fail_where (tr_workflow_run_id t)) (run_fail_set (e_now e)) (db_runs s) else db_runs s)"
    and "db_deps s' = db_deps s"
  then show ?thesis
    by (intro progress_keep [OF assms(3) _ _ FailTask_evolves [OF assms(1,2)]]) simp_all
qed

lemma CancelRun_progress:
  assumes "CancelRun e tenant user rid s = Inr s'" "progress_inv s"
  shows "progress_inv s'"
  by (rule progress_keep [OF assms(2) CancelRun_Inr(3) [OF assms(1)] _ CancelRun_evolves [OF assms(1)]])
     (simp_all add: CancelRun_Inr(2) [OF assms(1)])

lemma RetryRun_progress:
  assumes "RetryRun e tenant user rid s = Inr s'" "progress_inv s"
  shows "progress_inv s'"
proof -
  note R = RetryRun_Inr [OF assms(1)]
  from R(6) obtain t where "t \<in> set (db_tasks s)" "retry_where rid t" by blast
  then have t: "t \<in> set (db_tasks s)" "tr_workflow_run_id t = rid" "tr_status t = DEAD" by (simp_all add: retry_where_def)
  show ?thesis by (rule progress_reopen [OF assms(2) R(3) RetryRun_evolves [OF assms(1)] _ R(2) _ t]) simp_all
qed

lemma ReplayDead_progress:
  assumes "ReplayDead e tenant user tid s = Inr s'" "db_inv s" "progress_inv s"
  shows "progress_inv s'"
  using assms(1)
proof (rule ReplayDead_Inr)
  fix t
  assume t: "t \<in> set (db_tasks s)" "tr_status t = DEAD" and d: "db_deps s' = db_deps s"
    and rs: "db_runs s' = update_where (run_reopen_where (tr_workflow_run_id t)) run_reopen_set (db_runs s)"
  show ?thesis
    by (rule progress_reopen [OF assms(3) d ReplayDead_evolves [OF assms(1,2)] _ rs _ t(1) refl t(2)])
       (simp_all add: run_reopen_where_def)
qed

lemma CompleteTask_progress:
  assumes op: "CompleteTask e tid worker out artifact logs s = Inr (x, s')" and inv: "db_inv s" "progress_inv s"
  shows "progress_inv s'"
  using op
proof (rule CompleteTask_Inr)
  fix t :: task_row and j ts1 U
  assume q: "query_row (held [RUNNING] tid worker (e_now e)) (db_tasks s) = Some t"
    and ts1: "ts1 = update_where (held [RUNNING] tid worker (e_now e)) (complete_set j artifact (e_now e)) (db_tasks s)"
    and ts': "db_tasks s' = update_where U (unblock_set (e_now e)) ts1" "U = unblock_where ts1 (db_deps s) (tr_workflow_run_id t) tid"
    and rs: "db_runs s' = (if \<forall>u \<in> set (db_tasks s'). tr_workflow_run_id u = tr_workflow_run_id t \<longrightarrow> tr_status u = SUCCEEDED
                       then update_where (run_succeed_where (tr_workflow_run_id t)) (run_succeed_set (e_now e)) (db_runs s)
                       else db_runs s)"
    and d: "db_deps s' = db_deps s"
  from query_row_SomeD [OF q] have t: "t \<in> set (db_tasks s)" "tr_id t = tid" by (auto simp: held_def)
  have other: "\<exists>u \<in> set (db_tasks s'). tr_workflow_run_id u = rid \<and> tr_status u \<noteq> SUCCEEDED"
    if u: "u \<in> set (db_tasks s)" "tr_workflow_run_id u = rid" "tr_status u \<noteq> SUCCEEDED" and rid: "rid \<noteq> tr_workflow_run_id t" for u rid
  proof -
    have "u \<noteq> t" using u rid by auto
    then have "\<not> held [RUNNING] tid worker (e_now e) u"
      using distinct_map_eq [OF db_invD(9) [OF inv(1)] u(1) t(1)] t(2) by (auto simp: held_def)
    then have u1: "u \<in> set ts1" using u(1) unfolding ts1 set_update_where by force
    from ev_unblock.evolves [of ts1 U ts1 "db_deps s" "tr_workflow_run_id t" tid "{EvUnblock}" "e_now e"]
    have "evolves {EvUnblock} ts1 (db_tasks s')" unfolding ts' by simp
    then show ?thesis using u1
    proof (rule evolvesD)
      fix u' assume u': "u' \<in> set (db_tasks s')" "tr_workflow_run_id u' = tr_workflow_run_id u" "task_moves {EvUnblock} (abs_task u) (abs_task u')"
      have "tr_status u' \<noteq> SUCCEEDED" using task_moves_unfinished [OF u'(3)] u(3) by simp
      with u' u(2) show ?thesis by auto
    qed
  qed
  have "open_runs (db_runs s') (db_tasks s')"
    unfolding open_runs_def
  proof (intro ballI impI)
    fix r' assume r': "r' \<in> set (db_runs s')" "wr_status r' = RunRunning"
    show "\<exists>u \<in> set (db_tasks s'). tr_workflow_run_id u = wr_id r' \<and> tr_status u \<noteq> SUCCEEDED"
    proof (cases "wr_id r' = tr_workflow_run_id t")
      case True
      have "\<not> (\<forall>u \<in> set (db_tasks s'). tr_workflow_run_id u = tr_workflow_run_id t \<longrightarrow> tr_status u = SUCCEEDED)"
      proof
        assume all: "\<forall>u \<in> set (db_tasks s'). tr_workflow_run_id u = tr_workflow_run_id t \<longrightarrow> tr_status u = SUCCEEDED"
        from r' show False unfolding rs if_P [OF all] set_update_where
          using True by (auto simp: run_succeed_where_def run_succeed_set_def split: if_splits)
      qed
      with True show ?thesis by auto
    next
      case False
      have "\<exists>r \<in> set (db_runs s). wr_id r = wr_id r' \<and> wr_status r = RunRunning"
        using r' False unfolding rs by (auto simp: set_update_where run_succeed_where_def run_succeed_set_def split: if_splits)
      with inv(2) obtain u where "u \<in> set (db_tasks s)" "tr_workflow_run_id u = wr_id r'" "tr_status u \<noteq> SUCCEEDED"
        unfolding progress_inv_def open_runs_def by metis
      with other False show ?thesis by metis
    qed
  qed
  with inv(2) d show ?thesis by (simp add: progress_inv_def)
qed

section \<open>New runs\<close>

text \<open>The dependency rows of a new run are the edges of its DAG, renamed by the fresh task ids.\<close>

lemma created_deps_wf:
  assumes dk: "distinct (map fst (dag_Tasks d))" and ok: "dag_ok d" and inj: "inj (e_uuid e)"
    and insd: "insert_all_deps run (task_ids e d) (dag_Tasks d) = Inr ds"
  shows "deps_wf ds"
  unfolding deps_wf_def
proof (rule wf_subset)
  let ?key = "\<lambda>u. THE k. task_ids e d k = Some u"
  show "wf (inv_image ((dep_rel d)\<inverse>) ?key)" by (intro wf_inv_image wf_converse_dep_rel(2) ok)
  have key: "?key u = k" if "task_ids e d k = Some u" for k u
    using that task_ids_inj [OF dk inj _ that] by (intro the_equality)
  show "(dep_pairs ds)\<inverse> \<subseteq> inv_image ((dep_rel d)\<inverse>) ?key"
    unfolding insert_all_deps_Inr(1) [OF insd]
  proof (rule subrelI)
    fix b a
    assume "(b, a) \<in> {(a, b). \<exists>k spec dep. (k, spec) \<in> set (dag_Tasks d) \<and> task_ids e d k = Some a \<and> dep \<in> set (DependsOn spec) \<and> task_ids e d dep = Some b}\<inverse>"
    then obtain k spec dep where k: "(k, spec) \<in> set (dag_Tasks d)" "task_ids e d k = Some a"
      and dep: "dep \<in> set (DependsOn spec)" "task_ids e d dep = Some b" by blast
    have "(k, dep) \<in> dep_rel d" using k(1) dep(1) dk by (auto simp: dep_rel_def deps_of_def)
    then show "(b, a) \<in> inv_image ((dep_rel d)\<inverse>) ?key" unfolding in_inv_image key [OF k(2)] key [OF dep(2)] by simp
  qed
qed

lemma CreateRun_progress:
  assumes op: "CreateRun e tenant user defid key input artifact s = Inr ((r, c), s')"
    and fresh: "fresh e s" and inv: "db_inv s" "progress_inv s"
  shows "progress_inv s'"
proof (cases c)
  case False
  with op have "s' = s" by (auto dest: CreateRun_existing(1))
  with inv show ?thesis by simp
next
  case True
  with op have "CreateRun e tenant user defid key input artifact s = Inr ((r, True), s')" by simp
  then show ?thesis
  proof (rule CreateRun_created)
    fix w :: definition_row and j uri ts ds
    let ?d = "wd_dag_spec w"
    assume w: "w \<in> set (db_definitions s)" and r: "r = new_run e tenant w key j uri"
      and ins: "insert_tasks e (wr_id r) j (task_ids e ?d) (dag_Tasks ?d) = Inr ts"
      and insd: "insert_all_deps (wr_id r) (task_ids e ?d) (dag_Tasks ?d) = Inr ds"
      and s': "db_tasks s' = db_tasks s @ ts" "db_deps s' = db_deps s @ ds" "db_runs s' = db_runs s @ [r]"
    note I = db_invD [OF inv(1)]
    from I(8) w have ok: "distinct (map fst (dag_Tasks ?d))" "dag_ok ?d" by (auto simp: defs_ok_def)
    from fresh have inj: "inj (e_uuid e)" by (simp add: fresh_def)
    note C = created_rows [OF ok inj ins insd] and N = new_tasks [OF insert_tasks_Inr [OF ins]]
    have pairs: "dep_pairs (db_deps s') = dep_pairs (db_deps s) \<union> dep_pairs ds" by (simp add: s' dep_pairs_def image_Un)
    have old: "dep_pairs (db_deps s) \<subseteq> tr_id ` set (db_tasks s) \<times> tr_id ` set (db_tasks s)"
      using refs_okD(1,2) [OF I(2)] unfolding dep_pairs_def by blast
    have "tr_id ` set ts \<inter> tr_id ` set (db_tasks s) = {}" using freshD [OF fresh C(3)] by blast
    then have "Domain ((dep_pairs (db_deps s))\<inverse>) \<inter> Range ((dep_pairs ds)\<inverse>) = {}" using old C(2) by blast
    with inv(2) have "deps_wf (db_deps s')"
      unfolding deps_wf_def pairs converse_Un progress_inv_def
      by (intro wf_Un created_deps_wf [OF ok inj insd, unfolded deps_wf_def]) simp_all
    moreover have "open_runs (db_runs s') (db_tasks s')"
    proof -
      from dag_ok_has_root [OF ok(2,1)] obtain k spec where "(k, spec) \<in> set (dag_Tasks ?d)" "DependsOn spec = []" by auto
      with N(4) obtain t where t: "t \<in> set ts" "t = new_task e (wr_id r) j (tr_id t) k spec" "DependsOn spec = []" by blast
      then have "tr_workflow_run_id t = wr_id r" "tr_status t = READY" by (metis new_task_row(3)) (subst t(2), simp add: t(3))
      with t(1) inv(2) show ?thesis by (auto simp: open_runs_def progress_inv_def s')
    qed
    ultimately show ?thesis by (simp add: progress_inv_def)
  qed
qed

lemma cycle_tables:
  "db_deps (recover_loop e i xs s) = db_deps s" "still_running (db_runs s) (db_runs (recover_loop e i xs s))"
  "map tr_id (db_tasks (recover_loop e i xs s)) = map tr_id (db_tasks s)"
  "db_deps (dispatch_loop e i ys s) = db_deps s" "db_runs (dispatch_loop e i ys s) = db_runs s"
  "map tr_id (db_tasks (dispatch_loop e i ys s)) = map tr_id (db_tasks s)"
proof -
  show "db_deps (dispatch_loop e i ys s) = db_deps s" "db_runs (dispatch_loop e i ys s) = db_runs s"
    "map tr_id (db_tasks (dispatch_loop e i ys s)) = map tr_id (db_tasks s)"
  proof (induction ys arbitrary: i s)
    case (Cons y ys)
    obtain t trace where y: "y = (t, trace)" by (cases y)
    { case 1 show ?case by (simp add: Cons dispatch_one_tables) }
    { case 2 show ?case by (simp add: Cons dispatch_one_tables) }
    { case 3 show ?case by (simp add: Cons y dispatch_one_tables(1) dispatch.ids) }
  qed simp_all
  show "db_deps (recover_loop e i xs s) = db_deps s" "still_running (db_runs s) (db_runs (recover_loop e i xs s))"
    "map tr_id (db_tasks (recover_loop e i xs s)) = map tr_id (db_tasks s)"
  proof (induction xs arbitrary: i s)
    case (Cons x xs)
    obtain t st where x: "x = (t, st)" by (cases x)
    { case 1 show ?case unfolding x recover_loop.simps Cons by (rule recover_one_tables(3) [OF refl]) }
    { case 2
      have "still_running (db_runs s) (db_runs (recover_one e i (t, st) s))" unfolding recover_one_tables(2) [OF refl] by simp
      then show ?case unfolding x recover_loop.simps by (rule still_running_trans) (rule Cons) }
    { case 3 show ?case
        unfolding x recover_loop.simps Cons recover_one_tables(1) [OF refl] by (simp add: map_update_where settle_set_def) }
  qed simp_all
qed

lemma tick_progress:
  assumes "db_inv s" "progress_inv s" "fresh_seq E s"
  shows "progress_inv (snd (tick L E e1 e2 e3 locked s))"
proof (rule tick_keeps [of s progress_inv, THEN conjunct2, OF assms])
  fix u assume P: "progress_inv u" and inv: "db_inv u"
  show "progress_inv (promote_retries e1 u)"
    by (rule progress_keep [OF P, where A = "{EvPromote}"]) (simp_all add: promote_retries_def ev_promote.evolves)
  show "progress_inv (recoverExpired e2 locked u)"
    by (rule progress_keep [OF P _ _ recoverExpired_evolves [OF inv]]) (simp_all add: recoverExpired_def cycle_tables)
  show "progress_inv (dispatch_ready e3 locked u)"
    by (rule progress_keep [OF P _ _ dispatch_ready_evolves]) (simp_all add: dispatch_ready_def cycle_tables)
qed (rule CreateRun_progress, assumption+, simp add: progress_inv_def)

section \<open>The attempt budget\<close>

definition budgets :: "task_row list \<Rightarrow> bool" where
  "budgets ts \<longleftrightarrow> (\<forall>t \<in> set ts. budget (abs_task t))"

lemma budgets_evolve:
  assumes "budgets ts" "evolves A ts ts'" "EvRebuild \<notin> A" "map tr_id ts' = map tr_id ts" "distinct (map tr_id ts)"
  shows "budgets ts'"
  unfolding budgets_def
proof
  fix t' assume t': "t' \<in> set ts'"
  then have "tr_id t' \<in> set (map tr_id ts)" unfolding assms(4) [symmetric] by simp
  then obtain t where t: "t \<in> set ts" "tr_id t = tr_id t'" by auto
  from assms(2) t(1) show "budget (abs_task t')"
  proof (rule evolvesD)
    fix u assume u: "u \<in> set ts'" "tr_id u = tr_id t" "task_moves A (abs_task t) (abs_task u)"
    have "u = t'" using distinct_map_eq [OF assms(5) [folded assms(4)] u(1) t'] u(2) t(2) by simp
    with task_moves_budget [OF u(3) assms(3)] assms(1) t(1) show ?thesis by (simp add: budgets_def)
  qed
qed

lemma CreateRun_budgets:
  assumes op: "CreateRun e tenant user defid key input artifact s = Inr ((r, c), s')"
    and "defs_ok (db_definitions s)" and old: "budgets (db_tasks s)"
  shows "budgets (db_tasks s')"
proof (cases c)
  case False
  with op have "s' = s" by (auto dest: CreateRun_existing(1))
  with old show ?thesis by simp
next
  case True
  with op have "CreateRun e tenant user defid key input artifact s = Inr ((r, True), s')" by simp
  then show ?thesis
  proof (rule CreateRun_created)
    fix w :: definition_row and j ts
    let ?d = "wd_dag_spec w"
    assume w: "w \<in> set (db_definitions s)" and s': "db_tasks s' = db_tasks s @ ts"
      and ins: "insert_tasks e (wr_id r) j (task_ids e ?d) (dag_Tasks ?d) = Inr ts"
    have "budget (abs_task t)" if "t \<in> set ts" for t
    proof -
      from new_tasks(3) [OF insert_tasks_Inr [OF ins] that] obtain spec where
        spec: "(tr_task_key t, spec) \<in> set (dag_Tasks ?d)" "t = new_task e (wr_id r) j (tr_id t) (tr_task_key t) spec"
        by (elim exE conjE) (rule that)
      from assms(2) w spec(1) have "0 \<le> MaximumAttempts spec" by (auto simp: defs_ok_def dag_ok_def task_ok_def)
      then show ?thesis by (subst spec(2)) (auto simp: budget_def new_task_def WithDefaults_def Let_def)
    qed
    with old show ?thesis by (auto simp: s' budgets_def)
  qed
qed

lemma tick_budgets:
  assumes "db_inv s" "budgets (db_tasks s)" "fresh_seq E s"
  shows "budgets (db_tasks (snd (tick L E e1 e2 e3 locked s)))"
proof (rule tick_keeps [of s "\<lambda>s. budgets (db_tasks s)", THEN conjunct2, OF assms])
  fix u assume B: "budgets (db_tasks u)" and inv: "db_inv u"
  note keys = db_invD(9) [OF inv]
  show "budgets (db_tasks (promote_retries e1 u))"
    by (rule budgets_evolve [OF B, where A = "{EvPromote}", OF _ _ _ keys])
       (simp_all add: promote_retries_def ev_promote.evolves promote.ids)
  show "budgets (db_tasks (recoverExpired e2 locked u))"
    by (rule budgets_evolve [OF B recoverExpired_evolves [OF inv] _ _ keys]) (simp_all add: recoverExpired_def cycle_tables)
  show "budgets (db_tasks (dispatch_ready e3 locked u))"
    by (rule budgets_evolve [OF B dispatch_ready_evolves _ _ keys]) (simp_all add: dispatch_ready_def cycle_tables)
qed (auto intro: CreateRun_budgets db_invD(8))

end
