(* ===== verification/Outbox.thy ===== *)
theory Outbox
  imports Task_Table "HOL-Library.Product_Lexorder"
begin

text \<open>
  The publishing half of \<^verbatim>\<open>internal/scheduler/scheduler.go\<close> (\<^verbatim>\<open>publishBatch\<close>,
  \<^verbatim>\<open>publishClaimedBatch\<close>) with \<^verbatim>\<open>Publish\<close> of \<^verbatim>\<open>internal/live/broker.go\<close>. A batch claims the head
  event of each ordering key in one statement, hands every claimed event to the publisher, and
  acknowledges it under its claim token. The publisher (Kafka) and Redis are outside the
  repository: \<open>pub i\<close> is the answer of the publisher to the \<open>i\<close>-th call of a batch, \<open>None\<close> for
  success. Failures of Redis are only logged by the source and change nothing. Error messages
  leave out the durations and the event id that the source formats into them.

  \<open>publishing\<close> is the state of a publishing pass: the outbox table, the events the publisher
  accepted, in order, and the notifications put on live channels.
\<close>

record outbox_cfg =
  OutboxBatchSize :: int
  OutboxClaimTTL :: time
  OutboxPublishTimeout :: time

record message =
  m_key :: uuid
  m_payload :: json
  m_event_type :: string
  m_event_id :: uuid

record publishing =
  p_outbox :: "outbox_row list"
  p_sent :: "outbox_row list"
  p_live :: "(uuid \<times> uuid) list"

definition message_of :: "outbox_row \<Rightarrow> message" where
  "message_of ev =
     \<lparr>m_key = ob_ordering_key ev, m_payload = ob_payload ev, m_event_type = ob_event_type ev, m_event_id = ob_id ev\<rparr>"

section \<open>Configuration\<close>

definition batchSize :: "outbox_cfg \<Rightarrow> int" where
  "batchSize cfg = (if OutboxBatchSize cfg \<le> 0 then 100 else OutboxBatchSize cfg)"

definition claimTTL :: "outbox_cfg \<Rightarrow> time" where
  "claimTTL cfg = (if OutboxClaimTTL cfg \<le> 0 then 30 * second else OutboxClaimTTL cfg)"

definition publishTimeout :: "outbox_cfg \<Rightarrow> time" where
  "publishTimeout cfg = (if OutboxPublishTimeout cfg \<le> 0 then 10 * second else OutboxPublishTimeout cfg)"

section \<open>Claiming\<close>

text \<open>The row comparison \<^verbatim>\<open>(earlier.created_at,earlier.id)<(o.created_at,o.id)\<close>.\<close>

definition stamp :: "outbox_row \<Rightarrow> time \<times> uuid" where
  "stamp ev = (ob_created_at ev, ob_id ev)"

definition unpublished :: "outbox_row \<Rightarrow> bool" where
  "unpublished ev \<longleftrightarrow> ob_published_at ev = None"

definition claim_free :: "time \<Rightarrow> outbox_row \<Rightarrow> bool" where
  "claim_free now ev \<longleftrightarrow>
     ob_claim_token ev = None \<or> (case ob_claim_expires_at ev of None \<Rightarrow> False | Some x \<Rightarrow> x \<le> now)"

definition claimable :: "time \<Rightarrow> outbox_row list \<Rightarrow> outbox_row \<Rightarrow> bool" where
  "claimable now tbl ev \<longleftrightarrow>
     unpublished ev \<and> claim_free now ev \<and>
     \<not> exists_row (\<lambda>q. ob_ordering_key q = ob_ordering_key ev \<and> unpublished q \<and> stamp q < stamp ev) tbl"

definition candidates :: "nat \<Rightarrow> (uuid \<Rightarrow> bool) \<Rightarrow> time \<Rightarrow> outbox_row list \<Rightarrow> outbox_row list" where
  "candidates n locked now tbl =
     take n (sort_key stamp (select (\<lambda>ev. claimable now tbl ev \<and> \<not> locked (ob_id ev)) tbl))"

definition claim_where :: "outbox_row list \<Rightarrow> outbox_row \<Rightarrow> bool" where
  "claim_where cs ev \<longleftrightarrow> ob_id ev \<in> ob_id ` set cs"

definition claim_set :: "uuid \<Rightarrow> time \<Rightarrow> outbox_row \<Rightarrow> outbox_row" where
  "claim_set token expires ev =
     ev\<lparr>ob_claim_token := Some token, ob_claim_expires_at := Some expires,
        ob_publish_attempts := ob_publish_attempts ev + 1\<rparr>"

section \<open>Acknowledging and releasing\<close>

definition ack_where :: "uuid \<Rightarrow> uuid \<Rightarrow> outbox_row \<Rightarrow> bool" where
  "ack_where eid token ev \<longleftrightarrow> ob_id ev = eid \<and> unpublished ev \<and> ob_claim_token ev = Some token"

definition ack_set :: "time \<Rightarrow> outbox_row \<Rightarrow> outbox_row" where
  "ack_set now ev = ev\<lparr>ob_published_at := Some now, ob_claim_token := None, ob_claim_expires_at := None\<rparr>"

definition release_where :: "uuid \<Rightarrow> outbox_row \<Rightarrow> bool" where
  "release_where token ev \<longleftrightarrow> ob_claim_token ev = Some token \<and> unpublished ev"

definition release_set :: "outbox_row \<Rightarrow> outbox_row" where
  "release_set ev = ev\<lparr>ob_claim_token := None, ob_claim_expires_at := None\<rparr>"

definition releaseClaims :: "uuid \<Rightarrow> publishing \<Rightarrow> publishing" where
  "releaseClaims token p = p\<lparr>p_outbox := update_where (release_where token) release_set (p_outbox p)\<rparr>"

text \<open>The tenant column of the claim statement and the notification on its channel.\<close>

definition event_tenant :: "db \<Rightarrow> outbox_row \<Rightarrow> uuid option" where
  "event_tenant s ev =
     (let agg = ob_aggregate_id ev;
          of_run = (if ob_aggregate_type ev = ''workflow_run''
                    then map_option wr_tenant_id (query_row (\<lambda>r. wr_id r = agg) (db_runs s)) else None);
          of_task = (if ob_aggregate_type ev = ''task_run''
                     then (case query_row (\<lambda>t. tr_id t = agg) (db_tasks s) of
                             None \<Rightarrow> None
                           | Some t \<Rightarrow> map_option wr_tenant_id (run_of s (tr_workflow_run_id t)))
                     else None);
          of_def = (if ob_aggregate_type ev = ''workflow_definition''
                    then map_option wd_tenant_id (query_row (\<lambda>w. wd_id w = agg) (db_definitions s)) else None)
      in if of_run \<noteq> None then of_run else if of_task \<noteq> None then of_task else of_def)"

definition live_Publish :: "uuid option \<Rightarrow> outbox_row \<Rightarrow> publishing \<Rightarrow> publishing" where
  "live_Publish tenant ev p =
     (case tenant of None \<Rightarrow> p | Some t \<Rightarrow> p\<lparr>p_live := p_live p @ [(t, ob_id ev)]\<rparr>)"

section \<open>One batch\<close>

text \<open>The loop over the claimed events; \<open>acked i\<close> is the database time of the \<open>i\<close>-th acknowledgement.\<close>

fun publish_events ::
    "db \<Rightarrow> (nat \<Rightarrow> err option) \<Rightarrow> (nat \<Rightarrow> time) \<Rightarrow> uuid \<Rightarrow> nat \<Rightarrow> outbox_row list \<Rightarrow> publishing \<Rightarrow> err option \<times> publishing" where
  "publish_events s pub acked token i [] p = (None, p)"
| "publish_events s pub acked token i (ev # evs) p =
     (case pub i of
        Some er \<Rightarrow> (Some er, releaseClaims token p)
      | None \<Rightarrow>
          let p1 = p\<lparr>p_sent := p_sent p @ [ev]\<rparr>;
              p2 = p1\<lparr>p_outbox := update_where (ack_where (ob_id ev) token) (ack_set (acked i)) (p_outbox p1)\<rparr>
          in if rows_affected (ack_where (ob_id ev) token) (p_outbox p1) \<noteq> 1
             then (Some (ErrMsg ''outbox claim lost before acknowledgement''), releaseClaims token p2)
             else publish_events s pub acked token (Suc i) evs (live_Publish (event_tenant s ev) ev p2))"

definition publishClaimedBatch ::
    "outbox_cfg \<Rightarrow> db \<Rightarrow> env \<Rightarrow> (uuid \<Rightarrow> bool) \<Rightarrow> (nat \<Rightarrow> err option) \<Rightarrow> (nat \<Rightarrow> time) \<Rightarrow> publishing \<Rightarrow> err option \<times> nat \<times> publishing" where
  "publishClaimedBatch cfg s e locked pub acked p =
     (if publishTimeout cfg \<ge> claimTTL cfg
      then (Some (ErrMsg ''outbox publish timeout must be shorter than claim TTL''), 0, p)
      else
        let token = e_uuid e 0;
            cs = candidates (nat (batchSize cfg)) locked (e_now e) (p_outbox p)
        in if exists_row (\<lambda>ev. \<not> int4_ok (ob_publish_attempts ev + 1)) cs
           then (Some (ErrDB ''integer out of range''), 0, p)
           else
             let tbl = update_where (claim_where cs) (claim_set token (e_now e + claimTTL cfg)) (p_outbox p);
                 evs = select (claim_where cs) tbl
             in case publish_events s pub acked token 0 evs (p\<lparr>p_outbox := tbl\<rparr>) of
                  (Some er, p') \<Rightarrow> (Some er, 0, p')
                | (None, p') \<Rightarrow> (None, length evs, p'))"

section \<open>The publishing loop\<close>

text \<open>
  \<^verbatim>\<open>publishBatch\<close> repeats batches until one publishes nothing or fails; \<open>None\<close> is a loop cut off by
  the fuel. The \<open>n\<close>-th batch runs in its own environment.
\<close>

fun publishBatch ::
    "nat \<Rightarrow> outbox_cfg \<Rightarrow> db \<Rightarrow> (nat \<Rightarrow> env) \<Rightarrow> (nat \<Rightarrow> uuid \<Rightarrow> bool) \<Rightarrow> (nat \<Rightarrow> nat \<Rightarrow> err option) \<Rightarrow> (nat \<Rightarrow> nat \<Rightarrow> time)
       \<Rightarrow> nat \<Rightarrow> publishing \<Rightarrow> (err option \<times> publishing) option" where
  "publishBatch 0 cfg s E locked pub acked n p = None"
| "publishBatch (Suc fuel) cfg s E locked pub acked n p =
     (case publishClaimedBatch cfg s (E n) (locked n) (pub n) (acked n) p of
        (Some er, _, p') \<Rightarrow> Some (Some er, p')
      | (None, published, p') \<Rightarrow>
          if published = 0 then Some (None, p')
          else publishBatch fuel cfg s E locked pub acked (Suc n) p')"

section \<open>The abstract view\<close>

text \<open>
  \<open>core\<close> is what an event is, without the bookkeeping of its publication; the backlog is the
  list of unpublished events. A publishing pass moves events from the backlog to the publisher.
\<close>

definition core :: "outbox_row \<Rightarrow> outbox_row" where
  "core ev = ev\<lparr>ob_published_at := None, ob_claim_token := None, ob_claim_expires_at := None, ob_publish_attempts := 0\<rparr>"

definition backlog :: "outbox_row list \<Rightarrow> outbox_row list" where
  "backlog tbl = map core (filter unpublished tbl)"

definition key_ordered :: "outbox_row list \<Rightarrow> outbox_row list \<Rightarrow> bool" where
  "key_ordered sent rest \<longleftrightarrow>
     (\<forall>k. sorted_wrt (\<lambda>a b. stamp a < stamp b) (filter (\<lambda>ev. ob_ordering_key ev = k) sent)) \<and>
     (\<forall>a \<in> set sent. \<forall>b \<in> set rest. ob_ordering_key a = ob_ordering_key b \<longrightarrow> stamp a < stamp b)"

text \<open>
  \<open>batch_of B S B'\<close>: from the backlog \<open>B\<close> the events \<open>S\<close> were sent, each the head of its ordering
  key and none twice, and \<open>B'\<close> is what is left.
\<close>

definition batch_of :: "outbox_row list \<Rightarrow> outbox_row list \<Rightarrow> outbox_row list \<Rightarrow> bool" where
  "batch_of B S B' \<longleftrightarrow>
     distinct (map ob_id S) \<and> core ` set S \<subseteq> set B \<and>
     (\<forall>ev \<in> set S. \<forall>c \<in> set B. ob_ordering_key c = ob_ordering_key ev \<longrightarrow> stamp ev \<le> stamp c) \<and>
     B' = filter (\<lambda>c. ob_id c \<notin> ob_id ` set S) B"

text \<open>No unpublished event is held by another publisher, or was claimed too often to count.\<close>

definition unclaimed :: "outbox_row list \<Rightarrow> bool" where
  "unclaimed tbl \<longleftrightarrow>
     (\<forall>ev \<in> set tbl. unpublished ev \<longrightarrow> ob_claim_token ev = None \<and> int4_ok (ob_publish_attempts ev + 1))"

lemma core_simps [simp]:
  "ob_id (core ev) = ob_id ev" "ob_ordering_key (core ev) = ob_ordering_key ev" "stamp (core ev) = stamp ev"
  "ob_event_type (core ev) = ob_event_type ev" "ob_payload (core ev) = ob_payload ev"
  "ob_created_at (core ev) = ob_created_at ev"
  by (simp_all add: core_def stamp_def)

lemma message_core [simp]: "message_of (core ev) = message_of ev"
  by (simp add: message_of_def core_def)

text \<open>The contract of an UPDATE on \<^verbatim>\<open>outbox_events\<close>: it changes only the bookkeeping.\<close>

locale outbox_stmt =
  fixes P :: "outbox_row \<Rightarrow> bool" and f :: "outbox_row \<Rightarrow> outbox_row"
  assumes keeps_core: "core (f ev) = core ev"
begin

lemma cores: "map core (update_where P f tbl) = map core tbl"
  by (simp add: map_update_where keeps_core)

lemma keeps_id: "ob_id (f ev) = ob_id ev"
  using keeps_core [of ev] by (metis core_simps(1))

lemma ids: "map ob_id (update_where P f tbl) = map ob_id tbl"
  by (simp add: map_update_where keeps_id)

end

locale outbox_claim_stmt = outbox_stmt +
  assumes keeps_unpublished: "P ev \<Longrightarrow> unpublished (f ev) \<longleftrightarrow> unpublished ev"
begin

lemma backlog: "backlog (update_where P f tbl) = backlog tbl"
  unfolding backlog_def by (induction tbl) (auto simp: keeps_core keeps_unpublished)

end

interpretation claim: outbox_claim_stmt "claim_where cs" "claim_set token expires" for cs token expires
  by unfold_locales (simp_all add: core_def claim_set_def unpublished_def)

interpretation release: outbox_claim_stmt "release_where token" release_set for token
  by unfold_locales (simp_all add: core_def release_set_def unpublished_def)

interpretation ack: outbox_stmt "ack_where eid token" "ack_set now" for eid token now
  by unfold_locales (simp add: core_def ack_set_def)

text \<open>An acknowledgement takes its event, and nothing else, off the backlog.\<close>

lemma ack_backlog:
  assumes "\<And>o'. o' \<in> set tbl \<Longrightarrow> unpublished o' \<Longrightarrow> ob_id o' = eid \<Longrightarrow> ob_claim_token o' = Some token"
  shows "backlog (update_where (ack_where eid token) (ack_set now) tbl) = filter (\<lambda>c. ob_id c \<noteq> eid) (backlog tbl)"
  using assms unfolding backlog_def
  by (induction tbl) (auto simp: ack_where_def ack_set_def unpublished_def)

lemma publish_events_spec:
  assumes "distinct (map ob_id (p_outbox p))" "distinct (map ob_id evs)"
    and "\<And>ev. ev \<in> set evs \<Longrightarrow> ev \<in> set (p_outbox p) \<and> unpublished ev \<and> ob_claim_token ev = Some token"
    and "publish_events s pub acked token i evs p = (r, p')"
  shows "\<exists>k \<le> length evs. (r = None \<longrightarrow> k = length evs) \<and> (r \<noteq> None \<longrightarrow> k < length evs \<and> pub (i + k) = r) \<and>
     p_sent p' = p_sent p @ take k evs \<and> map core (p_outbox p') = map core (p_outbox p) \<and>
     backlog (p_outbox p') = filter (\<lambda>c. ob_id c \<notin> ob_id ` set (take k evs)) (backlog (p_outbox p))"
  using assms
proof (induction evs arbitrary: i p)
  case Nil
  then show ?case by simp
next
  case (Cons ev evs)
  show ?case
  proof (cases "pub i")
    case (Some er)
    with Cons.prems(4) have "r = Some er" "p' = releaseClaims token p" by simp_all
    with Some show ?thesis
      by (intro exI [of _ 0]) (simp add: releaseClaims_def release.cores release.backlog)
  next
    case None
    let ?A = "ack_where (ob_id ev) token"
    let ?p2 = "p\<lparr>p_sent := p_sent p @ [ev], p_outbox := update_where ?A (ack_set (acked i)) (p_outbox p)\<rparr>"
    from Cons.prems(3) [of ev] have ev: "ev \<in> set (p_outbox p)" "unpublished ev" "ob_claim_token ev = Some token" by auto
    have only: "o' = ev" if "o' \<in> set (p_outbox p)" "ob_id o' = ob_id ev" for o'
      using distinct_map_eq [OF Cons.prems(1) that(1) ev(1) that(2)] .
    have "filter ?A (p_outbox p) = [ev]"
    proof (rule filter_single [OF _ ev(1)])
      show "distinct (p_outbox p)" using Cons.prems(1) by (simp add: distinct_map)
      show "?A o' \<longleftrightarrow> o' = ev" if "o' \<in> set (p_outbox p)" for o'
        using only [OF that] ev by (auto simp: ack_where_def)
    qed
    then have one: "rows_affected ?A (p_outbox p) = 1" by (simp add: rows_affected_def)
    define p3 where "p3 = live_Publish (event_tenant s ev) ev ?p2"
    have p3: "p_sent p3 = p_sent p @ [ev]" "p_outbox p3 = update_where ?A (ack_set (acked i)) (p_outbox p)"
      by (simp_all add: p3_def live_Publish_def split: option.split)
    from Cons.prems(4) None one have rec: "publish_events s pub acked token (Suc i) evs p3 = (r, p')"
      by (simp add: p3_def)
    have rest: "u \<in> set (p_outbox p3) \<and> unpublished u \<and> ob_claim_token u = Some token" if "u \<in> set evs" for u
    proof -
      from that Cons.prems(2) have "ob_id u \<noteq> ob_id ev" by (auto simp: image_iff)
      with Cons.prems(3) [of u] that show ?thesis unfolding p3 set_update_where by (force simp: ack_where_def)
    qed
    from Cons.IH [OF _ _ rest rec] Cons.prems(1,2)
    obtain k where k: "k \<le> length evs" "r = None \<longrightarrow> k = length evs" "r \<noteq> None \<longrightarrow> k < length evs \<and> pub (Suc i + k) = r"
      "p_sent p' = p_sent p3 @ take k evs" "map core (p_outbox p') = map core (p_outbox p3)"
      "backlog (p_outbox p') = filter (\<lambda>c. ob_id c \<notin> ob_id ` set (take k evs)) (backlog (p_outbox p3))"
      by (auto simp: p3 ack.ids)
    have bl: "backlog (p_outbox p3) = filter (\<lambda>c. ob_id c \<noteq> ob_id ev) (backlog (p_outbox p))"
      unfolding p3 by (rule ack_backlog) (use only ev(3) in blast)
    have "backlog (p_outbox p') = filter (\<lambda>c. ob_id c \<notin> ob_id ` set (take (Suc k) (ev # evs))) (backlog (p_outbox p))"
      unfolding k(6) bl filter_filter by (rule filter_cong) auto
    moreover have "map core (p_outbox p') = map core (p_outbox p)" unfolding k(5) p3 by (rule ack.cores)
    ultimately show ?thesis using k(1-4) by (intro exI [of _ "Suc k"]) (simp add: p3(1))
  qed
qed

section \<open>What a batch claims\<close>

lemma set_candidates:
  "c \<in> set (candidates n locked now tbl) \<Longrightarrow> c \<in> set tbl \<and> claimable now tbl c \<and> \<not> locked (ob_id c)"
  unfolding candidates_def by (drule in_set_takeD) (simp add: select_def)

text \<open>A claimable event is the first of its ordering key.\<close>

lemma claimable_head:
  assumes "claimable now tbl ev" "c \<in> set (backlog tbl)" "ob_ordering_key c = ob_ordering_key ev"
  shows "stamp ev \<le> stamp c"
proof -
  from assms(2) obtain q where q: "q \<in> set tbl" "unpublished q" "c = core q" by (auto simp: backlog_def)
  with assms(1,3) have "\<not> stamp q < stamp ev" by (auto simp: claimable_def exists_row_iff)
  with q(3) show ?thesis by simp
qed

lemma claimed_events:
  assumes keys: "distinct (map ob_id tbl)" and cs: "cs = candidates n locked now tbl"
    and evs: "evs = select (claim_where cs) (update_where (claim_where cs) (claim_set token expires) tbl)"
  shows "distinct (map ob_id evs)" "map ob_id evs = map ob_id (filter (claim_where cs) tbl)"
    and "ev \<in> set evs \<Longrightarrow> ev \<in> set (update_where (claim_where cs) (claim_set token expires) tbl) \<and>
           unpublished ev \<and> ob_claim_token ev = Some token"
    and "ev \<in> set evs \<Longrightarrow> core ev \<in> set (backlog tbl)"
    and "ev \<in> set evs \<Longrightarrow> c \<in> set (backlog tbl) \<Longrightarrow> ob_ordering_key c = ob_ordering_key ev \<Longrightarrow> stamp ev \<le> stamp c"
proof -
  have evs': "evs = map (claim_set token expires) (filter (claim_where cs) tbl)"
    unfolding evs select_def by (induction tbl) (auto simp: claim_where_def claim_set_def)
  then show ids: "map ob_id evs = map ob_id (filter (claim_where cs) tbl)"
    by (simp add: claim_set_def comp_def)
  show "distinct (map ob_id evs)" unfolding ids by (rule distinct_map_filter [OF keys])
  assume ev: "ev \<in> set evs"
  then obtain o' where o': "o' \<in> set tbl" "claim_where cs o'" "ev = claim_set token expires o'" by (auto simp: evs')
  from o'(2) obtain c' where c': "c' \<in> set cs" "ob_id c' = ob_id o'" unfolding claim_where_def by force
  from set_candidates [OF c'(1) [unfolded cs]] have "c' \<in> set tbl" and cl: "claimable now tbl c'" by auto
  with distinct_map_eq [OF keys _ o'(1) c'(2)] have eq: "c' = o'" by simp
  with cl have un: "unpublished o'" by (simp add: claimable_def)
  show "ev \<in> set (update_where (claim_where cs) (claim_set token expires) tbl) \<and> unpublished ev \<and> ob_claim_token ev = Some token"
    using ev un o'(3) unfolding evs by (simp add: select_def unpublished_def claim_set_def)
  have co: "core ev = core o'" unfolding o'(3) by (rule claim.keeps_core)
  with un o'(1) show "core ev \<in> set (backlog tbl)" by (simp add: backlog_def)
  assume "c \<in> set (backlog tbl)" "ob_ordering_key c = ob_ordering_key ev"
  then have "stamp o' \<le> stamp c"
    using claimable_head [OF cl [unfolded eq]] o'(3) by (simp add: claim_set_def)
  then show "stamp ev \<le> stamp c" using co by (metis core_simps(3))
qed

section \<open>A batch, abstractly\<close>

lemma batch_of_Nil: "batch_of B [] B"
  by (simp add: batch_of_def)

lemma publishClaimedBatch_spec:
  assumes keys: "distinct (map ob_id (p_outbox p))"
    and op: "publishClaimedBatch cfg s e locked pub acked p = (r, n, p')"
  shows "\<exists>S. p_sent p' = p_sent p @ S \<and> batch_of (backlog (p_outbox p)) S (backlog (p_outbox p')) \<and>
     map core (p_outbox p') = map core (p_outbox p) \<and> (r = None \<longrightarrow> n = length S)"
proof -
  define cs where "cs = candidates (nat (batchSize cfg)) locked (e_now e) (p_outbox p)"
  define tbl where "tbl = update_where (claim_where cs) (claim_set (e_uuid e 0) (e_now e + claimTTL cfg)) (p_outbox p)"
  define evs where "evs = select (claim_where cs) tbl"
  note C = claimed_events [OF keys cs_def evs_def [unfolded tbl_def]]
  consider (err) "p' = p" "r \<noteq> None"
    | (go) "publish_events s pub acked (e_uuid e 0) 0 evs (p\<lparr>p_outbox := tbl\<rparr>) = (r, p')" "r = None \<longrightarrow> n = length evs"
    using op by (auto simp: publishClaimedBatch_def Let_def cs_def tbl_def evs_def split: if_splits prod.splits option.splits)
  then show ?thesis
  proof cases
    case err
    then show ?thesis using batch_of_Nil by (intro exI [of _ "[]"]) auto
  next
    case go
    have "distinct (map ob_id (p_outbox (p\<lparr>p_outbox := tbl\<rparr>)))" using keys by (simp add: tbl_def claim.ids)
    from publish_events_spec [OF this C(1) _ go(1)] C(3)
    obtain k where k: "k \<le> length evs" "r = None \<longrightarrow> k = length evs" "p_sent p' = p_sent p @ take k evs"
      "map core (p_outbox p') = map core tbl"
      "backlog (p_outbox p') = filter (\<lambda>c. ob_id c \<notin> ob_id ` set (take k evs)) (backlog tbl)"
      by (auto simp: tbl_def)
    have "batch_of (backlog (p_outbox p)) (take k evs) (backlog (p_outbox p'))"
      unfolding batch_of_def k(5)
    proof (intro conjI)
      show "distinct (map ob_id (take k evs))" using C(1) by (simp add: distinct_take flip: take_map)
      show "core ` set (take k evs) \<subseteq> set (backlog (p_outbox p))" using C(4) by (auto dest: in_set_takeD)
      show "\<forall>ev \<in> set (take k evs). \<forall>c \<in> set (backlog (p_outbox p)). ob_ordering_key c = ob_ordering_key ev \<longrightarrow> stamp ev \<le> stamp c"
        using C(5) by (auto dest: in_set_takeD)
    qed (simp add: tbl_def claim.backlog)
    with k go(2) show ?thesis by (intro exI [of _ "take k evs"]) (auto simp: tbl_def claim.cores)
  qed
qed

text \<open>Conservation: what was sent and what is left are together what there was.\<close>

lemma batch_conserves:
  assumes "batch_of B S B'" "distinct (map ob_id B)"
  shows "mset (map core S) + mset B' = mset B"
proof -
  let ?in = "\<lambda>c. ob_id c \<in> ob_id ` set S"
  from assms(1) have S: "distinct (map ob_id S)" "core ` set S \<subseteq> set B" and B': "B' = filter (\<lambda>c. \<not> ?in c) B"
    by (simp_all add: batch_of_def)
  have "set (map core S) = set (filter ?in B)"
  proof (intro equalityI subsetI)
    fix c assume "c \<in> set (filter ?in B)"
    then obtain ev where c: "c \<in> set B" "ev \<in> set S" "ob_id c = ob_id ev" by auto
    with S(2) have "core ev \<in> set B" by blast
    with distinct_map_eq [OF assms(2) c(1), of "core ev"] c(3) have "c = core ev" by simp
    with c(2) show "c \<in> set (map core S)" by simp
  qed (use S(2) in force)
  moreover have "distinct (map core S)"
    using S(1) by (metis (mono_tags, lifting) core_simps(1) distinct_map inj_on_def)
  moreover have "distinct (filter ?in B)" using assms(2) by (simp add: distinct_map)
  ultimately have "mset (map core S) = mset (filter ?in B)" by (metis set_eq_iff_mset_eq_distinct)
  then show ?thesis by (simp add: B')
qed

lemma sorted_wrt_one:
  assumes "distinct xs" "\<And>a b. a \<in> set xs \<Longrightarrow> b \<in> set xs \<Longrightarrow> a = b"
  shows "sorted_wrt R xs"
proof (cases xs)
  case (Cons x ys)
  with assms have "y = x" if "y \<in> set ys" for y using that by auto
  with assms(1) Cons have "ys = []" by (cases ys) auto
  with Cons show ?thesis by simp
qed simp

lemma batch_keeps_order:
  assumes batch: "batch_of B S B'" and keys: "distinct (map ob_id B)" and ord: "key_ordered sent B"
  shows "key_ordered (sent @ S) B'"
proof -
  from batch have S: "distinct (map ob_id S)" "\<And>ev. ev \<in> set S \<Longrightarrow> core ev \<in> set B"
    and head: "\<And>ev c. ev \<in> set S \<Longrightarrow> c \<in> set B \<Longrightarrow> ob_ordering_key c = ob_ordering_key ev \<Longrightarrow> stamp ev \<le> stamp c"
    and B': "B' = filter (\<lambda>c. ob_id c \<notin> ob_id ` set S) B"
    by (auto simp: batch_of_def)
  have same: "a = b" if "a \<in> set S" "b \<in> set S" "ob_ordering_key a = ob_ordering_key b" for a b
  proof -
    have "stamp a \<le> stamp b" using head [OF that(1) S(2) [OF that(2)]] that(3) by simp
    moreover have "stamp b \<le> stamp a" using head [OF that(2) S(2) [OF that(1)]] that(3) by simp
    ultimately have "stamp a = stamp b" by (rule order.antisym)
    then have "ob_id a = ob_id b" by (simp add: stamp_def)
    then show ?thesis using distinct_map_eq [OF S(1) that(1,2)] by simp
  qed
  have "sorted_wrt (\<lambda>a b. stamp a < stamp b) (filter (\<lambda>ev. ob_ordering_key ev = k) (sent @ S))" for k
  proof -
    have "distinct (filter (\<lambda>ev. ob_ordering_key ev = k) S)" using S(1) by (simp add: distinct_map)
    then have "sorted_wrt (\<lambda>a b. stamp a < stamp b) (filter (\<lambda>ev. ob_ordering_key ev = k) S)"
      by (rule sorted_wrt_one) (use same in auto)
    moreover have "stamp a < stamp b" if "a \<in> set sent" "b \<in> set S" "ob_ordering_key a = k" "ob_ordering_key b = k" for a b
      using ord S(2) [OF that(2)] that unfolding key_ordered_def by (metis core_simps(2,3))
    ultimately show ?thesis using ord by (simp add: key_ordered_def sorted_wrt_append)
  qed
  moreover have "stamp a < stamp c" if "a \<in> set (sent @ S)" "c \<in> set B'" "ob_ordering_key a = ob_ordering_key c" for a c
  proof (cases "a \<in> set S")
    case True
    from that(2) B' have c: "c \<in> set B" "ob_id c \<notin> ob_id ` set S" by auto
    from head [OF True c(1)] that(3) have "stamp a \<le> stamp c" by simp
    moreover from c(2) True have "stamp a \<noteq> stamp c" unfolding stamp_def by (metis imageI prod.inject)
    ultimately show ?thesis by simp
  next
    case False
    with that ord B' show ?thesis by (auto simp: key_ordered_def)
  qed
  ultimately show ?thesis by (simp add: key_ordered_def)
qed

lemma batch_shrinks: "batch_of B S B' \<Longrightarrow> distinct (map ob_id B) \<Longrightarrow> length B' + length S = length B"
  using batch_conserves [of B S B'] by (metis add.commute length_map size_mset size_union)

lemma distinct_backlog: "distinct (map ob_id tbl) \<Longrightarrow> distinct (map ob_id (backlog tbl))"
  by (simp add: backlog_def comp_def distinct_map_filter)

lemma distinct_ids_cores: "map core tbl = map core tbl' \<Longrightarrow> map ob_id tbl = map ob_id tbl'"
  by (metis (mono_tags, lifting) core_simps(1) map_eq_conv map_map comp_apply list.map_comp)

section \<open>The publishing loop\<close>

lemma publishBatch_spec:
  assumes "publishBatch fuel cfg s E locked pub acked n p = Some (r, p')"
    and "distinct (map ob_id (p_outbox p))" "key_ordered (drop m (p_sent p)) (backlog (p_outbox p))" "m \<le> length (p_sent p)"
  shows "\<exists>S. p_sent p' = p_sent p @ S \<and> mset (map core S) + mset (backlog (p_outbox p')) = mset (backlog (p_outbox p)) \<and>
     key_ordered (drop m (p_sent p')) (backlog (p_outbox p')) \<and> map core (p_outbox p') = map core (p_outbox p)"
  using assms
proof (induction fuel arbitrary: n p)
  case (Suc fuel)
  obtain r1 k p1 where b: "publishClaimedBatch cfg s (E n) (locked n) (pub n) (acked n) p = (r1, k, p1)"
    by (metis surj_pair)
  from publishClaimedBatch_spec [OF Suc.prems(2) b] obtain S1 where S1: "p_sent p1 = p_sent p @ S1"
    "batch_of (backlog (p_outbox p)) S1 (backlog (p_outbox p1))" "map core (p_outbox p1) = map core (p_outbox p)" by blast
  note dist = distinct_backlog [OF Suc.prems(2)]
  have ord: "key_ordered (drop m (p_sent p1)) (backlog (p_outbox p1))"
    using batch_keeps_order [OF S1(2) dist Suc.prems(3)] Suc.prems(4) by (simp add: S1(1))
  note cons = batch_conserves [OF S1(2) dist]
  show ?case
  proof (cases "r1 = None \<and> k \<noteq> 0")
    case True
    with Suc.prems(1) b have "publishBatch fuel cfg s E locked pub acked (Suc n) p1 = Some (r, p')" by simp
    moreover have "distinct (map ob_id (p_outbox p1))"
      using Suc.prems(2) distinct_ids_cores [OF S1(3)] by simp
    moreover have "m \<le> length (p_sent p1)" using Suc.prems(4) by (simp add: S1(1))
    ultimately obtain S2 where S2: "p_sent p' = p_sent p1 @ S2"
      "mset (map core S2) + mset (backlog (p_outbox p')) = mset (backlog (p_outbox p1))"
      "key_ordered (drop m (p_sent p')) (backlog (p_outbox p'))" "map core (p_outbox p') = map core (p_outbox p1)"
      using Suc.IH [OF _ _ ord] by blast
    have "mset (map core (S1 @ S2)) + mset (backlog (p_outbox p')) = mset (backlog (p_outbox p))"
      unfolding cons [symmetric] S2(2) [symmetric] by simp
    with S1 S2 show ?thesis by (intro exI [of _ "S1 @ S2"]) simp
  next
    case False
    with Suc.prems(1) b have "p' = p1" by (auto split: option.splits if_splits)
    with S1 ord cons show ?thesis by blast
  qed
qed simp

lemma publishBatch_returns:
  assumes "distinct (map ob_id (p_outbox p))" "length (backlog (p_outbox p)) < fuel"
  shows "\<exists>r p'. publishBatch fuel cfg s E locked pub acked n p = Some (r, p')"
  using assms
proof (induction fuel arbitrary: n p)
  case (Suc fuel)
  obtain r1 k p1 where b: "publishClaimedBatch cfg s (E n) (locked n) (pub n) (acked n) p = (r1, k, p1)"
    by (metis surj_pair)
  show ?case
  proof (cases "r1 = None \<and> k \<noteq> 0")
    case True
    from publishClaimedBatch_spec [OF Suc.prems(1) b] obtain S1 where S1:
      "batch_of (backlog (p_outbox p)) S1 (backlog (p_outbox p1))" "map core (p_outbox p1) = map core (p_outbox p)"
      "k = length S1" using True by blast
    have "length (backlog (p_outbox p1)) < length (backlog (p_outbox p))"
      using batch_shrinks [OF S1(1) distinct_backlog [OF Suc.prems(1)]] S1(3) True by linarith
    moreover have "distinct (map ob_id (p_outbox p1))" using Suc.prems(1) distinct_ids_cores [OF S1(2)] by simp
    ultimately show ?thesis using Suc.IH [of p1 "Suc n"] Suc.prems(2) b True by auto
  next
    case False
    with b show ?thesis by (auto split: option.splits)
  qed
qed simp

section \<open>Draining the outbox\<close>

lemma publish_events_untouched:
  assumes "publish_events s pub acked token i evs p = (None, p')" "o' \<in> set (p_outbox p')" "unpublished o'"
  shows "o' \<in> set (p_outbox p)"
  using assms
proof (induction evs arbitrary: i p)
  case (Cons ev evs)
  define p3 where "p3 = live_Publish (event_tenant s ev) ev
    (p\<lparr>p_sent := p_sent p @ [ev], p_outbox := update_where (ack_where (ob_id ev) token) (ack_set (acked i)) (p_outbox p)\<rparr>)"
  from Cons.prems(1) have "publish_events s pub acked token (Suc i) evs p3 = (None, p')"
    by (simp add: p3_def Let_def split: option.splits if_splits)
  from Cons.IH [OF this Cons.prems(2,3)]
  have "o' \<in> set (update_where (ack_where (ob_id ev) token) (ack_set (acked i)) (p_outbox p))"
    by (simp add: p3_def live_Publish_def split: option.splits)
  with Cons.prems(3) show ?case by (auto simp: set_update_where ack_set_def unpublished_def split: if_splits)
qed simp

lemma candidates_nonempty:
  assumes "backlog tbl \<noteq> []" "unclaimed tbl" "0 < n" "\<And>i. \<not> locked i"
  shows "candidates n locked now tbl \<noteq> []"
proof -
  let ?U = "set (filter unpublished tbl)"
  have fin: "finite (stamp ` ?U)" by simp
  moreover have "stamp ` ?U \<noteq> {}" using assms(1) by (auto simp: backlog_def filter_empty_conv)
  ultimately have "Min (stamp ` ?U) \<in> stamp ` ?U" by (rule Min_in)
  then obtain ev where ev: "ev \<in> ?U" "stamp ev = Min (stamp ` ?U)" by (metis imageE)
  have min: "\<not> stamp q < stamp ev" if "q \<in> set tbl" "unpublished q" for q
    using Min_le [OF fin imageI, of q] that by (simp add: ev(2) not_less)
  have "claimable now tbl ev"
    using ev(1) assms(2) min by (auto simp: claimable_def exists_row_iff claim_free_def unclaimed_def)
  with ev(1) assms(4)
  have "ev \<in> set (sort_key stamp (select (\<lambda>ev. claimable now tbl ev \<and> \<not> locked (ob_id ev)) tbl))"
    by (simp add: select_def)
  then have "sort_key stamp (select (\<lambda>ev. claimable now tbl ev \<and> \<not> locked (ob_id ev)) tbl) \<noteq> []"
    by (metis empty_iff empty_set)
  with assms(3) show ?thesis by (simp only: candidates_def take_eq_Nil) simp
qed

lemma publishClaimedBatch_ok:
  assumes keys: "distinct (map ob_id (p_outbox p))" and un: "unclaimed (p_outbox p)"
    and cfg: "publishTimeout cfg < claimTTL cfg" and pub: "\<And>i. pub i = None" and free: "\<And>i. \<not> locked i"
    and op: "publishClaimedBatch cfg s e locked pub acked p = (r, n, p')"
  shows "r = None" "unclaimed (p_outbox p')" "backlog (p_outbox p) \<noteq> [] \<Longrightarrow> n \<noteq> 0"
proof -
  define cs where "cs = candidates (nat (batchSize cfg)) locked (e_now e) (p_outbox p)"
  define tbl where "tbl = update_where (claim_where cs) (claim_set (e_uuid e 0) (e_now e + claimTTL cfg)) (p_outbox p)"
  define evs where "evs = select (claim_where cs) tbl"
  note C = claimed_events [OF keys cs_def evs_def [unfolded tbl_def]]
  have csub: "c \<in> set (p_outbox p) \<and> unpublished c" if "c \<in> set cs" for c
    using set_candidates [OF that [unfolded cs_def]] by (simp add: claimable_def)
  have "\<not> exists_row (\<lambda>ev. \<not> int4_ok (ob_publish_attempts ev + 1)) cs"
    using csub un by (auto simp: exists_row_iff unclaimed_def)
  with op cfg obtain r1 where go: "publish_events s pub acked (e_uuid e 0) 0 evs (p\<lparr>p_outbox := tbl\<rparr>) = (r1, p')"
    and rn: "r = r1" "r1 = None \<longrightarrow> n = length evs"
    by (auto simp: publishClaimedBatch_def Let_def cs_def tbl_def evs_def split: prod.splits option.splits)
  have keys': "distinct (map ob_id (p_outbox (p\<lparr>p_outbox := tbl\<rparr>)))" using keys by (simp add: tbl_def claim.ids)
  from publish_events_spec [OF keys' C(1) _ go] C(3) pub have r1: "r1 = None" and
    bl: "backlog (p_outbox p') = filter (\<lambda>c. ob_id c \<notin> ob_id ` set evs) (backlog tbl)"
    by (auto simp: tbl_def)
  from r1 rn show "r = None" by simp
  show "unclaimed (p_outbox p')"
    unfolding unclaimed_def
  proof (intro ballI impI)
    fix o' assume o': "o' \<in> set (p_outbox p')" "unpublished o'"
    then have "core o' \<in> set (backlog (p_outbox p'))" by (simp add: backlog_def)
    then have "ob_id o' \<notin> ob_id ` set evs" using bl by simp
    moreover from publish_events_untouched [OF go [unfolded r1] o'] have "o' \<in> set tbl" by simp
    ultimately have "\<not> claim_where cs o'" "o' \<in> set tbl" by (auto simp: evs_def select_def)
    then have "o' \<in> set (p_outbox p)"
      by (auto simp: tbl_def set_update_where claim_where_def claim_set_def split: if_splits)
    with un o'(2) show "ob_claim_token o' = None \<and> int4_ok (ob_publish_attempts o' + 1)" by (simp add: unclaimed_def)
  qed
  assume "backlog (p_outbox p) \<noteq> []"
  then have "cs \<noteq> []" unfolding cs_def by (rule candidates_nonempty [OF _ un _ free]) (simp add: batchSize_def)
  then obtain c where "c \<in> set cs" by (cases cs) auto
  then have "c \<in> set (filter (claim_where cs) (p_outbox p))" using csub by (simp add: claim_where_def)
  then have "map ob_id (filter (claim_where cs) (p_outbox p)) \<noteq> []" by (cases "filter (claim_where cs) (p_outbox p)") auto
  with C(2) have "evs \<noteq> []" by force
  with rn r1 show "n \<noteq> 0" by simp
qed

lemma publishBatch_drains:
  assumes "distinct (map ob_id (p_outbox p))" "unclaimed (p_outbox p)" "publishTimeout cfg < claimTTL cfg"
    and pub: "\<And>n i. pub n i = None" and free: "\<And>n i. \<not> locked n i"
    and "length (backlog (p_outbox p)) < fuel"
  shows "\<exists>p'. publishBatch fuel cfg s E locked pub acked n p = Some (None, p') \<and> backlog (p_outbox p') = []"
  using assms(1,2,6)
proof (induction fuel arbitrary: n p)
  case (Suc fuel)
  obtain r k p1 where b: "publishClaimedBatch cfg s (E n) (locked n) (pub n) (acked n) p = (r, k, p1)"
    by (metis surj_pair)
  note B = publishClaimedBatch_ok [OF Suc.prems(1,2) assms(3) pub free b]
  from publishClaimedBatch_spec [OF Suc.prems(1) b] B(1) obtain S1 where S1:
    "batch_of (backlog (p_outbox p)) S1 (backlog (p_outbox p1))" "map core (p_outbox p1) = map core (p_outbox p)"
    "k = length S1" by blast
  note len = batch_shrinks [OF S1(1) distinct_backlog [OF Suc.prems(1)]]
  show ?case
  proof (cases "k = 0")
    case True
    with B(3) len S1(3) have "backlog (p_outbox p1) = []" by (metis add_0_right length_0_conv)
    with b B(1) True show ?thesis by simp
  next
    case False
    have "distinct (map ob_id (p_outbox p1))" using Suc.prems(1) distinct_ids_cores [OF S1(2)] by simp
    moreover have "length (backlog (p_outbox p1)) < fuel" using len S1(3) False Suc.prems(3) by linarith
    ultimately show ?thesis using Suc.IH [OF _ B(2), of "Suc n"] b B(1) False by simp
  qed
qed simp

section \<open>Properties\<close>





text \<open>Three events, two of them of one run and stored against their order.\<close>

definition three_events :: "outbox_row list" where
  "three_events =
     (let ev = (\<lambda>i k t. outbox_event \<lparr>e_now = t, e_gonow = t, e_uuid = (\<lambda>_. i), e_trace = ''''\<rparr> 0 ''task_run'' k ''task.ready'' (JObj []) '''')
      in [ev 2 7 5, ev 1 7 4, ev 3 8 4])"

definition three_pass :: "nat \<Rightarrow> (nat \<Rightarrow> nat \<Rightarrow> err option) \<Rightarrow> (err option \<times> publishing) option" where
  "three_pass fuel pub =
     publishBatch fuel \<lparr>OutboxBatchSize = 0, OutboxClaimTTL = 0, OutboxPublishTimeout = 0\<rparr> empty_db
       (\<lambda>n. \<lparr>e_now = 9, e_gonow = 9, e_uuid = (\<lambda>_. 100 + n), e_trace = ''''\<rparr>) (\<lambda>_ _. False) pub (\<lambda>_ _. 9) 0
       \<lparr>p_outbox = three_events, p_sent = [], p_live = []\<rparr>"

lemma three_distinct: "distinct (map ob_id three_events)"
  by code_simp





end
