(* ===== verification/Sha256.thy ===== *)
theory Sha256
  imports Prelude "HOL-Library.Word"
begin

text \<open>
  \<^verbatim>\<open>crypto/sha256\<close> of the Go standard library, as FIPS 180-4 defines it, on a string of bytes. The
  program uses it to store API keys and to verify uploads; the proofs only use that it is a
  function with results of 32 bytes.
\<close>

unbundle bit_operations_syntax

type_synonym u32 = "32 word"

definition rotr :: "nat \<Rightarrow> u32 \<Rightarrow> u32" where
  "rotr n x = word_rotr n x"

text \<open>
  The constants are those of the standard's definition: the first 32 bits of the fractional parts
  of the cube roots of the first 64 primes and of the square roots of the first 8.
\<close>

text \<open>The integer \<open>k\<close>-th root of \<open>n\<close>, bit by bit from bit \<open>i - 1\<close> down.\<close>

fun root_bits :: "nat \<Rightarrow> int \<Rightarrow> nat \<Rightarrow> int \<Rightarrow> int" where
  "root_bits k n 0 r = r"
| "root_bits k n (Suc i) r = root_bits k n i (if (r + 2 ^ i) ^ k \<le> n then r + 2 ^ i else r)"

definition small_primes :: "nat list" where
  "small_primes = filter (\<lambda>p. list_all (\<lambda>d. p mod d \<noteq> 0) [2..<p]) [2..<312]"

definition sha256_k :: "u32 list" where
  "sha256_k = map (\<lambda>p. word_of_int (root_bits 3 (int p * 2 ^ 96) 35 0)) small_primes"

definition sha256_h :: "u32 list" where
  "sha256_h = map (\<lambda>i. word_of_int (root_bits 2 (int (small_primes ! i) * 2 ^ 64) 35 0)) [0..<8]"

text \<open>Padding: one bit, zeros, and the length in bits as a 64-bit big-endian number.\<close>

definition be_bytes :: "nat \<Rightarrow> nat \<Rightarrow> char list" where
  "be_bytes w n = map (\<lambda>i. char_of (n div 256 ^ (w - 1 - i) mod 256 :: nat)) [0..<w]"

definition sha256_pad :: "char list \<Rightarrow> char list" where
  "sha256_pad m =
     m @ char_of (128 :: nat) # replicate ((119 - length m mod 64) mod 64) (char_of (0 :: nat)) @ be_bytes 8 (8 * length m)"

fun be_words :: "char list \<Rightarrow> u32 list" where
  "be_words (a # b # c # d # rest) =
     word_of_nat (((of_char a * 256 + of_char b) * 256 + of_char c) * 256 + of_char d) # be_words rest"
| "be_words _ = []"

fun sha256_schedule :: "nat \<Rightarrow> u32 list \<Rightarrow> u32 list" where
  "sha256_schedule 0 w = w"
| "sha256_schedule (Suc n) w =
     (let i = length w;
          x = w ! (i - 15); y = w ! (i - 2);
          s0 = rotr 7 x XOR rotr 18 x XOR drop_bit 3 x;
          s1 = rotr 17 y XOR rotr 19 y XOR drop_bit 10 y
      in sha256_schedule n (w @ [w ! (i - 16) + s0 + w ! (i - 7) + s1]))"

definition sha256_round :: "u32 list \<Rightarrow> u32 \<times> u32 \<Rightarrow> u32 list" where
  "sha256_round v kw =
     (let a = v ! 0; b = v ! 1; c = v ! 2; d = v ! 3; e = v ! 4; f = v ! 5; g = v ! 6; h = v ! 7;
          s1 = rotr 6 e XOR rotr 11 e XOR rotr 25 e;
          ch = (e AND f) XOR (NOT e AND g);
          t1 = h + s1 + ch + fst kw + snd kw;
          s0 = rotr 2 a XOR rotr 13 a XOR rotr 22 a;
          maj = (a AND b) XOR (a AND c) XOR (b AND c)
      in [t1 + s0 + maj, a, b, c, d + t1, e, f, g])"

definition sha256_block :: "u32 list \<Rightarrow> char list \<Rightarrow> u32 list" where
  "sha256_block h m =
     map2 (+) h (fold (\<lambda>kw v. sha256_round v kw) (zip sha256_k (sha256_schedule 48 (be_words m))) h)"

fun sha256_blocks :: "nat \<Rightarrow> u32 list \<Rightarrow> char list \<Rightarrow> u32 list" where
  "sha256_blocks 0 h m = h"
| "sha256_blocks (Suc n) h m = sha256_blocks n (sha256_block h (take 64 m)) (drop 64 m)"

definition Sum256 :: "char list \<Rightarrow> char list" where
  "Sum256 m =
     (let p = sha256_pad m
      in concat (map (\<lambda>x. be_bytes 4 (unat x)) (sha256_blocks (length p div 64) sha256_h p)))"

lemma sha256_pad_blocks: "64 dvd length (sha256_pad m)"
proof -
  define q k where "q = length m div 64" and "k = length m mod 64"
  have m: "length m = 64 * q + k" and k: "k < 64" by (simp_all add: q_def k_def)
  have "(119 - k) mod 64 = (if k \<le> 55 then 55 - k else 119 - k)"
  proof (cases "k \<le> 55")
    case True
    then have "119 - k = 55 - k + 1 * 64" by simp
    with True show ?thesis by (simp only: mod_mult_self1) simp
  qed (use k in simp)
  then have "length (sha256_pad m) = 64 * (if k \<le> 55 then q + 1 else q + 2)"
    using k by (simp add: sha256_pad_def be_bytes_def k_def [symmetric] m)
  then show ?thesis by simp
qed

lemma length_sha256_round: "length (sha256_round v kw) = 8"
  by (simp add: sha256_round_def Let_def)

lemma length_sha256_blocks: "length h = 8 \<Longrightarrow> length (sha256_blocks n h m) = 8"
proof (induction n h m rule: sha256_blocks.induct)
  case (2 n h m)
  have "length (fold (\<lambda>kw v. sha256_round v kw) xs h) = 8" for xs
    using 2(2) by (induction xs arbitrary: h) (simp_all add: length_sha256_round)
  with 2 show ?case by (simp add: sha256_block_def)
qed simp

text \<open>A digest has 32 bytes.\<close>

lemma length_Sum256 [simp]: "length (Sum256 m) = 32"
proof -
  have "length (concat (map (\<lambda>x. be_bytes 4 (unat x)) ws)) = 4 * length ws" for ws :: "u32 list"
    by (induction ws) (simp_all add: be_bytes_def)
  moreover have "length (sha256_blocks n sha256_h m') = 8" for n m'
    by (rule length_sha256_blocks) (simp add: sha256_h_def)
  ultimately show ?thesis by (simp add: Sum256_def Let_def)
qed

end
