(* ===== verification/Api_Keys.thy ===== *)
theory Api_Keys
  imports Database
begin

text \<open>
  The API keys of a tenant (\<^verbatim>\<open>internal/storage/api_keys.go\<close>): creation, listing, rotation and
  revocation of rows of \<^verbatim>\<open>api_keys\<close>. The audit insert that follows is outside the statement and its
  error is ignored; here it succeeds.
\<close>

definition CreateAPIKey ::
    "env \<Rightarrow> uuid \<Rightarrow> uuid \<Rightarrow> uuid option \<Rightarrow> string \<Rightarrow> string list \<Rightarrow> time option \<Rightarrow> string \<Rightarrow> db \<Rightarrow> (api_key_row \<times> db) res" where
  "CreateAPIKey e kid tenant user name scopes expires hash s =
     (if exists_row (\<lambda>k. ak_id k = kid \<or> ak_key_hash k = hash) (db_api_keys s)
      then Inl (ErrDB ''duplicate key value violates unique constraint (SQLSTATE 23505)'')
      else
        let k = \<lparr>ak_id = kid, ak_tenant_id = tenant, ak_name = name, ak_key_hash = hash, ak_scopes = scopes,
                 ak_expires_at = expires, ak_revoked_at = None, ak_last_used_at = None, ak_created_by = user,
                 ak_created_at = e_now e\<rparr>
        in Inr (k, insert_audit e tenant user ''api_key.create'' ''api_key'' kid
                     (JObj [(''name'', JStr name), (''scopes'', JArr (map JStr scopes))])
                     (s\<lparr>db_api_keys := db_api_keys s @ [k]\<rparr>)))"

definition ListAPIKeys :: "uuid \<Rightarrow> db \<Rightarrow> api_key_row list" where
  "ListAPIKeys tenant s =
     sort_key (\<lambda>k. - ak_created_at k) (select (\<lambda>k. ak_tenant_id k = tenant) (db_api_keys s))"

definition key_where :: "uuid \<Rightarrow> uuid \<Rightarrow> api_key_row \<Rightarrow> bool" where
  "key_where kid tenant k \<longleftrightarrow> ak_id k = kid \<and> ak_tenant_id k = tenant"

definition rotate_set :: "string \<Rightarrow> api_key_row \<Rightarrow> api_key_row" where
  "rotate_set hash k = k\<lparr>ak_key_hash := hash, ak_last_used_at := None, ak_revoked_at := None\<rparr>"

definition RotateAPIKey :: "env \<Rightarrow> uuid \<Rightarrow> uuid \<Rightarrow> uuid option \<Rightarrow> string \<Rightarrow> db \<Rightarrow> (api_key_row \<times> db) res" where
  "RotateAPIKey e kid tenant user hash s =
     (case query_row (key_where kid tenant) (db_api_keys s) of
        None \<Rightarrow> Inl ErrNotFound
      | Some k \<Rightarrow>
          if exists_row (\<lambda>k. ak_id k \<noteq> kid \<and> ak_key_hash k = hash) (db_api_keys s)
          then Inl (ErrDB ''duplicate key value violates unique constraint (SQLSTATE 23505)'')
          else Inr (rotate_set hash k,
                 insert_audit e tenant user ''api_key.rotate'' ''api_key'' kid (JObj [])
                   (s\<lparr>db_api_keys := update_where (key_where kid tenant) (rotate_set hash) (db_api_keys s)\<rparr>)))"

definition revoke_where :: "uuid \<Rightarrow> uuid \<Rightarrow> api_key_row \<Rightarrow> bool" where
  "revoke_where kid tenant k \<longleftrightarrow> key_where kid tenant k \<and> ak_revoked_at k = None"

definition RevokeAPIKey :: "env \<Rightarrow> uuid \<Rightarrow> uuid \<Rightarrow> uuid option \<Rightarrow> db \<Rightarrow> db res" where
  "RevokeAPIKey e kid tenant user s =
     (if rows_affected (revoke_where kid tenant) (db_api_keys s) = 0 then Inl ErrNotFound
      else Inr (insert_audit e tenant user ''api_key.revoke'' ''api_key'' kid (JObj [])
             (s\<lparr>db_api_keys := update_where (revoke_where kid tenant) (\<lambda>k. k\<lparr>ak_revoked_at := Some (e_now e)\<rparr>)
                                 (db_api_keys s)\<rparr>)))"

text \<open>The uniqueness constraints of the table.\<close>

definition keys_unique :: "db \<Rightarrow> bool" where
  "keys_unique s \<longleftrightarrow> distinct (map ak_id (db_api_keys s)) \<and> distinct (map ak_key_hash (db_api_keys s))"

section \<open>What a successful call did\<close>

lemma CreateAPIKey_Inr:
  assumes "CreateAPIKey e kid tenant user name scopes expires hash s = Inr (k, s')"
  shows "db_api_keys s' = db_api_keys s @ [k]" "ak_id k = kid" "ak_tenant_id k = tenant" "ak_key_hash k = hash"
    "ak_scopes k = scopes" "ak_expires_at k = expires" "ak_revoked_at k = None"
    "kid \<notin> ak_id ` set (db_api_keys s)" "hash \<notin> ak_key_hash ` set (db_api_keys s)"
  using assms by (auto simp: CreateAPIKey_def Let_def exists_row_iff split: if_splits)

lemma RotateAPIKey_Inr:
  assumes "RotateAPIKey e kid tenant user hash s = Inr (k', s')"
  obtains k where "k \<in> set (db_api_keys s)" "key_where kid tenant k" "k' = rotate_set hash k"
    "db_api_keys s' = update_where (key_where kid tenant) (rotate_set hash) (db_api_keys s)"
    "\<forall>k \<in> set (db_api_keys s). ak_id k = kid \<or> ak_key_hash k \<noteq> hash"
  using assms by (auto simp: RotateAPIKey_def exists_row_iff dest!: query_row_SomeD split: option.splits if_splits)

lemma RevokeAPIKey_Inr:
  assumes "RevokeAPIKey e kid tenant user s = Inr s'"
  shows "db_api_keys s' = update_where (revoke_where kid tenant) (\<lambda>k. k\<lparr>ak_revoked_at := Some (e_now e)\<rparr>) (db_api_keys s)"
    "\<exists>k \<in> set (db_api_keys s). revoke_where kid tenant k"
  using assms by (auto simp: RevokeAPIKey_def rows_affected_0_iff split: if_splits)

section \<open>The keys stay unique\<close>

lemma CreateAPIKey_unique:
  "CreateAPIKey e kid tenant user name scopes expires hash s = Inr (k, s') \<Longrightarrow> keys_unique s \<Longrightarrow> keys_unique s'"
  by (frule CreateAPIKey_Inr(8), frule CreateAPIKey_Inr(9), frule CreateAPIKey_Inr(1), frule CreateAPIKey_Inr(2),
      drule CreateAPIKey_Inr(4)) (auto simp: keys_unique_def)

lemma RevokeAPIKey_unique:
  "RevokeAPIKey e kid tenant user s = Inr s' \<Longrightarrow> keys_unique s \<Longrightarrow> keys_unique s'"
  by (drule RevokeAPIKey_Inr(1)) (simp add: keys_unique_def map_update_where)

lemma RotateAPIKey_unique:
  assumes "RotateAPIKey e kid tenant user hash s = Inr (k', s')" "keys_unique s"
  shows "keys_unique s'"
  using assms(1)
proof (rule RotateAPIKey_Inr)
  assume s': "db_api_keys s' = update_where (key_where kid tenant) (rotate_set hash) (db_api_keys s)"
    and other: "\<forall>k \<in> set (db_api_keys s). ak_id k = kid \<or> ak_key_hash k \<noteq> hash"
  have ids: "map ak_id (db_api_keys s') = map ak_id (db_api_keys s)" by (simp add: s' map_update_where rotate_set_def)
  have "distinct (map ak_key_hash (update_where (key_where kid tenant) (rotate_set hash) ks))"
    if "set ks \<subseteq> set (db_api_keys s)" "distinct (map ak_id ks)" "distinct (map ak_key_hash ks)" for ks
    using that
  proof (induction ks)
    case (Cons k ks)
    have fresh: "ak_key_hash (if key_where kid tenant k then rotate_set hash k else k) \<noteq>
        ak_key_hash (if key_where kid tenant x then rotate_set hash x else x)" if x: "x \<in> set ks" for x
    proof -
      have "ak_id k \<notin> ak_id ` set ks" "ak_key_hash k \<notin> ak_key_hash ` set ks" using Cons.prems(2,3) by simp_all
      with x have ne: "ak_id x \<noteq> ak_id k" "ak_key_hash x \<noteq> ak_key_hash k" by (metis imageI)+
      moreover have "ak_id x \<noteq> kid \<Longrightarrow> ak_key_hash x \<noteq> hash" "ak_id k \<noteq> kid \<Longrightarrow> ak_key_hash k \<noteq> hash"
        using other Cons.prems(1) x by auto
      ultimately show ?thesis by (auto simp: key_where_def rotate_set_def)
    qed
    have "ak_key_hash (if key_where kid tenant k then rotate_set hash k else k) \<notin>
        ak_key_hash ` set (update_where (key_where kid tenant) (rotate_set hash) ks)"
      using fresh unfolding image_iff bex_update_where by blast
    with Cons show ?case by simp
  qed simp
  with assms(2) ids show ?thesis by (simp add: keys_unique_def s')
qed

end
