(* ===== verification/Auth.thy ===== *)
theory Auth
  imports Api_Keys Go_Strings Sha256
begin

text \<open>
  Authentication and authorisation (\<^verbatim>\<open>internal/auth/auth.go\<close>): bearer tokens, API keys, OIDC
  identities, roles and scopes. The tenant of a principal is a uuid, its user an optional uuid
  (the empty \<^verbatim>\<open>UserID\<close> is \<open>None\<close>).

  Code outside the repository is a parameter, \<open>auth_lib\<close>: \<^verbatim>\<open>uuid.Parse\<close> and \<^verbatim>\<open>UUID.String\<close> of
  google/uuid, the text form of uuids that PostgreSQL accepts, and the verification of an OIDC
  token, which gives its claims.
\<close>

section \<open>Data\<close>

record principal =
  TenantID :: uuid
  UserID :: "uuid option"
  Role :: string
  Kind :: string
  Scopes :: "string list"

record auth_config =
  Dev :: bool
  DevPrincipal :: principal
  DevWorkerToken :: string
  Issuer :: string
  Audience :: string
  JWKSURL :: string
  TenantClaim :: string
  APIKeyPepper :: string

record auth_lib =
  lib_uuid_parse :: "string \<Rightarrow> uuid option"
  lib_uuid_string :: "uuid \<Rightarrow> string"
  lib_pg_uuid :: "string \<Rightarrow> uuid option"
  lib_verify :: "string \<Rightarrow> (string \<times> json) list res"

text \<open>
  A request, as the handlers read it: \<open>rq_header\<close> and \<open>rq_query\<close> are \<^verbatim>\<open>Get\<close> (empty when absent),
  \<open>rq_id\<close> is \<^verbatim>\<open>PathValue("id")\<close>, and \<open>rq_body\<close> what a JSON decoder reads from the body up to its end,
  \<open>None\<close> where it meets text that is not JSON or the limit of one megabyte.
\<close>

record request =
  rq_method :: string
  rq_path :: string
  rq_header :: "string \<Rightarrow> string"
  rq_query :: "string \<Rightarrow> string"
  rq_id :: string
  rq_body :: "json option list"

definition roleLevel :: "string \<Rightarrow> nat" where
  "roleLevel role =
     (if role = ''viewer'' then 1 else if role = ''operator'' then 2
      else if role = ''developer'' then 3 else if role = ''admin'' then 4 else 0)"

text \<open>\<^verbatim>\<open>New\<close>: the default of the tenant claim; there is a verifier exactly outside development.\<close>

definition auth_New :: "auth_config \<Rightarrow> auth_config" where
  "auth_New cfg = (if TenantClaim cfg = '''' then cfg\<lparr>TenantClaim := ''runmesh_tenant_id''\<rparr> else cfg)"

section \<open>Tokens\<close>

definition bearer :: "string \<Rightarrow> string" where
  "bearer header = (if \<not> HasPrefix header ''Bearer '' then '''' else TrimSpace (TrimPrefix header ''Bearer ''))"

fun first_bearer :: "string list \<Rightarrow> string" where
  "first_bearer [] = ''''"
| "first_bearer (p # ps) =
     (let protocol = TrimSpace p
      in if HasPrefix protocol ''bearer.'' then TrimPrefix protocol ''bearer.'' else first_bearer ps)"

definition webSocketBearer :: "string \<Rightarrow> string" where
  "webSocketBearer protocols = first_bearer (Split protocols CHR '','')"

definition HashAPIKey :: "string \<Rightarrow> string \<Rightarrow> char list" where
  "HashAPIKey token pepper = Sum256 (pepper @ [CHR 0x00] @ token)"

definition APIKeyID :: "auth_lib \<Rightarrow> string \<Rightarrow> string option" where
  "APIKeyID L token =
     (case SplitN token CHR ''_'' 3 of
        [p0, p1, p2] \<Rightarrow>
          if p0 \<noteq> ''rm'' then None
          else if lib_uuid_parse L p1 = None \<or> p2 = '''' then None
          else Some p1
      | _ \<Rightarrow> None)"

text \<open>\<open>secret\<close> is what \<^verbatim>\<open>rand.Read\<close> filled in, or its failure.\<close>

definition GenerateAPIKeyForID :: "auth_lib \<Rightarrow> string \<Rightarrow> string \<Rightarrow> char list option \<Rightarrow> (string \<times> char list) res" where
  "GenerateAPIKeyForID L kid pepper secret =
     (if lib_uuid_parse L kid = None then Inl (ErrDB ''invalid UUID'')
      else case secret of
             None \<Rightarrow> Inl (ErrDB ''rand'')
           | Some bytes \<Rightarrow>
               let token = ''rm_'' @ kid @ ''_'' @ RawURLEncode bytes
               in Inr (token, HashAPIKey token pepper))"

definition GenerateAPIKey :: "auth_lib \<Rightarrow> env \<Rightarrow> string \<Rightarrow> char list option \<Rightarrow> (string \<times> string \<times> char list) res" where
  "GenerateAPIKey L e pepper secret =
     (let kid = lib_uuid_string L (e_uuid e 0)
      in case GenerateAPIKeyForID L kid pepper secret of
           Inl er \<Rightarrow> Inl er
         | Inr (token, hash) \<Rightarrow> Inr (kid, token, hash))"

section \<open>Authentication\<close>

definition HasScope :: "principal \<Rightarrow> string \<Rightarrow> bool" where
  "HasScope p required \<longleftrightarrow> required \<in> set (Scopes p)"

definition authenticateAPIKey :: "auth_lib \<Rightarrow> auth_config \<Rightarrow> env \<Rightarrow> string \<Rightarrow> db \<Rightarrow> (principal \<times> db) res" where
  "authenticateAPIKey L cfg e raw s =
     (case APIKeyID L raw of
        None \<Rightarrow> Inl (ErrMsg ''malformed API key'')
      | Some idt \<Rightarrow>
          (case lib_pg_uuid L idt of
             None \<Rightarrow> Inl (ErrDB ''invalid input syntax for type uuid'')
           | Some kid \<Rightarrow>
               (case query_row (\<lambda>k. ak_id k = kid \<and> ak_revoked_at k = None) (db_api_keys s) of
                  None \<Rightarrow> Inl (ErrDB ''no rows in result set'')
                | Some k \<Rightarrow>
                    if HashAPIKey raw (APIKeyPepper cfg) \<noteq> ak_key_hash k \<or>
                       (case ak_expires_at k of None \<Rightarrow> False | Some t \<Rightarrow> \<not> t > e_gonow e)
                    then Inl (ErrMsg ''invalid API key'')
                    else Inr (\<lparr>TenantID = ak_tenant_id k, UserID = None, Role = ''viewer'', Kind = ''api_key'',
                               Scopes = ak_scopes k\<rparr>,
                           s\<lparr>db_api_keys := update_where (\<lambda>k. ak_id k = kid) (\<lambda>k. k\<lparr>ak_last_used_at := Some (e_now e)\<rparr>)
                                             (db_api_keys s)\<rparr>))))"

definition claim_string :: "(string \<times> json) list \<Rightarrow> string \<Rightarrow> string" where
  "claim_string claims k = (case map_of claims k of Some (JStr v) \<Rightarrow> v | _ \<Rightarrow> '''')"

definition authenticateOIDC :: "auth_lib \<Rightarrow> auth_config \<Rightarrow> string \<Rightarrow> db \<Rightarrow> principal res" where
  "authenticateOIDC L cfg raw s =
     (if Dev cfg then Inl (ErrMsg ''OIDC is not configured'')
      else case lib_verify L raw of
             Inl er \<Rightarrow> Inl er
           | Inr claims \<Rightarrow>
               let subject = claim_string claims ''sub''; tenant = claim_string claims (TenantClaim cfg)
               in if subject = '''' \<or> tenant = '''' then Inl (ErrMsg ''required identity claims are missing'')
                  else case lib_pg_uuid L tenant of
                         None \<Rightarrow> Inl (ErrDB ''invalid input syntax for type uuid'')
                       | Some tid \<Rightarrow>
                           (case query_row (\<lambda>u. us_tenant_id u = tid \<and> us_oidc_subject u = subject) (db_users s) of
                              None \<Rightarrow> Inl (ErrDB ''no rows in result set'')
                            | Some u \<Rightarrow> Inr \<lparr>TenantID = us_tenant_id u, UserID = Some (us_id u), Role = us_role u,
                                            Kind = ''oidc'', Scopes = []\<rparr>))"

definition Authenticate :: "auth_lib \<Rightarrow> auth_config \<Rightarrow> env \<Rightarrow> string \<Rightarrow> db \<Rightarrow> (principal \<times> db) res" where
  "Authenticate L cfg e raw s =
     (if raw = '''' then Inl (ErrMsg ''missing bearer token'')
      else if HasPrefix raw ''rm_'' then authenticateAPIKey L cfg e raw s
      else case authenticateOIDC L cfg raw s of Inl er \<Rightarrow> Inl er | Inr p \<Rightarrow> Inr (p, s))"

text \<open>A refused worker credential keeps what the key lookup wrote (\<^verbatim>\<open>last_used_at\<close>): the state is always returned.\<close>

definition AuthenticateWorker :: "auth_lib \<Rightarrow> auth_config \<Rightarrow> env \<Rightarrow> string \<Rightarrow> db \<Rightarrow> principal res \<times> db" where
  "AuthenticateWorker L cfg e raw s =
     (if Dev cfg \<and> raw \<noteq> '''' \<and> raw = DevWorkerToken cfg
      then (Inr ((DevPrincipal cfg)\<lparr>Kind := ''development'', Scopes := [''workers:execute'']\<rparr>), s)
      else case Authenticate L cfg e raw s of
             Inl er \<Rightarrow> (Inl (ErrMsg ''worker scope is required''), s)
           | Inr (p, s') \<Rightarrow>
               if Kind p \<noteq> ''api_key'' \<or> \<not> HasScope p ''workers:execute''
               then (Inl (ErrMsg ''worker scope is required''), s')
               else (Inr p, s'))"

definition authenticateRequest :: "auth_lib \<Rightarrow> auth_config \<Rightarrow> env \<Rightarrow> request \<Rightarrow> db \<Rightarrow> (principal \<times> db) res" where
  "authenticateRequest L cfg e r s =
     (if Dev cfg then Inr ((DevPrincipal cfg)\<lparr>Kind := ''development''\<rparr>, s)
      else
        let t = bearer (rq_header r ''Authorization'');
            token = (if t = '''' \<and> rq_path r = ''/v1/stream''
                     then webSocketBearer (rq_header r ''Sec-WebSocket-Protocol'') else t)
        in Authenticate L cfg e token s)"

section \<open>Middleware\<close>

text \<open>An answer of the middleware: the status and the error text.\<close>

type_synonym refusal = "int \<times> string"

definition Middleware :: "auth_lib \<Rightarrow> auth_config \<Rightarrow> env \<Rightarrow> request \<Rightarrow> db \<Rightarrow> (refusal + principal) \<times> db" where
  "Middleware L cfg e r s =
     (case authenticateRequest L cfg e r s of
        Inl er \<Rightarrow> (Inl (401, ''unauthenticated''), s)
      | Inr (p, s') \<Rightarrow> (Inr p, s'))"

definition WorkerMiddleware :: "auth_lib \<Rightarrow> auth_config \<Rightarrow> env \<Rightarrow> request \<Rightarrow> db \<Rightarrow> (refusal + principal) \<times> db" where
  "WorkerMiddleware L cfg e r s =
     (case AuthenticateWorker L cfg e (bearer (rq_header r ''Authorization'')) s of
        (Inl er, s') \<Rightarrow> (Inl (401, ''invalid worker credential''), s')
      | (Inr p, s') \<Rightarrow> (Inr p, s'))"

text \<open>\<open>None\<close>: the wrapped handler runs.\<close>

definition Require :: "string \<Rightarrow> string \<Rightarrow> principal \<Rightarrow> refusal option" where
  "Require role scope p =
     (if Kind p = ''api_key''
      then (if \<not> HasScope p scope then Some (403, ''insufficient scope'') else None)
      else if roleLevel (Role p) < roleLevel role then Some (403, ''forbidden'') else None)"

definition RequireHumanRole :: "string \<Rightarrow> principal \<Rightarrow> refusal option" where
  "RequireHumanRole role p =
     (if Kind p = ''api_key'' \<or> roleLevel (Role p) < roleLevel role
      then Some (403, ''interactive administrator required'') else None)"

section \<open>Laws\<close>

lemma APIKeyID_token:
  assumes "CHR ''_'' \<notin> set kid" "lib_uuid_parse L kid \<noteq> None" "secret \<noteq> ''''"
  shows "APIKeyID L (''rm_'' @ kid @ ''_'' @ secret) = Some kid"
proof -
  have "SplitN (''rm_'' @ kid @ ''_'' @ secret) CHR ''_'' 3 = [''rm'', kid, secret]"
    using SplitN_first [of "CHR ''_''" "''rm''" "kid @ ''_'' @ secret" 1] SplitN_first [OF assms(1), of secret 0]
    by (simp add: numeral_3_eq_3)
  with assms show ?thesis by (simp add: APIKeyID_def)
qed

lemma authenticateAPIKey_Inr:
  assumes "authenticateAPIKey L cfg e raw s = Inr (p, s')"
  obtains idt kid k where "APIKeyID L raw = Some idt" "lib_pg_uuid L idt = Some kid" "k \<in> set (db_api_keys s)" "ak_id k = kid"
    "ak_revoked_at k = None" "ak_key_hash k = HashAPIKey raw (APIKeyPepper cfg)"
    "ak_expires_at k = None \<or> (\<exists>t. ak_expires_at k = Some t \<and> e_gonow e < t)"
    "TenantID p = ak_tenant_id k" "Scopes p = ak_scopes k" "Kind p = ''api_key''" "UserID p = None"
    "db_api_keys s' = update_where (\<lambda>k. ak_id k = kid) (\<lambda>k. k\<lparr>ak_last_used_at := Some (e_now e)\<rparr>) (db_api_keys s)"
  using assms by (auto simp: authenticateAPIKey_def dest!: query_row_SomeD split: option.splits if_splits)

lemma authenticateAPIKey_accepts:
  assumes "APIKeyID L raw = Some idt" "lib_pg_uuid L idt = Some kid" "distinct (map ak_id (db_api_keys s))"
    and k: "k \<in> set (db_api_keys s)" "ak_id k = kid" "ak_revoked_at k = None" "ak_key_hash k = HashAPIKey raw (APIKeyPepper cfg)"
      "ak_expires_at k = None \<or> (\<exists>t. ak_expires_at k = Some t \<and> e_gonow e < t)"
  shows "\<exists>p s'. authenticateAPIKey L cfg e raw s = Inr (p, s') \<and> TenantID p = ak_tenant_id k \<and> Scopes p = ak_scopes k \<and> Kind p = ''api_key''"
proof -
  have "query_row (\<lambda>k. ak_id k = kid \<and> ak_revoked_at k = None) (db_api_keys s) = Some k"
  proof (cases "query_row (\<lambda>k. ak_id k = kid \<and> ak_revoked_at k = None) (db_api_keys s)")
    case None
    with k show ?thesis by (auto simp: query_row_None_iff)
  next
    case (Some k')
    from query_row_SomeD [OF this] have "k' \<in> set (db_api_keys s)" "ak_id k' = ak_id k" using k(2) by auto
    with Some distinct_map_eq [OF assms(3) _ k(1)] show ?thesis by simp
  qed
  with assms(1,2) k(4,5) show ?thesis by (auto simp: authenticateAPIKey_def)
qed

lemma HasPrefix_rm: "HasPrefix (''rm_'' @ x) ''rm_''"
  by (simp add: HasPrefix_def)

end
