(* ===== verification/Artifacts.thy ===== *)
theory Artifacts
  imports Worker_Store Run_Store Go_Strings Sha256 Auth
begin

text \<open>
  Artifacts: the rows of \<^verbatim>\<open>artifacts\<close> (\<^verbatim>\<open>internal/storage/artifacts.go\<close>) and the manager that
  issues signed upload and download addresses and checks what was uploaded
  (\<^verbatim>\<open>internal/artifact/manager.go\<close>).

  The object store is outside the repository and is the parameter \<open>s3\<close>: signing, the size it
  reports for an object and the bytes it returns for it, each of which may fail. The size and the
  bytes are separate, since the object may be replaced between the two calls.
\<close>

section \<open>Rows\<close>

definition CreateArtifact ::
    "env \<Rightarrow> uuid \<Rightarrow> uuid \<Rightarrow> uuid option \<Rightarrow> string \<Rightarrow> string \<Rightarrow> string \<Rightarrow> string \<Rightarrow> int \<Rightarrow> string \<Rightarrow> uuid option \<Rightarrow> db \<Rightarrow>
     (artifact_row \<times> db) res" where
  "CreateArtifact e aid tenant user kind objectKey objectURI contentType sz checksum task s =
     (if kind \<notin> set [''input'', ''output'', ''log''] then Inl (ErrDB ''invalid input value for enum artifact_kind'')
      else if sz < 0 then Inl (ErrDB ''violates check constraint'')
      else if exists_row (\<lambda>a. ar_id a = aid \<or> ar_object_key a = objectKey \<or> ar_object_uri a = objectURI) (db_artifacts s)
      then Inl (ErrDB ''duplicate key value violates unique constraint (SQLSTATE 23505)'')
      else if (case task of None \<Rightarrow> False | Some tid \<Rightarrow> \<not> exists_row (\<lambda>t. tr_id t = tid) (db_tasks s))
      then Inl (ErrDB ''violates foreign key constraint'')
      else
        let a = \<lparr>ar_id = aid, ar_tenant_id = tenant, ar_kind = kind, ar_status = ArtifactPending, ar_object_key = objectKey,
                 ar_object_uri = objectURI, ar_content_type = contentType, ar_declared_size = sz, ar_size_bytes = None,
                 ar_checksum_sha256 = nullif_empty checksum, ar_workflow_run_id = None, ar_task_run_id = task,
                 ar_created_by = user, ar_ready_at = None, ar_created_at = e_now e\<rparr>
        in Inr (a, s\<lparr>db_artifacts := db_artifacts s @ [a]\<rparr>))"

text \<open>\<^verbatim>\<open>getArtifact\<close> appends its predicate to the condition on the tenant.\<close>

definition getArtifact :: "(artifact_row \<Rightarrow> bool) \<Rightarrow> uuid \<Rightarrow> db \<Rightarrow> artifact_row res" where
  "getArtifact predicate tenant s =
     (case query_row (\<lambda>a. ar_tenant_id a = tenant \<and> predicate a) (db_artifacts s) of
        None \<Rightarrow> Inl ErrNotFound
      | Some a \<Rightarrow> Inr a)"

definition GetArtifact :: "uuid \<Rightarrow> uuid \<Rightarrow> db \<Rightarrow> artifact_row res" where
  "GetArtifact tenant aid s = getArtifact (\<lambda>a. ar_id a = aid) tenant s"

definition GetArtifactByURI :: "uuid \<Rightarrow> string \<Rightarrow> db \<Rightarrow> artifact_row res" where
  "GetArtifactByURI tenant uri s = getArtifact (\<lambda>a. ar_object_uri a = uri) tenant s"

definition ready_where :: "uuid \<Rightarrow> uuid \<Rightarrow> int \<Rightarrow> artifact_row \<Rightarrow> bool" where
  "ready_where tenant aid sz a \<longleftrightarrow>
     ar_id a = aid \<and> ar_tenant_id a = tenant \<and> ar_status a = ArtifactPending \<and> ar_declared_size a = sz"

definition ready_set :: "time \<Rightarrow> int \<Rightarrow> artifact_row \<Rightarrow> artifact_row" where
  "ready_set now sz a = a\<lparr>ar_status := ArtifactReady, ar_size_bytes := Some sz, ar_ready_at := Some now\<rparr>"

definition CompleteArtifact :: "env \<Rightarrow> uuid \<Rightarrow> uuid \<Rightarrow> int \<Rightarrow> db \<Rightarrow> (artifact_row \<times> db) res" where
  "CompleteArtifact e tenant aid sz s =
     (case query_row (ready_where tenant aid sz) (db_artifacts s) of
        None \<Rightarrow> Inl ErrConflict
      | Some a \<Rightarrow> Inr (ready_set (e_now e) sz a,
          s\<lparr>db_artifacts := update_where (ready_where tenant aid sz) (ready_set (e_now e) sz) (db_artifacts s)\<rparr>))"

definition attach_run_where :: "uuid \<Rightarrow> uuid \<Rightarrow> artifact_row \<Rightarrow> bool" where
  "attach_run_where tenant aid a \<longleftrightarrow>
     ar_id a = aid \<and> ar_tenant_id a = tenant \<and> ar_status a = ArtifactReady \<and> ar_workflow_run_id a = None"

definition AttachArtifactToRun :: "uuid \<Rightarrow> uuid \<Rightarrow> uuid \<Rightarrow> db \<Rightarrow> db res" where
  "AttachArtifactToRun tenant aid run s =
     (if exists_row (attach_run_where tenant aid) (db_artifacts s) \<and> \<not> exists_row (\<lambda>r. wr_id r = run) (db_runs s)
      then Inl (ErrDB ''violates foreign key constraint'')
      else if rows_affected (attach_run_where tenant aid) (db_artifacts s) \<noteq> 1 then Inl ErrConflict
      else Inr (s\<lparr>db_artifacts := update_where (attach_run_where tenant aid) (\<lambda>a. a\<lparr>ar_workflow_run_id := Some run\<rparr>)
                                    (db_artifacts s)\<rparr>))"

section \<open>The manager\<close>

definition MaxArtifactBytes :: int where "MaxArtifactBytes = 100 * 2 ^ 20"

definition MaxLogBytes :: int where "MaxLogBytes = 10 * 2 ^ 20"

definition InlineThreshold :: int where "InlineThreshold = 256 * 2 ^ 10"

record s3 =
  s3_presign_put :: "bool \<Rightarrow> string \<Rightarrow> string \<Rightarrow> string \<Rightarrow> time \<Rightarrow> string + (string \<times> (string \<times> string list) list)"
  s3_presign_get :: "bool \<Rightarrow> string \<Rightarrow> string \<Rightarrow> time \<Rightarrow> string + string"
  s3_head :: "string \<Rightarrow> string \<Rightarrow> string + int option"
  s3_get :: "string \<Rightarrow> string \<Rightarrow> string + (string + char list)"

text \<open>\<open>mg_expiry\<close> is \<^verbatim>\<open>PresignExpiry\<close> in nanoseconds; \<^verbatim>\<open>New\<close> replaces 0 by fifteen minutes.\<close>

record manager =
  mg_bucket :: string
  mg_expiry :: time

definition manager_New :: "string \<Rightarrow> time \<Rightarrow> manager" where
  "manager_New bucket expiry = \<lparr>mg_bucket = bucket, mg_expiry = (if expiry = 0 then 15 * 60 * 1000000000 else expiry)\<rparr>"

record upload =
  up_artifact :: artifact_row
  up_url :: string
  up_headers :: "(string \<times> string) list"
  up_expires_at :: time

record download =
  dl_artifact :: artifact_row
  dl_url :: string
  dl_expires_at :: time

definition size_limit :: "string \<Rightarrow> int" where
  "size_limit kind = (if kind = ''log'' then MaxLogBytes else MaxArtifactBytes)"

text \<open>The checks before the row is written: the normalised checksum and content type, or the error.\<close>

definition upload_checks :: "string \<Rightarrow> string \<Rightarrow> int \<Rightarrow> string \<Rightarrow> (string \<times> string) res" where
  "upload_checks kind contentType sz checksum0 =
     (if kind \<noteq> ''input'' \<and> kind \<noteq> ''output'' \<and> kind \<noteq> ''log'' then Inl (ErrMsg ''invalid artifact kind'')
      else if sz < 0 \<or> sz > size_limit kind
      then Inl (ErrMsg (''artifact size exceeds '' @ (if kind = ''log'' then ''10485760'' else ''104857600'') @ '' bytes''))
      else
        let checksum = ToLower (TrimSpace checksum0)
        in if checksum \<noteq> '''' \<and> DecodeHex_length checksum \<noteq> Some 32
           then Inl (ErrMsg ''checksum_sha256 must be 64 hexadecimal characters'')
           else Inr (checksum, if contentType = '''' then ''application/octet-stream'' else contentType))"

definition object_key :: "auth_lib \<Rightarrow> uuid \<Rightarrow> string \<Rightarrow> uuid \<Rightarrow> string" where
  "object_key L tenant kind aid = lib_uuid_string L tenant @ ''/'' @ kind @ ''/'' @ lib_uuid_string L aid"

definition object_uri :: "string \<Rightarrow> string \<Rightarrow> string" where
  "object_uri bucket key = ''s3://'' @ bucket @ ''/'' @ key"

text \<open>
  \<open>internal\<close> chooses the endpoint the address is signed for. The row stays when signing fails, so the
  state is returned beside the result.
\<close>

definition createUpload ::
    "auth_lib \<Rightarrow> s3 \<Rightarrow> manager \<Rightarrow> bool \<Rightarrow> env \<Rightarrow> uuid \<Rightarrow> uuid option \<Rightarrow> string \<Rightarrow> string \<Rightarrow> int \<Rightarrow> string \<Rightarrow> uuid option \<Rightarrow> db \<Rightarrow>
     upload res \<times> db" where
  "createUpload L S m internal e tenant user kind contentType0 sz checksum0 task s =
     (case upload_checks kind contentType0 sz checksum0 of
        Inl er \<Rightarrow> (Inl er, s)
      | Inr (checksum, contentType) \<Rightarrow>
          (case (case task of None \<Rightarrow> Inr () | Some tid \<Rightarrow> TaskBelongsToTenant tid tenant s) of
             Inl er \<Rightarrow> (Inl er, s)
           | Inr _ \<Rightarrow>
               let aid = e_uuid e 0;
                   key = object_key L tenant kind aid;
                   uri = object_uri (mg_bucket m) key
               in case CreateArtifact e aid tenant user kind key uri contentType sz checksum task s of
                    Inl er \<Rightarrow> (Inl er, s)
                  | Inr (a, s') \<Rightarrow>
                      (case s3_presign_put S internal (mg_bucket m) key contentType (mg_expiry m) of
                         Inl er \<Rightarrow> (Inl (ErrMsg (''sign artifact upload: '' @ er)), s')
                       | Inr (url, sgn_headers) \<Rightarrow>
                           (Inr \<lparr>up_artifact = a, up_url = url,
                                 up_headers = map (\<lambda>(k, vs). (k, hd vs)) (filter (\<lambda>(k, vs). vs \<noteq> []) sgn_headers),
                                 up_expires_at = e_gonow e + mg_expiry m\<rparr>, s'))))"

definition CreateUpload where
  "CreateUpload L S m = createUpload L S m False"

definition CreateInternalUpload where
  "CreateInternalUpload L S m = createUpload L S m True"

definition Checksum :: "char list \<Rightarrow> string" where
  "Checksum bytes = EncodeHex (Sum256 bytes)"

text \<open>The comparison of the stored object with what was declared.\<close>

definition verify_object :: "s3 \<Rightarrow> manager \<Rightarrow> artifact_row \<Rightarrow> int res" where
  "verify_object S m a =
     (case s3_head S (mg_bucket m) (ar_object_key a) of
        Inl er \<Rightarrow> Inl (ErrMsg (''inspect uploaded artifact: '' @ er))
      | Inr len \<Rightarrow>
          if len \<noteq> Some (ar_declared_size a) then Inl ErrConflict
          else case ar_checksum_sha256 a of
                 None \<Rightarrow> Inr (ar_declared_size a)
               | Some cs \<Rightarrow>
                   if cs = '''' then Inr (ar_declared_size a)
                   else case s3_get S (mg_bucket m) (ar_object_key a) of
                          Inl er \<Rightarrow> Inl (ErrMsg (''verify artifact checksum: '' @ er))
                        | Inr (Inl er) \<Rightarrow> Inl (ErrMsg (''verify artifact checksum: '' @ er))
                        | Inr (Inr body) \<Rightarrow>
                            if Checksum (take (nat (ar_declared_size a + 1)) body) \<noteq> cs then Inl ErrConflict
                            else Inr (ar_declared_size a))"

definition manager_Complete :: "s3 \<Rightarrow> manager \<Rightarrow> env \<Rightarrow> uuid \<Rightarrow> uuid \<Rightarrow> db \<Rightarrow> (artifact_row \<times> db) res" where
  "manager_Complete S m e tenant aid s =
     (case GetArtifact tenant aid s of
        Inl er \<Rightarrow> Inl er
      | Inr a \<Rightarrow>
          if ar_status a = ArtifactReady then Inr (a, s)
          else case verify_object S m a of
                 Inl er \<Rightarrow> Inl er
               | Inr sz \<Rightarrow> CompleteArtifact e tenant aid sz s)"

text \<open>An argument that is not a URI is the text of an id.\<close>

definition download_of :: "auth_lib \<Rightarrow> s3 \<Rightarrow> manager \<Rightarrow> bool \<Rightarrow> env \<Rightarrow> uuid \<Rightarrow> string \<Rightarrow> db \<Rightarrow> download res" where
  "download_of L S m internal e tenant idOrURI s =
     (case (if HasPrefix idOrURI ''s3://'' then GetArtifactByURI tenant idOrURI s
            else case lib_pg_uuid L idOrURI of
                   None \<Rightarrow> Inl (ErrDB ''invalid input syntax for type uuid'')
                 | Some aid \<Rightarrow> GetArtifact tenant aid s) of
        Inl er \<Rightarrow> Inl er
      | Inr a \<Rightarrow>
          if ar_status a \<noteq> ArtifactReady then Inl ErrConflict
          else case s3_presign_get S internal (mg_bucket m) (ar_object_key a) (mg_expiry m) of
                 Inl er \<Rightarrow> Inl (ErrMsg (''sign artifact download: '' @ er))
               | Inr url \<Rightarrow> Inr \<lparr>dl_artifact = a, dl_url = url, dl_expires_at = e_gonow e + mg_expiry m\<rparr>)"

definition Download where
  "Download L S m = download_of L S m False"

definition DownloadInternal where
  "DownloadInternal L S m = download_of L S m True"

section \<open>Well-formed artifacts\<close>

text \<open>
  What holds of every row the program writes: a known kind, a size within the limit of that kind,
  a key and URI derived from tenant, kind and id, a checksum of 64 lower-case digits if there is
  one, and size and time of completion exactly when it is ready; only ready input artifacts are
  attached to runs.
\<close>

definition lower_hex :: "string \<Rightarrow> bool" where
  "lower_hex s \<longleftrightarrow> list_all (\<lambda>c. c \<in> set ''0123456789abcdef'') s"

definition artifact_ok :: "auth_lib \<Rightarrow> string \<Rightarrow> artifact_row \<Rightarrow> bool" where
  "artifact_ok L bucket a \<longleftrightarrow>
     ar_kind a \<in> set [''input'', ''output'', ''log''] \<and> 0 \<le> ar_declared_size a \<and> ar_declared_size a \<le> size_limit (ar_kind a) \<and>
     ar_object_key a = object_key L (ar_tenant_id a) (ar_kind a) (ar_id a) \<and>
     ar_object_uri a = object_uri bucket (ar_object_key a) \<and>
     (case ar_checksum_sha256 a of None \<Rightarrow> True | Some c \<Rightarrow> length c = 64 \<and> lower_hex c) \<and>
     (if ar_status a = ArtifactReady then ar_size_bytes a = Some (ar_declared_size a) \<and> ar_ready_at a \<noteq> None
      else ar_size_bytes a = None \<and> ar_ready_at a = None \<and> ar_workflow_run_id a = None)"

definition artifacts_ok :: "auth_lib \<Rightarrow> string \<Rightarrow> db \<Rightarrow> bool" where
  "artifacts_ok L bucket s \<longleftrightarrow> (\<forall>a \<in> set (db_artifacts s). artifact_ok L bucket a)"

lemma to_lower_hex: "is_hex (to_lower c) \<Longrightarrow> to_lower c \<in> set ''0123456789abcdef''"
proof -
  assume h: "is_hex (to_lower c)"
  have "to_lower c \<noteq> x" if "x \<in> set ''ABCDEF''" for x
  proof
    assume "to_lower c = x"
    with that have "of_char (to_lower c) \<in> {65 .. 90 :: nat}" by auto
    moreover have "of_char (char_of (of_char c + 32 :: nat)) = (of_char c + 32 :: nat)" if "of_char c \<in> {65 .. 90 :: nat}"
      using that by (simp add: of_char_of)
    ultimately show False by (auto simp: to_lower_def split: if_splits)
  qed
  with h show ?thesis by (auto simp: is_hex_def)
qed

lemma checksum_normal:
  "DecodeHex_length (ToLower s) = Some 32 \<Longrightarrow> length (ToLower s) = 64 \<and> lower_hex (ToLower s)"
  by (auto simp: DecodeHex_length_def ToLower_def lower_hex_def list_all_iff dest!: to_lower_hex split: if_splits)

lemma upload_checks_Inr:
  assumes "upload_checks kind ct sz cs0 = Inr (cs, ct')"
  shows "kind \<in> set [''input'', ''output'', ''log'']" "0 \<le> sz" "sz \<le> size_limit kind"
    "cs = '''' \<or> length cs = 64 \<and> lower_hex cs"
  using assms checksum_normal [of "TrimSpace cs0"] by (auto simp: upload_checks_def Let_def split: if_splits)

lemma CreateArtifact_Inr:
  assumes "CreateArtifact e aid tenant user kind key uri ct sz cs task s = Inr (a, s')"
  shows "s' = s\<lparr>db_artifacts := db_artifacts s @ [a]\<rparr>" "ar_id a = aid" "ar_tenant_id a = tenant" "ar_kind a = kind"
    "ar_object_key a = key" "ar_object_uri a = uri" "ar_declared_size a = sz" "ar_status a = ArtifactPending"
    "ar_checksum_sha256 a = nullif_empty cs" "ar_task_run_id a = task" "ar_size_bytes a = None" "ar_ready_at a = None"
    "ar_workflow_run_id a = None" "ar_content_type a = ct"
  using assms by (auto simp: CreateArtifact_def Let_def split: if_splits)

lemma artifacts_ok_update:
  assumes "artifacts_ok L b s" "\<And>a. a \<in> set (db_artifacts s) \<Longrightarrow> P a \<Longrightarrow> artifact_ok L b a \<Longrightarrow> artifact_ok L b (f a)"
    and "db_artifacts s' = update_where P f (db_artifacts s)"
  shows "artifacts_ok L b s'"
  using assms by (auto simp: artifacts_ok_def update_where_def)

lemma createUpload_ok:
  assumes "artifacts_ok L (mg_bucket m) s"
    and "createUpload L S m internal e tenant user kind ct sz cs task s = (r, s')"
  shows "artifacts_ok L (mg_bucket m) s'"
proof (cases "s' = s")
  case False
  with assms(2) obtain cs' ct' a where c: "upload_checks kind ct sz cs = Inr (cs', ct')"
    and a: "CreateArtifact e (e_uuid e 0) tenant user kind (object_key L tenant kind (e_uuid e 0))
        (object_uri (mg_bucket m) (object_key L tenant kind (e_uuid e 0))) ct' sz cs' task s = Inr (a, s')"
    by (auto simp: createUpload_def Let_def split: sum.splits prod.splits option.splits)
  note k = CreateArtifact_Inr [OF a]
  have "artifact_ok L (mg_bucket m) a"
    using upload_checks_Inr [OF c] k by (auto simp: artifact_ok_def nullif_empty_def split: if_splits)
  with assms(1) k(1) show ?thesis by (simp add: artifacts_ok_def)
qed (use assms in simp)

lemma CompleteArtifact_ok:
  "artifacts_ok L b s \<Longrightarrow> CompleteArtifact e tenant aid sz s = Inr (a, s') \<Longrightarrow> artifacts_ok L b s'"
  by (rule artifacts_ok_update [where P = "ready_where tenant aid sz" and f = "ready_set (e_now e) sz"])
    (auto simp: CompleteArtifact_def ready_where_def ready_set_def artifact_ok_def split: option.splits)

lemma manager_Complete_ok:
  "artifacts_ok L b s \<Longrightarrow> manager_Complete S m e tenant aid s = Inr (a, s') \<Longrightarrow> artifacts_ok L b s'"
  by (auto simp: manager_Complete_def intro: CompleteArtifact_ok split: sum.splits if_splits)

lemma AttachArtifactToRun_ok:
  "artifacts_ok L b s \<Longrightarrow> AttachArtifactToRun tenant aid run s = Inr s' \<Longrightarrow> artifacts_ok L b s'"
  by (rule artifacts_ok_update [where P = "attach_run_where tenant aid" and f = "\<lambda>a. a\<lparr>ar_workflow_run_id := Some run\<rparr>"])
    (auto simp: AttachArtifactToRun_def attach_run_where_def artifact_ok_def split: if_splits)

text \<open>What \<^verbatim>\<open>CreateRun\<close> does to artifacts: nothing, or it attaches a ready input artifact of the tenant.\<close>

lemma CreateRun_attaches:
  assumes "CreateRun e u user defid key input artifact s = Inr (x, s')"
  shows "db_artifacts s' = db_artifacts s \<or>
    (\<exists>aid rid. (\<exists>a \<in> set (db_artifacts s). ar_id a = aid \<and> ar_tenant_id a = u \<and> ar_status a = ArtifactReady) \<and>
       db_artifacts s' = update_where (attach_where aid) (\<lambda>a. a\<lparr>ar_workflow_run_id := Some rid\<rparr>) (db_artifacts s))"
proof (cases artifact)
  case None
  with assms show ?thesis by (auto simp: CreateRun_def Let_def split: if_splits option.splits sum.splits)
next
  case (Some aid)
  show ?thesis
  proof (cases "query_row (\<lambda>a. ar_id a = aid \<and> ar_tenant_id a = u \<and> ar_kind a = ''input'' \<and> ar_status a = ArtifactReady) (db_artifacts s)")
    case None
    with assms Some show ?thesis by (auto simp: CreateRun_def Let_def split: if_splits)
  next
    case q: (Some a)
    then have a: "\<exists>a \<in> set (db_artifacts s). ar_id a = aid \<and> ar_tenant_id a = u \<and> ar_status a = ArtifactReady" by (auto dest: query_row_SomeD)
    have "db_artifacts s' = db_artifacts s \<or>
        (\<exists>rid. db_artifacts s' = update_where (attach_where aid) (\<lambda>a. a\<lparr>ar_workflow_run_id := Some rid\<rparr>) (db_artifacts s))"
      using assms q Some by (auto simp: CreateRun_def Let_def split: if_splits option.splits sum.splits)
    with a show ?thesis by blast
  qed
qed

end
