(* ===== verification/Schedules.thy ===== *)
theory Schedules
  imports Scheduler
begin

text \<open>
  The statements by which the API creates, changes and deletes schedules
  (\<^verbatim>\<open>createSchedule\<close>, \<^verbatim>\<open>patchSchedule\<close> and \<^verbatim>\<open>deleteSchedule\<close> of \<^verbatim>\<open>internal/api/server.go\<close>); the handlers
  around them are in \<open>Http_Api\<close>.
\<close>

definition InsertSchedule ::
    "env \<Rightarrow> uuid \<Rightarrow> uuid \<Rightarrow> string \<Rightarrow> string \<Rightarrow> time \<Rightarrow> string \<Rightarrow> db \<Rightarrow> (uuid \<times> db) res" where
  "InsertSchedule e tenant defid cron timezone nextAt policy s =
     (if \<not> exists_row (\<lambda>w. wd_id w = defid \<and> wd_tenant_id w = tenant) (db_definitions s) then Inl ErrNotFound
      else if policy \<notin> set [''skip'', ''catch_up_once''] then Inl (ErrDB ''violates check constraint'')
      else Inr (e_uuid e 0,
             s\<lparr>db_schedules := db_schedules s @
                 [\<lparr>sc_id = e_uuid e 0, sc_tenant_id = tenant, sc_workflow_definition_id = defid, sc_cron_expression = cron,
                   sc_timezone = timezone, sc_next_execution_at = nextAt, sc_misfire_policy = policy, sc_enabled = True\<rparr>]\<rparr>))"

definition schedule_where :: "uuid \<Rightarrow> uuid \<Rightarrow> schedule_row \<Rightarrow> bool" where
  "schedule_where sid tenant c \<longleftrightarrow> sc_id c = sid \<and> sc_tenant_id c = tenant"

definition patch_set :: "bool option \<Rightarrow> time option \<Rightarrow> schedule_row \<Rightarrow> schedule_row" where
  "patch_set enabled nextAt c =
     c\<lparr>sc_enabled := (case enabled of None \<Rightarrow> sc_enabled c | Some b \<Rightarrow> b),
       sc_next_execution_at := (case nextAt of None \<Rightarrow> sc_next_execution_at c | Some t \<Rightarrow> t)\<rparr>"

definition PatchSchedule :: "uuid \<Rightarrow> uuid \<Rightarrow> bool option \<Rightarrow> time option \<Rightarrow> db \<Rightarrow> db res" where
  "PatchSchedule sid tenant enabled nextAt s =
     (if rows_affected (schedule_where sid tenant) (db_schedules s) = 0 then Inl ErrNotFound
      else Inr (s\<lparr>db_schedules := update_where (schedule_where sid tenant) (patch_set enabled nextAt) (db_schedules s)\<rparr>))"

definition DeleteSchedule :: "uuid \<Rightarrow> uuid \<Rightarrow> db \<Rightarrow> db res" where
  "DeleteSchedule sid tenant s =
     (if rows_affected (schedule_where sid tenant) (db_schedules s) = 0 then Inl ErrNotFound
      else Inr (s\<lparr>db_schedules := filter (\<lambda>c. \<not> schedule_where sid tenant c) (db_schedules s)\<rparr>))"

end
