(* ===== verification/System.thy ===== *)
theory System
  imports Progress Outbox Artifacts Schedules
begin

text \<open>
  The running system: API requests, worker calls, scheduler cycles and publishing passes as the
  labelled steps of one transition system on the database. A step is one call that returned
  without an error (a call that returns an error rolls back), apart from a scheduler cycle, whose
  committed parts stay even when it returns an error. \<open>reaches\<close> and the locale
  \<open>invariant_system\<close> are generic; the invariants of \<open>Task_Table\<close> and \<open>Progress\<close> hold in every
  state that the system reaches from a fresh installation, whatever the order of the calls, and
  every step refines the life of a task (\<open>Lifecycle\<close>).
\<close>

inductive reaches :: "('s \<Rightarrow> bool) \<Rightarrow> ('s \<Rightarrow> 'l \<Rightarrow> 's \<Rightarrow> bool) \<Rightarrow> 's \<Rightarrow> bool" for init step where
  start: "reaches init step s" if "init s"
| more: "reaches init step s'" if "reaches init step s" and "step s l s'"

locale invariant_system =
  fixes init :: "'s \<Rightarrow> bool" and step :: "'s \<Rightarrow> 'l \<Rightarrow> 's \<Rightarrow> bool" and inv :: "'s \<Rightarrow> bool"
  assumes init_inv: "init s \<Longrightarrow> inv s"
    and step_inv: "step s l s' \<Longrightarrow> inv s \<Longrightarrow> inv s'"
begin

lemma reaches_inv: "reaches init step s \<Longrightarrow> inv s"
  by (induction rule: reaches.induct) (auto intro: init_inv step_inv)

end

section \<open>Actions\<close>

datatype action =
    ACreateWorkflow env "string list" "string list" uuid "uuid option" string dag
  | ACreateVersion env "string list" "string list" uuid "uuid option" uuid dag
  | ACreateRun env uuid "uuid option" uuid string "json option" "uuid option"
  | ACancelRun env uuid "uuid option" uuid
  | ARetryRun env uuid "uuid option" uuid
  | AReplayDead env uuid "uuid option" uuid
  | ALease env uuid string time
  | AStart env uuid string
  | AHeartbeat env uuid string time
  | AComplete env uuid string "json option" string "string list"
  | AFail env uuid string failure
  | AWorkerHeartbeat env uuid string "string list" int "json option"
  | ATick sched_lib "nat \<Rightarrow> env" env env env "uuid \<Rightarrow> bool"
  | AAuthenticate auth_lib auth_config env string
  | ACreateAPIKey env uuid uuid "uuid option" string "string list" "time option" string
  | ARotateAPIKey env uuid uuid "uuid option" string
  | ARevokeAPIKey env uuid uuid "uuid option"
  | ACreateUpload auth_lib s3 manager bool env uuid "uuid option" string string int string "uuid option"
  | ACompleteArtifact s3 manager env uuid uuid
  | AAttachArtifact uuid uuid uuid
  | AInsertSchedule env uuid uuid string string time string
  | APatchSchedule uuid uuid "bool option" "time option"
  | ADeleteSchedule uuid uuid
  | APublish outbox_cfg "nat \<Rightarrow> env" "nat \<Rightarrow> uuid \<Rightarrow> bool" "nat \<Rightarrow> nat \<Rightarrow> err option" "nat \<Rightarrow> nat \<Rightarrow> time"

inductive step :: "db \<Rightarrow> action \<Rightarrow> db \<Rightarrow> bool" where
  create_workflow: "step s (ACreateWorkflow e o1 o2 tenant user name d) s'"
    if "CreateWorkflow e o1 o2 tenant user name d s = Inr (w, s')" and "map_orders d o1 o2"
| create_version: "step s (ACreateVersion e o1 o2 tenant user defid d) s'"
    if "CreateVersion e o1 o2 tenant user defid d s = Inr (w, s')" and "map_orders d o1 o2"
| create_run: "step s (ACreateRun e tenant user defid key input artifact) s'"
    if "CreateRun e tenant user defid key input artifact s = Inr ((r, c), s')" and "fresh e s"
| cancel_run: "step s (ACancelRun e tenant user rid) s'" if "CancelRun e tenant user rid s = Inr s'"
| retry_run: "step s (ARetryRun e tenant user rid) s'" if "RetryRun e tenant user rid s = Inr s'"
| replay_dead: "step s (AReplayDead e tenant user tid) s'" if "ReplayDead e tenant user tid s = Inr s'"
| lease: "step s (ALease e tid worker ttl) s'" if "LeaseTask e tid worker ttl s = Inr (x, s')"
| start: "step s (AStart e tid worker) s'" if "StartTask e tid worker s = Inr (x, s')"
| heartbeat: "step s (AHeartbeat e tid worker ttl) s'" if "HeartbeatTask e tid worker ttl s = Inr (y, s')"
| complete: "step s (AComplete e tid worker out artifact logs) s'"
    if "CompleteTask e tid worker out artifact logs s = Inr (x, s')"
| fail: "step s (AFail e tid worker f) s'" if "FailTask e tid worker f s = Inr (x, s')"
| worker_heartbeat: "step s (AWorkerHeartbeat e tenant worker handlers n meta) s'"
    if "WorkerHeartbeat e tenant worker handlers n meta s = Inr s'"
| tick: "step s (ATick L E e1 e2 e3 locked) s'"
    if "tick L E e1 e2 e3 locked s = (r, s')" and "fresh_seq E s"
| authenticate: "step s (AAuthenticate L cfg e raw) s'" if "Authenticate L cfg e raw s = Inr (p, s')"
| create_key: "step s (ACreateAPIKey e kid tenant user name scopes expires hash) s'"
    if "CreateAPIKey e kid tenant user name scopes expires hash s = Inr (k, s')"
| rotate_key: "step s (ARotateAPIKey e kid tenant user hash) s'" if "RotateAPIKey e kid tenant user hash s = Inr (k, s')"
| revoke_key: "step s (ARevokeAPIKey e kid tenant user) s'" if "RevokeAPIKey e kid tenant user s = Inr s'"
| create_upload: "step s (ACreateUpload L S m internal e tenant user kind ct sz cs task) s'"
    if "createUpload L S m internal e tenant user kind ct sz cs task s = (u, s')"
| complete_artifact: "step s (ACompleteArtifact S m e tenant aid) s'" if "manager_Complete S m e tenant aid s = Inr (a, s')"
| attach_artifact: "step s (AAttachArtifact tenant aid rid) s'" if "AttachArtifactToRun tenant aid rid s = Inr s'"
| insert_schedule: "step s (AInsertSchedule e tenant defid cron timezone nextAt policy) s'"
    if "InsertSchedule e tenant defid cron timezone nextAt policy s = Inr (i, s')"
| patch_schedule: "step s (APatchSchedule sid tenant enabled nextAt) s'" if "PatchSchedule sid tenant enabled nextAt s = Inr s'"
| delete_schedule: "step s (ADeleteSchedule sid tenant) s'" if "DeleteSchedule sid tenant s = Inr s'"
| publish: "step s (APublish cfg E lk pub acked) (s\<lparr>db_outbox := p_outbox p'\<rparr>)"
    if "publishBatch fuel cfg s E lk pub acked 0 \<lparr>p_outbox = db_outbox s, p_sent = [], p_live = []\<rparr> = Some (r, p')"

inductive_cases create_run_step: "step s (ACreateRun e tenant user defid key input artifact) s'"
inductive_cases complete_step: "step s (AComplete e tid worker out artifact logs) s'"

text \<open>
  A fresh installation has no workflow data; tenants, users, schedules, keys, artifacts and
  presence rows may exist.
\<close>

definition fresh_install :: "db \<Rightarrow> bool" where
  "fresh_install s \<longleftrightarrow> db_definitions s = [] \<and> db_runs s = [] \<and> db_tasks s = [] \<and> db_deps s = [] \<and>
     db_attempts s = [] \<and> db_outbox s = []"

abbreviation reachable :: "db \<Rightarrow> bool" where
  "reachable \<equiv> reaches fresh_install step"

text \<open>The events of a task's life that an action may cause.\<close>

fun events_of :: "action \<Rightarrow> task_event set" where
  "events_of (ACancelRun e tenant user rid) = {EvCancel}"
| "events_of (ARetryRun e tenant user rid) = {EvRetry}"
| "events_of (AReplayDead e tenant user tid) = {EvReplay, EvRebuild}"
| "events_of (ALease e tid worker ttl) = {EvLease}"
| "events_of (AStart e tid worker) = {EvStart}"
| "events_of (AComplete e tid worker out artifact logs) = {EvComplete, EvUnblock}"
| "events_of (AFail e tid worker f) = {EvSettle, EvCancel}"
| "events_of (ATick L E e1 e2 e3 locked) = {EvPromote, EvSettle, EvDispatch}"
| "events_of _ = {}"

text \<open>The administrative actions, which may move a task outside the transition table.\<close>

fun is_retry :: "action \<Rightarrow> bool" where
  "is_retry (ARetryRun e tenant user rid) = True"
| "is_retry _ = False"

fun is_replay :: "action \<Rightarrow> bool" where
  "is_replay (AReplayDead e tenant user tid) = True"
| "is_replay _ = False"

definition system_inv :: "db \<Rightarrow> bool" where
  "system_inv s \<longleftrightarrow> db_inv s \<and> progress_inv s"

section \<open>Keys, artifacts and schedules\<close>

text \<open>The calls on keys, artifacts and schedules leave the tables of workflows and runs alone.\<close>

definition same_core :: "db \<Rightarrow> db \<Rightarrow> bool" where
  "same_core s s' \<longleftrightarrow> db_definitions s' = db_definitions s \<and> db_runs s' = db_runs s \<and> db_tasks s' = db_tasks s \<and>
     db_deps s' = db_deps s \<and> db_attempts s' = db_attempts s \<and> db_outbox s' = db_outbox s"

lemma key_core:
  "Authenticate L cfg e raw s = Inr (p, s') \<Longrightarrow> same_core s s'"
  "CreateAPIKey e kid tenant user name scopes expires hash s = Inr (k, s') \<Longrightarrow> same_core s s'"
  "RotateAPIKey e kid tenant user hash s = Inr (k, s') \<Longrightarrow> same_core s s'"
  "RevokeAPIKey e kid tenant user s = Inr s' \<Longrightarrow> same_core s s'"
  by (auto simp: same_core_def Authenticate_def authenticateAPIKey_def CreateAPIKey_def RotateAPIKey_def RevokeAPIKey_def Let_def
      split: if_splits option.splits sum.splits)

lemma artifact_core:
  "createUpload L S m internal e tenant user kind ct sz cs task s = (u, s') \<Longrightarrow> same_core s s'"
  "manager_Complete S m e tenant aid s = Inr (a, s') \<Longrightarrow> same_core s s'"
  "AttachArtifactToRun tenant aid rid s = Inr s' \<Longrightarrow> same_core s s'"
  by (auto simp: same_core_def createUpload_def CreateArtifact_def manager_Complete_def CompleteArtifact_def AttachArtifactToRun_def Let_def
      split: if_splits option.splits sum.splits prod.splits)

lemma schedule_core:
  "InsertSchedule e tenant defid cron timezone nextAt policy s = Inr (i, s') \<Longrightarrow> same_core s s'"
  "PatchSchedule sid tenant enabled at' s = Inr s' \<Longrightarrow> same_core s s'"
  "DeleteSchedule sid tenant s = Inr s' \<Longrightarrow> same_core s s'"
  by (auto simp: same_core_def InsertSchedule_def PatchSchedule_def DeleteSchedule_def split: if_splits)

lemmas side_core = key_core artifact_core schedule_core

lemma core_db_inv: "same_core s s' \<Longrightarrow> db_inv s \<Longrightarrow> db_inv s'"
  by (simp add: same_core_def db_inv_def)

lemma core_progress: "same_core s s' \<Longrightarrow> progress_inv s \<Longrightarrow> progress_inv s'"
  by (simp add: same_core_def progress_inv_def)

lemma core_evolves: "same_core s s' \<Longrightarrow> evolves E (db_tasks s) (db_tasks s')"
  by (simp add: same_core_def)

lemma core_ids: "same_core s s' \<Longrightarrow> map tr_id (db_tasks s') = map tr_id (db_tasks s)"
  by (simp add: same_core_def)

section \<open>The invariants\<close>

lemma fresh_install_inv: "fresh_install s \<Longrightarrow> system_inv s"
  by (simp add: fresh_install_def system_inv_def db_inv_def keys_ok_def refs_ok_def deps_met_def wakeups_def runs_done_def
      leases_ok_def attempts_ok_def defs_ok_def progress_inv_def deps_wf_def open_runs_def dep_pairs_def)

lemma step_db_inv: "step s l s' \<Longrightarrow> db_inv s \<Longrightarrow> db_inv s'"
proof (induction rule: step.induct)
  case (tick L E e1 e2 e3 locked s r s')
  then show ?case using tick_inv [of s E L e1 e2 e3 locked] by simp
next
  case (publish fuel cfg s E lk pub acked r p')
  then show ?case by (simp add: db_inv_def)
qed (auto intro: CreateWorkflow_inv CreateVersion_inv CreateRun_inv CancelRun_inv RetryRun_inv ReplayDead_inv
       LeaseTask_inv StartTask_inv HeartbeatTask_inv CompleteTask_inv FailTask_inv WorkerHeartbeat_inv
       core_db_inv side_core)

text \<open>Creating a definition and worker presence do not touch runs, tasks and dependencies.\<close>

lemma CreateWorkflow_frame:
  assumes "CreateWorkflow e o1 o2 tenant user name d s = Inr (w, s')"
  shows "db_tasks s' = db_tasks s" "db_runs s' = db_runs s" "db_deps s' = db_deps s"
  using assms by (auto simp: CreateWorkflow_def Let_def split: option.splits if_splits)

lemma CreateVersion_frame:
  assumes "CreateVersion e o1 o2 tenant user defid d s = Inr (w, s')"
  shows "db_tasks s' = db_tasks s" "db_runs s' = db_runs s" "db_deps s' = db_deps s"
  using assms by (auto simp: CreateVersion_def Let_def split: option.splits if_splits list.splits)

lemma WorkerHeartbeat_frame:
  assumes "WorkerHeartbeat e tenant worker handlers n meta s = Inr s'"
  shows "db_tasks s' = db_tasks s" "db_runs s' = db_runs s" "db_deps s' = db_deps s"
  using assms by (auto simp: WorkerHeartbeat_def Let_def split: if_splits)

lemmas frames = CreateWorkflow_frame CreateVersion_frame WorkerHeartbeat_frame

lemma progress_frame:
  "progress_inv s \<Longrightarrow> db_tasks s' = db_tasks s \<Longrightarrow> db_runs s' = db_runs s \<Longrightarrow> db_deps s' = db_deps s \<Longrightarrow> progress_inv s'"
  by (simp add: progress_inv_def)

lemma step_progress: "step s l s' \<Longrightarrow> db_inv s \<Longrightarrow> progress_inv s \<Longrightarrow> progress_inv s'"
proof (induction rule: step.induct)
  case (tick L E e1 e2 e3 locked s r s')
  then show ?case using tick_progress [of s E L e1 e2 e3 locked] by simp
next
  case (publish fuel cfg s E lk pub acked r p')
  then show ?case by (simp add: progress_inv_def)
qed (auto intro: CreateRun_progress CancelRun_progress RetryRun_progress ReplayDead_progress
       LeaseTask_progress StartTask_progress HeartbeatTask_progress CompleteTask_progress FailTask_progress
       progress_frame frames core_progress side_core)

interpretation sys: invariant_system fresh_install step system_inv
  by unfold_locales (auto simp: system_inv_def intro: step_db_inv step_progress dest: fresh_install_inv [unfolded system_inv_def])

section \<open>Every step refines the life of a task\<close>

lemma step_evolves: "step s l s' \<Longrightarrow> db_inv s \<Longrightarrow> evolves (events_of l) (db_tasks s) (db_tasks s')"
proof (induction rule: step.induct)
  case (tick L E e1 e2 e3 locked s r s')
  then show ?case using tick_evolves [of s E L e1 e2 e3 locked] by simp
qed (simp_all add: frames CreateRun_evolves CancelRun_evolves RetryRun_evolves ReplayDead_evolves LeaseTask_evolves
       StartTask_evolves HeartbeatTask_evolves CompleteTask_evolves FailTask_evolves side_core core_evolves)

lemma events_no_rebuild: "\<not> is_replay l \<Longrightarrow> EvRebuild \<notin> events_of l"
  by (cases l) simp_all

lemma events_regular: "\<not> is_replay l \<Longrightarrow> \<not> is_retry l \<Longrightarrow> events_of l \<inter> {EvRetry, EvReplay, EvRebuild} = {}"
  by (cases l) simp_all

text \<open>The history from one state to another, without replays.\<close>

definition later :: "db \<Rightarrow> db \<Rightarrow> bool" where
  "later = (\<lambda>s s'. \<exists>l. step s l s' \<and> \<not> is_replay l)\<^sup>*\<^sup>*"

lemma later_inv:
  assumes "later s s'" "system_inv s"
  shows "system_inv s' \<and> evolves (- {EvRebuild}) (db_tasks s) (db_tasks s')"
  using assms(1) unfolding later_def
proof (induction rule: rtranclp_induct)
  case base
  show ?case using assms(2) by simp
next
  case (step u v)
  then obtain l where l: "step u l v" "\<not> is_replay l" by blast
  with step.IH have "evolves (events_of l) (db_tasks u) (db_tasks v)" by (simp add: step_evolves system_inv_def)
  then have "evolves (- {EvRebuild}) (db_tasks u) (db_tasks v)" by (rule evolves_mono) (use events_no_rebuild l(2) in blast)
  with step.IH sys.step_inv [OF l(1)] evolves_trans show ?case by blast
qed

section \<open>The attempt budget\<close>

lemma op_ids:
  "LeaseTask e tid worker ttl s = Inr (z, s') \<Longrightarrow> map tr_id (db_tasks s') = map tr_id (db_tasks s)"
  "StartTask e tid worker s = Inr (x, s') \<Longrightarrow> map tr_id (db_tasks s') = map tr_id (db_tasks s)"
  "HeartbeatTask e tid worker ttl s = Inr (y, s') \<Longrightarrow> map tr_id (db_tasks s') = map tr_id (db_tasks s)"
  "CompleteTask e tid worker out artifact logs s = Inr (x, s') \<Longrightarrow> map tr_id (db_tasks s') = map tr_id (db_tasks s)"
  "FailTask e tid worker f s = Inr (x, s') \<Longrightarrow> map tr_id (db_tasks s') = map tr_id (db_tasks s)"
  "CancelRun e tenant user rid s = Inr s' \<Longrightarrow> map tr_id (db_tasks s') = map tr_id (db_tasks s)"
  "RetryRun e tenant user rid s = Inr s' \<Longrightarrow> map tr_id (db_tasks s') = map tr_id (db_tasks s)"
proof -
  show "FailTask e tid worker f s = Inr (x, s') \<Longrightarrow> map tr_id (db_tasks s') = map tr_id (db_tasks s)"
    by (erule FailTask_Inr) (simp add: cancel.ids map_update_where settle_set_def)
qed (auto elim!: LeaseTask_Inr StartTask_Inr HeartbeatTask_Inr CompleteTask_Inr
      simp: lease.ids start.ids heartbeat.ids complete.ids unblock.ids cancel.ids retry.ids CancelRun_Inr(1) RetryRun_Inr(1))

lemma step_budgets:
  assumes "step s l s'" "\<not> is_replay l" "db_inv s" "budgets (db_tasks s)"
  shows "budgets (db_tasks s')"
proof -
  have old: "map tr_id (db_tasks s') = map tr_id (db_tasks s) \<Longrightarrow> budgets (db_tasks s')"
    using budgets_evolve [OF assms(4) step_evolves [OF assms(1,3)] events_no_rebuild [OF assms(2)]] db_invD(9) [OF assms(3)] by blast
  from assms(1) show ?thesis
  proof cases
    case (create_run e tenant user defid key input artifact r c)
    with CreateRun_budgets db_invD(8) [OF assms(3)] assms(4) show ?thesis by blast
  next
    case (tick L E e1 e2 e3 locked r)
    with tick_budgets [OF assms(3,4), of E L e1 e2 e3 locked] show ?thesis by simp
  qed (use assms(2,4) in \<open>auto intro!: old intro: op_ids core_ids side_core simp: frames\<close>)
qed

interpretation regular: invariant_system fresh_install "\<lambda>s l s'. step s l s' \<and> \<not> is_replay l"
    "\<lambda>s. system_inv s \<and> budgets (db_tasks s)"
proof
  show "fresh_install s \<Longrightarrow> system_inv s \<and> budgets (db_tasks s)" for s
    by (simp add: fresh_install_inv) (simp add: fresh_install_def budgets_def)
qed (auto simp: system_inv_def intro: step_db_inv step_progress step_budgets)

end
