(* ===== verification/Rpc.thy ===== *)
theory Rpc
  imports Artifacts Auth
begin

text \<open>
  The gRPC worker service (\<^verbatim>\<open>internal/rpc/worker.go\<close>). A call is given the values of its
  \<^verbatim>\<open>authorization\<close> metadata and the fields of its request; ids are text and are read by PostgreSQL.
  The environments \<open>es 0, es 1, ...\<close> are those of the statements of the call, in order. An answer
  comes with the state it leaves, since authentication records the use of a key even when the call
  is refused. The struct values of a request and a response are the JSON objects they carry.
\<close>

section \<open>Status\<close>

datatype code = Unauthenticated | Unavailable | PermissionDenied | FailedPrecondition | NotFound | Internal

type_synonym status = "code \<times> string"

type_synonym 'a reply = "(status + 'a) \<times> db"

definition err_text :: "err \<Rightarrow> string" where
  "err_text er = (case er of ErrNotFound \<Rightarrow> ''not found'' | ErrConflict \<Rightarrow> ''conflict'' | ErrLeaseLost \<Rightarrow> ''lease lost''
     | ErrMsg m \<Rightarrow> m | ErrDB m \<Rightarrow> m)"

definition rpcError :: "err \<Rightarrow> status" where
  "rpcError er =
     (if er = ErrLeaseLost \<or> er = ErrConflict then (FailedPrecondition, err_text er)
      else if er = ErrNotFound then (NotFound, err_text er)
      else (Internal, ''internal worker protocol error''))"

record task_snapshot =
  sn_id :: uuid
  sn_workflow_run_id :: uuid
  sn_task_key :: string
  sn_handler :: string
  sn_input :: json
  sn_attempt :: int
  sn_timeout_seconds :: int
  sn_status :: task_status
  sn_input_artifact_uri :: string

text \<open>Input that is not an object becomes the empty struct.\<close>

definition snapshot :: "task_row \<Rightarrow> string option \<Rightarrow> task_snapshot" where
  "snapshot t uri =
     \<lparr>sn_id = tr_id t, sn_workflow_run_id = tr_workflow_run_id t, sn_task_key = tr_task_key t, sn_handler = tr_handler t,
      sn_input = (case tr_input t of JObj kvs \<Rightarrow> JObj kvs | _ \<Rightarrow> JObj []), sn_attempt = tr_attempt_count t,
      sn_timeout_seconds = tr_timeout_seconds t, sn_status = tr_status t,
      sn_input_artifact_uri = (case uri of None \<Rightarrow> '''' | Some u \<Rightarrow> u)\<rparr>"

text \<open>A statement whose uuid parameter is given as text.\<close>

definition pg_id :: "auth_lib \<Rightarrow> string \<Rightarrow> (uuid \<Rightarrow> 'a res) \<Rightarrow> 'a res" where
  "pg_id L i f = (case lib_pg_uuid L i of None \<Rightarrow> Inl (ErrDB ''invalid input syntax for type uuid'') | Some u \<Rightarrow> f u)"

record worker_server =
  ws_auth :: auth_config
  ws_LeaseDuration :: time
  ws_Artifacts :: "(s3 \<times> manager) option"

section \<open>Authorisation\<close>

definition authorize :: "auth_lib \<Rightarrow> worker_server \<Rightarrow> env \<Rightarrow> string list \<Rightarrow> db \<Rightarrow> principal reply" where
  "authorize L w e vals s =
     (case vals of
        [v] \<Rightarrow>
          if \<not> HasPrefix v ''Bearer '' then (Inl (Unauthenticated, ''invalid worker credential''), s)
          else
            let token = TrimSpace (TrimPrefix v ''Bearer '')
            in if token = '''' then (Inl (Unauthenticated, ''invalid worker credential''), s)
               else (case AuthenticateWorker L (ws_auth w) e token s of
                       (Inl er, s') \<Rightarrow> (Inl (Unauthenticated, ''invalid worker credential''), s')
                     | (Inr p, s') \<Rightarrow> (Inr p, s'))
      | _ \<Rightarrow> (Inl (Unauthenticated, ''invalid worker credential''), s))"

definition rpc_authorizeTask :: "auth_lib \<Rightarrow> worker_server \<Rightarrow> env \<Rightarrow> string list \<Rightarrow> string \<Rightarrow> db \<Rightarrow> unit reply" where
  "rpc_authorizeTask L w e vals task s =
     (case authorize L w e vals s of
        (Inl er, s') \<Rightarrow> (Inl er, s')
      | (Inr p, s') \<Rightarrow>
          (case pg_id L task (\<lambda>tid. TaskBelongsToTenant tid (TenantID p) s') of
             Inl er \<Rightarrow> (Inl (rpcError er), s')
           | Inr u \<Rightarrow> (Inr u, s')))"

definition principalForActiveTask ::
    "auth_lib \<Rightarrow> worker_server \<Rightarrow> (nat \<Rightarrow> env) \<Rightarrow> string list \<Rightarrow> string \<Rightarrow> string \<Rightarrow> db \<Rightarrow> principal reply" where
  "principalForActiveTask L w es vals task worker s =
     (case authorize L w (es 0) vals s of
        (Inl er, s') \<Rightarrow> (Inl er, s')
      | (Inr p, s') \<Rightarrow>
          (case pg_id L task (\<lambda>tid. ActiveTaskLeaseBelongsToWorker (es 1) tid (TenantID p) worker s') of
             Inl er \<Rightarrow> (Inl (rpcError er), s')
           | Inr _ \<Rightarrow> (Inr p, s')))"

section \<open>Task calls\<close>

text \<open>The common ending: an error of the store is translated and changes nothing.\<close>

definition finish :: "('a \<times> db) res \<Rightarrow> ('a \<Rightarrow> 'b) \<Rightarrow> db \<Rightarrow> 'b reply" where
  "finish r f s = (case r of Inl er \<Rightarrow> (Inl (rpcError er), s) | Inr (a, s') \<Rightarrow> (Inr (f a), s'))"

definition Lease :: "auth_lib \<Rightarrow> worker_server \<Rightarrow> (nat \<Rightarrow> env) \<Rightarrow> string list \<Rightarrow> string \<Rightarrow> string \<Rightarrow> db \<Rightarrow> task_snapshot reply" where
  "Lease L w es vals task worker s =
     (case rpc_authorizeTask L w (es 0) vals task s of
        (Inl er, s') \<Rightarrow> (Inl er, s')
      | (Inr _, s') \<Rightarrow>
          finish (pg_id L task (\<lambda>tid. LeaseTask (es 1) tid worker (ws_LeaseDuration w) s')) (\<lambda>(t, uri). snapshot t uri) s')"

definition Start :: "auth_lib \<Rightarrow> worker_server \<Rightarrow> (nat \<Rightarrow> env) \<Rightarrow> string list \<Rightarrow> string \<Rightarrow> string \<Rightarrow> db \<Rightarrow> task_snapshot reply" where
  "Start L w es vals task worker s =
     (case rpc_authorizeTask L w (es 0) vals task s of
        (Inl er, s') \<Rightarrow> (Inl er, s')
      | (Inr _, s') \<Rightarrow> finish (pg_id L task (\<lambda>tid. StartTask (es 1) tid worker s')) (\<lambda>t. snapshot t None) s')"

definition Heartbeat :: "auth_lib \<Rightarrow> worker_server \<Rightarrow> (nat \<Rightarrow> env) \<Rightarrow> string list \<Rightarrow> string \<Rightarrow> string \<Rightarrow> db \<Rightarrow> (time \<times> bool) reply" where
  "Heartbeat L w es vals task worker s =
     (case rpc_authorizeTask L w (es 0) vals task s of
        (Inl er, s') \<Rightarrow> (Inl er, s')
      | (Inr _, s') \<Rightarrow> finish (pg_id L task (\<lambda>tid. HeartbeatTask (es 1) tid worker (ws_LeaseDuration w) s')) (\<lambda>x. x) s')"

text \<open>An artifact named by a completion: ready, of the right kind, and uploaded for this very task.\<close>

definition task_artifact :: "auth_lib \<Rightarrow> uuid \<Rightarrow> string \<Rightarrow> string \<Rightarrow> string \<Rightarrow> db \<Rightarrow> bool" where
  "task_artifact L tenant uri kind task s =
     (case GetArtifactByURI tenant uri s of
        Inl _ \<Rightarrow> False
      | Inr a \<Rightarrow> ar_status a = ArtifactReady \<and> ar_kind a = kind \<and>
          (case ar_task_run_id a of None \<Rightarrow> False | Some tid \<Rightarrow> lib_uuid_string L tid = task))"

definition rpc_Complete ::
    "auth_lib \<Rightarrow> worker_server \<Rightarrow> (nat \<Rightarrow> env) \<Rightarrow> string list \<Rightarrow> string \<Rightarrow> string \<Rightarrow> json option \<Rightarrow> string \<Rightarrow> string \<Rightarrow> db \<Rightarrow>
     task_snapshot reply" where
  "rpc_Complete L w es vals task worker output artifact log s =
     (case principalForActiveTask L w es vals task worker s of
        (Inl er, s') \<Rightarrow> (Inl er, s')
      | (Inr p, s') \<Rightarrow>
          if artifact \<noteq> '''' \<and> ws_Artifacts w = None then (Inl (Unavailable, ''artifact storage is not configured''), s')
          else if artifact \<noteq> '''' \<and> \<not> task_artifact L (TenantID p) artifact ''output'' task s'
          then (Inl (PermissionDenied, ''invalid output artifact''), s')
          else if log \<noteq> '''' \<and> \<not> task_artifact L (TenantID p) log ''log'' task s'
          then (Inl (PermissionDenied, ''invalid log artifact''), s')
          else
            let outputValue = (case output of None \<Rightarrow> JObj [] | Some j \<Rightarrow> j)
            in finish (pg_id L task (\<lambda>tid. CompleteTask (es 2) tid worker (Some outputValue) artifact [log] s'))
                 (\<lambda>t. snapshot t None) s')"

definition Fail :: "auth_lib \<Rightarrow> worker_server \<Rightarrow> (nat \<Rightarrow> env) \<Rightarrow> string list \<Rightarrow> string \<Rightarrow> string \<Rightarrow> failure \<Rightarrow> db \<Rightarrow> task_snapshot reply" where
  "Fail L w es vals task worker f s =
     (case rpc_authorizeTask L w (es 0) vals task s of
        (Inl er, s') \<Rightarrow> (Inl er, s')
      | (Inr _, s') \<Rightarrow> finish (pg_id L task (\<lambda>tid. FailTask (es 1) tid worker f s')) (\<lambda>t. snapshot t None) s')"

section \<open>Artifact calls\<close>

record upload_response =
  ur_artifact_id :: uuid
  ur_artifact_uri :: string
  ur_upload_url :: string
  ur_headers :: "(string \<times> string) list"
  ur_expires_at :: time

definition CreateArtifactUpload ::
    "auth_lib \<Rightarrow> worker_server \<Rightarrow> (nat \<Rightarrow> env) \<Rightarrow> string list \<Rightarrow> string \<Rightarrow> string \<Rightarrow> string \<Rightarrow> string \<Rightarrow> int \<Rightarrow> string \<Rightarrow> db \<Rightarrow>
     upload_response reply" where
  "CreateArtifactUpload L w es vals task worker kind contentType sz checksum s =
     (case ws_Artifacts w of
        None \<Rightarrow> (Inl (Unavailable, ''artifact storage is not configured''), s)
      | Some (S, m) \<Rightarrow>
          (case principalForActiveTask L w es vals task worker s of
             (Inl er, s') \<Rightarrow> (Inl er, s')
           | (Inr p, s') \<Rightarrow>
               (case lib_pg_uuid L task of
                  None \<Rightarrow> (Inl (rpcError (ErrDB ''invalid input syntax for type uuid'')), s')
                | Some tid \<Rightarrow>
                    (case CreateInternalUpload L S m (es 2) (TenantID p) (UserID p) kind contentType sz checksum (Some tid) s' of
                       (Inl er, s'') \<Rightarrow> (Inl (rpcError er), s'')
                     | (Inr u, s'') \<Rightarrow>
                         (Inr \<lparr>ur_artifact_id = ar_id (up_artifact u), ur_artifact_uri = ar_object_uri (up_artifact u),
                               ur_upload_url = up_url u, ur_headers = up_headers u, ur_expires_at = up_expires_at u\<rparr>, s'')))))"

definition CompleteArtifactUpload ::
    "auth_lib \<Rightarrow> worker_server \<Rightarrow> (nat \<Rightarrow> env) \<Rightarrow> string list \<Rightarrow> string \<Rightarrow> string \<Rightarrow> string \<Rightarrow> db \<Rightarrow> string reply" where
  "CompleteArtifactUpload L w es vals task worker artifact s =
     (case ws_Artifacts w of
        None \<Rightarrow> (Inl (Unavailable, ''artifact storage is not configured''), s)
      | Some (S, m) \<Rightarrow>
          (case principalForActiveTask L w es vals task worker s of
             (Inl er, s') \<Rightarrow> (Inl er, s')
           | (Inr p, s') \<Rightarrow>
               (case pg_id L artifact (\<lambda>aid. GetArtifact (TenantID p) aid s') of
                  Inl _ \<Rightarrow> (Inl (PermissionDenied, ''invalid task artifact''), s')
                | Inr pending \<Rightarrow>
                    if (case ar_task_run_id pending of None \<Rightarrow> True | Some tid \<Rightarrow> lib_uuid_string L tid \<noteq> task)
                    then (Inl (PermissionDenied, ''invalid task artifact''), s')
                    else finish (pg_id L artifact (\<lambda>aid. manager_Complete S m (es 2) (TenantID p) aid s')) ar_object_uri s')))"

definition GetArtifactDownload ::
    "auth_lib \<Rightarrow> worker_server \<Rightarrow> (nat \<Rightarrow> env) \<Rightarrow> string list \<Rightarrow> string \<Rightarrow> string \<Rightarrow> string \<Rightarrow> db \<Rightarrow> (string \<times> time) reply" where
  "GetArtifactDownload L w es vals task worker uri s =
     (case ws_Artifacts w of
        None \<Rightarrow> (Inl (Unavailable, ''artifact storage is not configured''), s)
      | Some (S, m) \<Rightarrow>
          (case principalForActiveTask L w es vals task worker s of
             (Inl er, s') \<Rightarrow> (Inl er, s')
           | (Inr p, s') \<Rightarrow>
               (case DownloadInternal L S m (es 2) (TenantID p) uri s' of
                  Inl er \<Rightarrow> (Inl (rpcError er), s')
                | Inr d \<Rightarrow> (Inr (dl_url d, dl_expires_at d), s'))))"

section \<open>What a call may touch\<close>

text \<open>Authentication writes the time of last use of keys and nothing else.\<close>

definition auth_frame :: "db \<Rightarrow> db \<Rightarrow> bool" where
  "auth_frame s s' \<longleftrightarrow> (\<exists>ks. s' = s\<lparr>db_api_keys := ks\<rparr> \<and>
     map (\<lambda>k. k\<lparr>ak_last_used_at := None\<rparr>) ks = map (\<lambda>k. k\<lparr>ak_last_used_at := None\<rparr>) (db_api_keys s))"

lemma auth_frame_refl [simp]: "auth_frame s s"
  by (auto simp: auth_frame_def intro!: exI [of _ "db_api_keys s"])

lemma auth_frame_tables:
  assumes "auth_frame s s'"
  shows "db_tasks s' = db_tasks s" "db_runs s' = db_runs s" "db_attempts s' = db_attempts s" "db_deps s' = db_deps s"
    "db_artifacts s' = db_artifacts s" "db_outbox s' = db_outbox s" "db_definitions s' = db_definitions s" "db_schedules s' = db_schedules s"
    "db_audit s' = db_audit s" "db_workers s' = db_workers s" "db_users s' = db_users s"
  using assms by (auto simp: auth_frame_def)

lemma auth_frame_used:
  "auth_frame s (s\<lparr>db_api_keys := update_where P (\<lambda>k. k\<lparr>ak_last_used_at := t\<rparr>) (db_api_keys s)\<rparr>)"
  unfolding auth_frame_def
  by (intro exI [of _ "update_where P (\<lambda>k. k\<lparr>ak_last_used_at := t\<rparr>) (db_api_keys s)"])
    (simp add: update_where_def)

lemma Authenticate_frame: "Authenticate L cfg e raw s = Inr (p, s') \<Longrightarrow> auth_frame s s'"
  by (auto simp: Authenticate_def authenticateAPIKey_def auth_frame_used split: if_splits option.splits sum.splits)

lemma AuthenticateWorker_frame: "AuthenticateWorker L cfg e raw s = (r, s') \<Longrightarrow> auth_frame s s'"
  by (auto simp: AuthenticateWorker_def dest: Authenticate_frame split: if_splits sum.splits prod.splits)

lemma authorize_frame: "authorize L w e vals s = (r, s') \<Longrightarrow> auth_frame s s'"
  by (auto simp: authorize_def Let_def dest: AuthenticateWorker_frame
      split: list.splits if_splits sum.splits prod.splits)

lemma rpc_authorizeTask_frame: "rpc_authorizeTask L w e vals task s = (r, s') \<Longrightarrow> auth_frame s s'"
  by (auto simp: rpc_authorizeTask_def dest: authorize_frame split: sum.splits prod.splits)

lemma principalForActiveTask_frame: "principalForActiveTask L w es vals task worker s = (r, s') \<Longrightarrow> auth_frame s s'"
  by (auto simp: principalForActiveTask_def dest: authorize_frame split: sum.splits prod.splits)

end
