(* ===== verification/Go_Json.thy ===== *)
theory Go_Json
  imports Go_Strings "HOL-Library.AList"
begin

text \<open>
  What the program uses of \<^verbatim>\<open>encoding/json\<close> to read requests, on parsed values, and the RFC 3339
  form in which instants are sent. A struct is filled field by field: names match regardless of
  case, an unknown name is an error, \<^verbatim>\<open>null\<close> leaves a field as it is (and makes a pointer, slice
  or map nil), and of a repeated field the last value counts.
\<close>

section \<open>Instants\<close>

text \<open>\<open>n\<close> digits at \<open>i\<close>, between \<open>lo\<close> and \<open>hi\<close>.\<close>

definition number_at :: "string \<Rightarrow> nat \<Rightarrow> nat \<Rightarrow> int \<Rightarrow> int \<Rightarrow> int option" where
  "number_at s i n lo hi =
     (let t = take n (drop i s); v = digits_value t
      in if length t = n \<and> list_all is_digit t \<and> lo \<le> v \<and> v \<le> hi then Some v else None)"

definition leap_year :: "int \<Rightarrow> bool" where
  "leap_year y \<longleftrightarrow> y mod 4 = 0 \<and> (y mod 100 \<noteq> 0 \<or> y mod 400 = 0)"

definition days_in :: "int \<Rightarrow> int \<Rightarrow> int" where
  "days_in y m = (if m = 2 then (if leap_year y then 29 else 28) else if m \<in> set [4, 6, 9, 11] then 30 else 31)"

text \<open>Days from 1 January of year 1.\<close>

definition day_number :: "int \<Rightarrow> int \<Rightarrow> int \<Rightarrow> int" where
  "day_number y m d =
     365 * (y - 1) + (y - 1) div 4 - (y - 1) div 100 + (y - 1) div 400 + sum_list (map (days_in y) [1 .. m - 1]) + (d - 1)"

text \<open>A fraction: its first nine digits, as nanoseconds.\<close>

definition split_fraction :: "string \<Rightarrow> int \<times> string" where
  "split_fraction s =
     (case s of
        c # d # r \<Rightarrow>
          if c = CHR ''.'' \<and> is_digit d
          then (let ds = takeWhile is_digit (d # r)
                in (digits_value (take 9 (ds @ replicate 9 CHR ''0'')), dropWhile is_digit (d # r)))
          else (0, s)
      | _ \<Rightarrow> (0, s))"

text \<open>The offset from UTC in seconds.\<close>

definition zone_offset :: "string \<Rightarrow> int option" where
  "zone_offset s =
     (if s = ''Z'' then Some 0
      else if length s = 6 \<and> s ! 0 \<in> set ''+-'' \<and> s ! 3 = CHR '':''
      then (case (number_at s 1 2 0 23, number_at s 4 2 0 59) of
              (Some h, Some m) \<Rightarrow> Some ((if s ! 0 = CHR ''-'' then - 1 else 1) * (h * 3600 + m * 60))
            | _ \<Rightarrow> None)
      else None)"

definition parse_rfc3339 :: "string \<Rightarrow> time option" where
  "parse_rfc3339 s =
     (case (number_at s 0 4 0 9999, number_at s 5 2 1 12, number_at s 8 2 1 31, number_at s 11 2 0 23, number_at s 14 2 0 59,
            number_at s 17 2 0 59) of
        (Some y, Some mo, Some d, Some h, Some mi, Some se) \<Rightarrow>
          if s ! 4 = CHR ''-'' \<and> s ! 7 = CHR ''-'' \<and> s ! 10 = CHR ''T'' \<and> s ! 13 = CHR '':'' \<and> s ! 16 = CHR '':'' \<and> d \<le> days_in y mo
          then (let (nanos, zone) = split_fraction (drop 19 s)
                in case zone_offset zone of
                     None \<Rightarrow> None
                   | Some off \<Rightarrow>
                       Some (((day_number y mo d - 719162) * 86400 + h * 3600 + mi * 60 + se - off) * 1000000000 + nanos))
          else None
      | _ \<Rightarrow> None)"

text \<open>\<^verbatim>\<open>time.Time{}\<close>: 1 January of year 1.\<close>

definition zero_time :: time where
  "zero_time = - 62135596800 * 1000000000"

section \<open>Fields\<close>

text \<open>The members of an object, when all of them are fields of the struct.\<close>

definition members :: "string list \<Rightarrow> json \<Rightarrow> (string \<times> json) list option" where
  "members names j =
     (case j of
        JNull \<Rightarrow> Some []
      | JObj kvs \<Rightarrow> if list_all (\<lambda>(k, v). ToLower k \<in> set names) kvs then Some (map (\<lambda>(k, v). (ToLower k, v)) kvs) else None
      | _ \<Rightarrow> None)"

fun fill :: "('a \<Rightarrow> json \<Rightarrow> 'a option) \<Rightarrow> 'a \<Rightarrow> json list \<Rightarrow> 'a option" where
  "fill dec a [] = Some a"
| "fill dec a (j # js) = (case dec a j of None \<Rightarrow> None | Some b \<Rightarrow> fill dec b js)"

definition field :: "('a \<Rightarrow> json \<Rightarrow> 'a option) \<Rightarrow> 'a \<Rightarrow> string \<Rightarrow> (string \<times> json) list \<Rightarrow> 'a option" where
  "field dec a name kvs = fill dec a (map snd (filter (\<lambda>(k, v). k = name) kvs))"

definition dec_string :: "string \<Rightarrow> json \<Rightarrow> string option" where
  "dec_string a j = (case j of JNull \<Rightarrow> Some a | JStr v \<Rightarrow> Some v | _ \<Rightarrow> None)"

definition dec_bool :: "bool \<Rightarrow> json \<Rightarrow> bool option" where
  "dec_bool a j = (case j of JNull \<Rightarrow> Some a | JBool v \<Rightarrow> Some v | _ \<Rightarrow> None)"

definition dec_int :: "int \<Rightarrow> json \<Rightarrow> int option" where
  "dec_int a j = (case j of JNull \<Rightarrow> Some a | JNum v \<Rightarrow> if - (2 ^ 63) \<le> v \<and> v < 2 ^ 63 then Some v else None | _ \<Rightarrow> None)"

definition dec_time :: "time \<Rightarrow> json \<Rightarrow> time option" where
  "dec_time a j = (case j of JNull \<Rightarrow> Some a | JStr v \<Rightarrow> parse_rfc3339 v | _ \<Rightarrow> None)"

definition dec_raw :: "json option \<Rightarrow> json \<Rightarrow> json option option" where
  "dec_raw a j = Some (Some j)"

text \<open>A pointer to a value with decoder \<open>dec\<close> and zero value \<open>z\<close>.\<close>

definition dec_ptr :: "('a \<Rightarrow> json \<Rightarrow> 'a option) \<Rightarrow> 'a \<Rightarrow> 'a option \<Rightarrow> json \<Rightarrow> 'a option option" where
  "dec_ptr dec z a j = (if j = JNull then Some None else map_option Some (dec (case a of None \<Rightarrow> z | Some x \<Rightarrow> x) j))"

fun dec_all :: "('a \<Rightarrow> json \<Rightarrow> 'a option) \<Rightarrow> 'a \<Rightarrow> json list \<Rightarrow> 'a list option" where
  "dec_all dec z [] = Some []"
| "dec_all dec z (j # js) =
     (case dec z j of None \<Rightarrow> None | Some x \<Rightarrow> (case dec_all dec z js of None \<Rightarrow> None | Some xs \<Rightarrow> Some (x # xs)))"

definition dec_list :: "('a \<Rightarrow> json \<Rightarrow> 'a option) \<Rightarrow> 'a \<Rightarrow> 'a list \<Rightarrow> json \<Rightarrow> 'a list option" where
  "dec_list dec z a j = (case j of JNull \<Rightarrow> Some [] | JArr js \<Rightarrow> dec_all dec z js | _ \<Rightarrow> None)"

text \<open>A map, as the list of its entries; a key that is there is overwritten.\<close>

fun dec_entries :: "('a \<Rightarrow> json \<Rightarrow> 'a option) \<Rightarrow> 'a \<Rightarrow> (string \<times> 'a) list \<Rightarrow> (string \<times> json) list \<Rightarrow> (string \<times> 'a) list option" where
  "dec_entries dec z m [] = Some m"
| "dec_entries dec z m ((k, j) # kvs) = (case dec z j of None \<Rightarrow> None | Some x \<Rightarrow> dec_entries dec z (AList.update k x m) kvs)"

definition dec_map :: "('a \<Rightarrow> json \<Rightarrow> 'a option) \<Rightarrow> 'a \<Rightarrow> (string \<times> 'a) list \<Rightarrow> json \<Rightarrow> (string \<times> 'a) list option" where
  "dec_map dec z m j = (case j of JNull \<Rightarrow> Some [] | JObj kvs \<Rightarrow> dec_entries dec z m kvs | _ \<Rightarrow> None)"

section \<open>Laws\<close>

lemma dec_entries_distinct:
  "dec_entries dec z m kvs = Some m' \<Longrightarrow> distinct (map fst m) \<Longrightarrow> distinct (map fst m')"
  by (induction dec z m kvs rule: dec_entries.induct) (auto simp: distinct_update split: option.splits)

lemma dec_map_distinct: "dec_map dec z m j = Some m' \<Longrightarrow> distinct (map fst m) \<Longrightarrow> distinct (map fst m')"
  by (auto simp: dec_map_def dest: dec_entries_distinct split: json.splits)

lemma fill_inv:
  assumes "fill dec a js = Some b" "P a" "\<And>a j b. P a \<Longrightarrow> dec a j = Some b \<Longrightarrow> P b"
  shows "P b"
  using assms(1,2) by (induction js arbitrary: a) (auto split: option.splits intro: assms(3))

text \<open>A decoded map has each key once.\<close>

lemma field_map_distinct: "field (dec_map dec z) [] name kvs = Some m \<Longrightarrow> distinct (map fst m)"
  unfolding field_def by (erule fill_inv [where P = "\<lambda>m. distinct (map fst m)"]) (auto intro: dec_map_distinct)

end
