(* ===== verification/Rate_Limit.thy ===== *)
theory Rate_Limit
  imports Auth Complex_Main
begin

text \<open>
  The per-tenant rate limiter (\<^verbatim>\<open>internal/ratelimit/limiter.go\<close>): the token bucket script that Redis
  runs atomically, \<^verbatim>\<open>Allow\<close> and the middleware. Redis keeps one bucket per tenant, which expires.
  Clock values are the microseconds of \<^verbatim>\<open>TIME\<close>; the script's numbers, floating point in Lua, are
  exact rationals here.
\<close>

section \<open>The script\<close>

record bucket =
  bk_tokens :: rat
  bk_updated :: int
  bk_expires :: int

text \<open>The stored bucket, unless its key has expired; \<open>now\<close> is in microseconds.\<close>

definition stored :: "int \<Rightarrow> bucket option \<Rightarrow> bucket option" where
  "stored now b = (case b of None \<Rightarrow> None | Some x \<Rightarrow> if now < bk_expires x then Some x else None)"

text \<open>The tokens at \<open>now\<close>: what was left, refilled at \<open>rate\<close> per second up to \<open>burst\<close>.\<close>

definition refill :: "int \<Rightarrow> int \<Rightarrow> int \<Rightarrow> bucket option \<Rightarrow> rat" where
  "refill rate burst now b =
     (let tokens = (case b of None \<Rightarrow> of_int burst | Some x \<Rightarrow> bk_tokens x);
          updated = (case b of None \<Rightarrow> now | Some x \<Rightarrow> bk_updated x)
      in min (of_int burst) (tokens + max 0 (of_int (now - updated) / 1000000) * of_int rate))"

definition lifetime :: "int \<Rightarrow> int \<Rightarrow> int" where
  "lifetime rate burst = 1000 * \<lceil>of_int burst / of_int rate * 2000 :: rat\<rceil>"

text \<open>The result is \<open>(allowed, remaining, retry_ms)\<close>.\<close>

definition tokenBucketScript :: "int \<Rightarrow> int \<Rightarrow> int \<Rightarrow> bucket option \<Rightarrow> (int \<times> int \<times> int) \<times> bucket" where
  "tokenBucketScript rate burst now b0 =
     (let b = stored now b0;
          tokens = refill rate burst now b;
          allowed = (if tokens \<ge> 1 then 1 else 0);
          retry_ms = (if tokens \<ge> 1 then 0 else \<lceil>(1 - tokens) / of_int rate * 1000\<rceil>);
          rest = (if tokens \<ge> 1 then tokens - 1 else tokens)
      in ((allowed, \<lfloor>rest\<rfloor>, retry_ms),
          \<lparr>bk_tokens = rest, bk_updated = now, bk_expires = now + lifetime rate burst\<rparr>))"

section \<open>The limiter\<close>

record limiter =
  lm_rate :: int
  lm_burst :: int
  lm_failOpen :: bool

record limit_result =
  Allowed :: bool
  Remaining :: int
  RetryAfter :: time

type_synonym buckets = "uuid \<Rightarrow> bucket option"

text \<open>\<open>now = None\<close>: Redis does not answer.\<close>

definition Allow :: "limiter \<Rightarrow> int option \<Rightarrow> uuid \<Rightarrow> buckets \<Rightarrow> (limit_result \<times> buckets) res" where
  "Allow l now tenant B =
     (case now of
        None \<Rightarrow> Inl (ErrDB ''redis unavailable'')
      | Some t \<Rightarrow>
          (let ((allowed, remaining, retry_ms), b) = tokenBucketScript (lm_rate l) (lm_burst l) t (B tenant)
           in Inr (\<lparr>Allowed = (allowed = 1), Remaining = remaining, RetryAfter = retry_ms * 1000000\<rparr>, B(tenant := Some b))))"

text \<open>\<^verbatim>\<open>Duration.Round\<close> of a non-negative duration to seconds rounds half up.\<close>

definition retry_seconds :: "time \<Rightarrow> int" where
  "retry_seconds d = max 1 ((d + 500000000) div 1000000000)"

datatype limit_answer = Pass "(string \<times> int) list" | LimiterUnavailable | TooManyRequests "(string \<times> int) list"

definition limit_Middleware :: "limiter \<Rightarrow> int option \<Rightarrow> principal \<Rightarrow> buckets \<Rightarrow> limit_answer \<times> buckets" where
  "limit_Middleware l now p B =
     (case Allow l now (TenantID p) B of
        Inl _ \<Rightarrow> (if lm_failOpen l then Pass [] else LimiterUnavailable, B)
      | Inr (r, B') \<Rightarrow>
          let headers = [(''RateLimit-Limit'', lm_burst l), (''RateLimit-Remaining'', Remaining r)]
          in (if \<not> Allowed r then TooManyRequests (headers @ [(''Retry-After'', retry_seconds (RetryAfter r))])
              else Pass headers, B'))"

section \<open>The expiry of a bucket changes nothing\<close>

definition bucket_ok :: "int \<Rightarrow> int \<Rightarrow> bucket \<Rightarrow> bool" where
  "bucket_ok rate burst b \<longleftrightarrow> 0 \<le> bk_tokens b \<and> bk_tokens b \<le> of_int burst \<and> bk_expires b = bk_updated b + lifetime rate burst"

text \<open>The script without expiry.\<close>

definition plain_script :: "int \<Rightarrow> int \<Rightarrow> int \<Rightarrow> bucket option \<Rightarrow> (int \<times> int \<times> int) \<times> bucket" where
  "plain_script rate burst now b =
     (let tokens = refill rate burst now b
      in if tokens \<ge> 1
         then ((1, \<lfloor>tokens - 1\<rfloor>, 0), \<lparr>bk_tokens = tokens - 1, bk_updated = now, bk_expires = now + lifetime rate burst\<rparr>)
         else ((0, \<lfloor>tokens\<rfloor>, \<lceil>(1 - tokens) / of_int rate * 1000\<rceil>),
               \<lparr>bk_tokens = tokens, bk_updated = now, bk_expires = now + lifetime rate burst\<rparr>))"

lemma lifetime_fills:
  assumes "1 \<le> rate" "bk_updated b + lifetime rate burst \<le> now" "bucket_ok rate burst b"
  shows "refill rate burst now (Some b) = of_int burst"
proof -
  define d where "d = (of_int (now - bk_updated b) :: rat)"
  have r: "1 \<le> (of_int rate :: rat)" using assms(1) by simp
  have b: "0 \<le> bk_tokens b" "bk_tokens b \<le> of_int burst" using assms(3) by (simp_all add: bucket_ok_def)
  define q where "q = (of_int burst / of_int rate :: rat)"
  have "q * 2000 \<le> of_int \<lceil>q * 2000\<rceil>" by (rule le_of_int_ceiling)
  moreover have "(of_int (1000 * \<lceil>q * 2000\<rceil>) :: rat) \<le> d"
    unfolding d_def q_def using assms(2) by (simp only: of_int_le_iff lifetime_def)
  then have "1000 * of_int \<lceil>q * 2000\<rceil> \<le> d" by simp
  ultimately have "q * 2000000 \<le> d" by linarith
  then have "of_int burst / of_int rate * 2000000 \<le> d" by (simp add: q_def)
  then have "of_int burst * 2 \<le> d / 1000000 * of_int rate" using r by (simp add: field_simps)
  moreover have "d / 1000000 * of_int rate \<le> max 0 (d / 1000000) * of_int rate" using r by (intro mult_right_mono) simp_all
  ultimately show ?thesis using b by (simp add: refill_def Let_def d_def min_def)
qed

lemma refill_bounds:
  assumes "1 \<le> rate" "0 \<le> burst" "\<forall>x. b = Some x \<longrightarrow> 0 \<le> bk_tokens x"
  shows "0 \<le> refill rate burst now b" "refill rate burst now b \<le> of_int burst"
  using assms by (auto simp: refill_def Let_def split: option.splits)

lemma stored_refill:
  assumes "1 \<le> rate" "\<forall>x. b = Some x \<longrightarrow> bucket_ok rate burst x"
  shows "refill rate burst now (stored now b) = refill rate burst now b"
proof (cases b)
  case (Some x)
  show ?thesis
  proof (cases "now < bk_expires x")
    case False
    with Some assms lifetime_fills [of rate x burst now] show ?thesis
      by (simp add: stored_def bucket_ok_def) (simp add: refill_def)
  qed (simp add: Some stored_def)
qed (simp add: stored_def)

lemma script_plain:
  assumes "1 \<le> rate" "\<forall>x. b = Some x \<longrightarrow> bucket_ok rate burst x"
  shows "tokenBucketScript rate burst now b = plain_script rate burst now b"
  using stored_refill [OF assms, where now = now] by (simp add: tokenBucketScript_def plain_script_def Let_def)

lemma script_ok:
  assumes "1 \<le> rate" "0 \<le> burst" "\<forall>x. b = Some x \<longrightarrow> bucket_ok rate burst x"
  shows "bucket_ok rate burst (snd (tokenBucketScript rate burst now b))"
proof -
  have "\<forall>x. stored now b = Some x \<longrightarrow> 0 \<le> bk_tokens x"
    using assms(3) by (auto simp: stored_def bucket_ok_def split: option.splits if_splits)
  note r = refill_bounds [OF assms(1,2) this, where now = now]
  then show ?thesis by (auto simp: tokenBucketScript_def Let_def bucket_ok_def)
qed

section \<open>The number of admitted requests\<close>

fun admitted :: "int \<Rightarrow> int \<Rightarrow> int list \<Rightarrow> bucket option \<Rightarrow> nat" where
  "admitted rate burst [] b = 0"
| "admitted rate burst (t # ts) b =
     (let ((allowed, _, _), b') = tokenBucketScript rate burst t b
      in (if allowed = 1 then 1 else 0) + admitted rate burst ts (Some b'))"

lemma admitted_bound:
  assumes "1 \<le> rate" "0 \<le> burst" "bucket_ok rate burst b" "sorted (bk_updated b # ts)" "ts \<noteq> []"
  shows "of_nat (admitted rate burst ts (Some b)) \<le> bk_tokens b + of_int (last ts - bk_updated b) / 1000000 * of_int rate"
  using assms(3-5)
proof (induction ts arbitrary: b)
  case (Cons t ts)
  define r where "r = refill rate burst t (Some b)"
  define b' where "b' = snd (tokenBucketScript rate burst t (Some b))"
  have ok: "bucket_ok rate burst b'" unfolding b'_def using script_ok [OF assms(1,2)] Cons.prems(1) by simp
  have s: "tokenBucketScript rate burst t (Some b) = plain_script rate burst t (Some b)"
    using script_plain [OF assms(1)] Cons.prems(1) by simp
  have t: "bk_updated b \<le> t" using Cons.prems(2) by simp
  have r: "r \<le> bk_tokens b + of_int (t - bk_updated b) / 1000000 * of_int rate"
    using t by (simp add: r_def refill_def Let_def)
  have step: "of_nat (admitted rate burst (t # ts) (Some b)) = r - bk_tokens b' + of_nat (admitted rate burst ts (Some b'))"
    using b'_def by (simp add: s plain_script_def r_def [symmetric] Let_def)
  have u: "bk_updated b' = t" by (simp add: b'_def s plain_script_def Let_def)
  show ?case
  proof (cases "ts = []")
    case True
    have "0 \<le> bk_tokens b'" using ok by (simp add: bucket_ok_def)
    with step r True show ?thesis by simp
  next
    case False
    have "sorted (bk_updated b' # ts)" using Cons.prems(2) by (simp add: u)
    from Cons.IH [OF ok this False]
    have "of_nat (admitted rate burst ts (Some b')) \<le> bk_tokens b' + of_int (last ts - t) / 1000000 * of_int rate" by (simp add: u)
    with step r have "of_nat (admitted rate burst (t # ts) (Some b)) \<le>
        bk_tokens b + (of_int (t - bk_updated b) / 1000000 * of_int rate + of_int (last ts - t) / 1000000 * of_int rate)" by simp
    also have "\<dots> = bk_tokens b + of_int (last ts - bk_updated b) / 1000000 * of_int rate" by (simp add: algebra_simps diff_divide_distrib)
    finally show ?thesis using False by simp
  qed
qed simp

text \<open>C38. The limiter enforces its rate: of any requests of a tenant between the clock values \<open>t\<close> and \<open>last\<close> at most
  \<open>burst + rate * (last - t)\<close> are admitted, whatever was stored before, counting expired buckets too.\<close>

theorem rate_enforced:
  assumes "1 \<le> rate" "1 \<le> burst" "sorted (t # ts)" "\<forall>x. b = Some x \<longrightarrow> bucket_ok rate burst x"
  shows "of_nat (admitted rate burst (t # ts) b) \<le> (of_int burst + of_int (last (t # ts) - t) / 1000000 * of_int rate :: rat)"
proof -
  define b' where "b' = snd (tokenBucketScript rate burst t b)"
  have ok: "bucket_ok rate burst b'" unfolding b'_def using script_ok [OF assms(1)] assms(2,4) by auto
  have s: "tokenBucketScript rate burst t b = plain_script rate burst t b" using script_plain [OF assms(1)] assms(4) by auto
  have u: "bk_updated b' = t" by (simp add: b'_def s plain_script_def Let_def)
  have r: "refill rate burst t b \<le> of_int burst" by (simp add: refill_def Let_def)
  have step: "of_nat (admitted rate burst (t # ts) b) = refill rate burst t b - bk_tokens b' + of_nat (admitted rate burst ts (Some b'))"
    using b'_def by (simp add: s plain_script_def Let_def)
  show ?thesis
  proof (cases "ts = []")
    case True
    have "0 \<le> bk_tokens b'" using ok by (simp add: bucket_ok_def)
    with step r True show ?thesis by simp
  next
    case False
    from admitted_bound [OF assms(1) _ ok _ False] assms(2,3) u
    have "of_nat (admitted rate burst ts (Some b')) \<le> bk_tokens b' + of_int (last ts - t) / 1000000 * of_int rate" by simp
    with step r False show ?thesis by simp
  qed
qed

theorem rate_enforced_witness:
  "of_nat (admitted 2 3 [0, 0, 0, 0, 500000] None) \<le> (3 + 1 :: rat) \<and> admitted 2 3 [0, 0, 0, 0, 500000] None = 4"
proof
  show "of_nat (admitted 2 3 [0, 0, 0, 0, 500000] None) \<le> (3 + 1 :: rat)"
    using rate_enforced [of 2 3 0 "[0, 0, 0, 500000]" None] by simp
  show "admitted 2 3 [0, 0, 0, 0, 500000] None = 4"
    by (simp add: tokenBucketScript_def stored_def refill_def lifetime_def Let_def)
qed

text \<open>C39. Expiring buckets is an optimisation: on every bucket that the script wrote, at any clock value, the script with
  expiry returns and stores what it would without it.\<close>

theorem expiry_unobservable:
  assumes "1 \<le> rate" "0 \<le> burst" "\<forall>x. b = Some x \<longrightarrow> bucket_ok rate burst x"
  shows "tokenBucketScript rate burst now b = plain_script rate burst now b \<and>
    bucket_ok rate burst (snd (tokenBucketScript rate burst now b))"
  using script_plain [OF assms(1,3)] script_ok [OF assms] by simp

theorem expiry_unobservable_witness:
  "(let b = snd (tokenBucketScript 2 3 0 None)
    in stored 9000000 (Some b) = None \<and> tokenBucketScript 2 3 9000000 (Some b) = plain_script 2 3 9000000 (Some b))"
proof -
  have ok: "bucket_ok 2 3 (snd (tokenBucketScript 2 3 0 None))" using expiry_unobservable [of 2 3 None 0] by auto
  have "stored 9000000 (Some (snd (tokenBucketScript 2 3 0 None))) = None"
    by (simp add: stored_def tokenBucketScript_def refill_def lifetime_def Let_def)
  with expiry_unobservable [of 2 3 "Some (snd (tokenBucketScript 2 3 0 None))" 9000000] ok show ?thesis by simp
qed

text \<open>C40. A refused client is told how long to wait: \<^verbatim>\<open>Retry-After\<close> is one second, and a request that comes at least that
  much later, the first one since, is admitted.\<close>

theorem retry_after_suffices:
  assumes "1 \<le> lm_rate l" "1 \<le> lm_burst l" "\<forall>x. B (TenantID p) = Some x \<longrightarrow> bucket_ok (lm_rate l) (lm_burst l) x"
    and "limit_Middleware l (Some now) p B = (TooManyRequests hs, B')" "now + 1000000 \<le> later"
  shows "(''Retry-After'', 1) \<in> set hs \<and> (\<exists>hs' B''. limit_Middleware l (Some later) p B' = (Pass hs', B''))"
proof -
  define r where "r = refill (lm_rate l) (lm_burst l) now (B (TenantID p))"
  have tok: "\<forall>x. B (TenantID p) = Some x \<longrightarrow> 0 \<le> bk_tokens x" using assms(3) by (auto simp: bucket_ok_def)
  have r0: "0 \<le> r" unfolding r_def using refill_bounds(1) [OF assms(1) _ tok] assms(2) by simp
  have s: "tokenBucketScript (lm_rate l) (lm_burst l) now (B (TenantID p)) = plain_script (lm_rate l) (lm_burst l) now (B (TenantID p))"
    by (rule script_plain [OF assms(1,3)])
  have r1: "r < 1"
    using assms(4) by (auto simp: limit_Middleware_def Allow_def s plain_script_def Let_def r_def [symmetric] split: if_splits)
  have rate: "1 \<le> (of_int (lm_rate l) :: rat)" using assms(1) by simp
  define b where "b = \<lparr>bk_tokens = r, bk_updated = now, bk_expires = now + lifetime (lm_rate l) (lm_burst l)\<rparr>"
  define ms where "ms = \<lceil>(1 - r) / of_int (lm_rate l) * 1000\<rceil>"
  have B': "B' = B(TenantID p := Some b)" and hs: "(''Retry-After'', retry_seconds (ms * 1000000)) \<in> set hs"
    using assms(4) r1 by (auto simp: limit_Middleware_def Allow_def s plain_script_def Let_def r_def [symmetric] b_def ms_def)
  have q: "0 < (1 - r) / of_int (lm_rate l)" "(1 - r) / of_int (lm_rate l) \<le> 1"
    using r0 r1 rate by (simp_all add: divide_simps)
  have "0 < ms" unfolding ms_def zero_less_ceiling using q(1) by (rule mult_pos_pos) simp
  moreover have "ms \<le> 1000" unfolding ms_def ceiling_le_iff using mult_right_mono [OF q(2), of 1000] by simp
  ultimately have "retry_seconds (ms * 1000000) = 1" by (simp add: retry_seconds_def)
  moreover have ok: "bucket_ok (lm_rate l) (lm_burst l) b" using r0 r1 assms(2) by (simp add: b_def bucket_ok_def)
  moreover have "1 \<le> refill (lm_rate l) (lm_burst l) later (Some b)"
  proof -
    have "(1 :: rat) \<le> of_int (later - now) / 1000000" using assms(5) by simp
    with rate have "1 * 1 \<le> of_int (later - now) / 1000000 * (of_int (lm_rate l) :: rat)" by (intro mult_mono) simp_all
    with r0 assms(2,5) show ?thesis by (simp add: refill_def Let_def b_def)
  qed
  ultimately show ?thesis
    using hs script_plain [OF assms(1), of "Some b" "lm_burst l" later]
    by (simp add: B' limit_Middleware_def Allow_def plain_script_def Let_def)
qed

theorem retry_after_suffices_witness:
  "\<exists>hs B'. limit_Middleware \<lparr>lm_rate = 1, lm_burst = 1, lm_failOpen = False\<rparr> (Some 0)
     \<lparr>TenantID = 9, UserID = None, Role = '''', Kind = '''', Scopes = []\<rparr>
     (\<lambda>_. Some \<lparr>bk_tokens = 0, bk_updated = 0, bk_expires = 2000000\<rparr>) = (TooManyRequests hs, B') \<and> (''Retry-After'', 1) \<in> set hs"
proof -
  obtain hs B' where m: "limit_Middleware \<lparr>lm_rate = 1, lm_burst = 1, lm_failOpen = False\<rparr> (Some 0)
     \<lparr>TenantID = 9, UserID = None, Role = '''', Kind = '''', Scopes = []\<rparr>
     (\<lambda>_. Some \<lparr>bk_tokens = 0, bk_updated = 0, bk_expires = 2000000\<rparr>) = (TooManyRequests hs, B')"
    by (simp add: limit_Middleware_def Allow_def tokenBucketScript_def stored_def refill_def Let_def)
  with retry_after_suffices [OF _ _ _ m, of 1000000] show ?thesis by (simp add: bucket_ok_def lifetime_def)
qed

end
