(* ===== verification/Http_Api.thy ===== *)
theory Http_Api
  imports Rpc Go_Json Schedules Rate_Limit
begin

text \<open>
  The HTTP API (\<^verbatim>\<open>internal/api/server.go\<close>): reading requests, the handlers, and their answers. Each
  handler of the code is a function of the request, the principal and the database that returns
  the response and the database it leaves. \<open>call\<close> collects what a handler reads besides: the
  server's fields, the outside code, the environments of its statements in order, the iteration
  orders of the map in a workflow, and the random bytes of a key.
\<close>

section \<open>Responses\<close>

record signed_attempt =
  sa_artifact_url :: string
  sa_log_url :: string

record signed_task =
  st_output_url :: string
  st_log_url :: string
  st_attempts :: "signed_attempt list"

record signed_run =
  sr_view :: run_view
  sr_input_url :: string
  sr_tasks :: "signed_task list"

datatype payload =
    NoBody
  | ErrorBody string
  | StatusBody string
  | DefinitionBody definition_row
  | DefinitionsBody "definition_row list"
  | RunBody run_row
  | RunsBody "run_row list"
  | RunViewBody signed_run
  | EventsBody "outbox_row list"
  | WorkersBody "worker_row list"
  | TasksBody "task_row list"
  | TaskBody task_row "string option"
  | LeaseBody time bool
  | KeysBody "api_key_row list"
  | KeyBody api_key_row string
  | ScheduleBody uuid
  | UploadBody upload
  | ArtifactBody artifact_row
  | DownloadBody download

record response =
  rs_status :: int
  rs_headers :: "(string \<times> string) list"
  rs_body :: payload

definition writeJSON :: "int \<Rightarrow> payload \<Rightarrow> response" where
  "writeJSON status v = \<lparr>rs_status = status, rs_headers = [(''Content-Type'', ''application/json'')], rs_body = v\<rparr>"

definition writeError :: "int \<Rightarrow> string \<Rightarrow> response" where
  "writeError status message = writeJSON status (ErrorBody message)"

definition writeHeader :: "int \<Rightarrow> response" where
  "writeHeader status = \<lparr>rs_status = status, rs_headers = [], rs_body = NoBody\<rparr>"

text \<open>No error the store returns is a \<^verbatim>\<open>json.SyntaxError\<close>: it unmarshals only what it stored.\<close>

definition handleErr :: "err \<Rightarrow> response" where
  "handleErr er =
     (case er of
        ErrNotFound \<Rightarrow> writeError 404 ''resource not found''
      | ErrConflict \<Rightarrow> writeError 409 ''operation conflicts with current state''
      | ErrLeaseLost \<Rightarrow> writeError 409 ''worker no longer owns this task''
      | _ \<Rightarrow>
          if contains (err_text er) ''workflow '' \<or> contains (err_text er) ''task '' \<or> contains (err_text er) ''required''
          then writeError 422 (err_text er)
          else writeError 500 ''internal server error'')"

section \<open>Requests\<close>

text \<open>
  \<^verbatim>\<open>decode\<close>: one JSON value that fits the destination and nothing after it. In the first message of
  the code the text of the decoder's error follows.
\<close>

definition decode :: "(json \<Rightarrow> 'a option) \<Rightarrow> request \<Rightarrow> response + 'a" where
  "decode dst r =
     (case rq_body r of
        [] \<Rightarrow> Inl (writeError 400 ''invalid JSON: EOF'')
      | None # _ \<Rightarrow> Inl (writeError 400 ''invalid JSON'')
      | Some j # rest \<Rightarrow>
          (case dst j of
             None \<Rightarrow> Inl (writeError 400 ''invalid JSON'')
           | Some x \<Rightarrow> if rest \<noteq> [] then Inl (writeError 400 ''request body must contain one JSON value'') else Inr x))"

definition zero_spec :: task_spec where
  "zero_spec = \<lparr>Handler = '''', DependsOn = [], MaximumAttempts = 0, TimeoutSeconds = 0, Priority = 0\<rparr>"

definition dec_spec :: "task_spec \<Rightarrow> json \<Rightarrow> task_spec option" where
  "dec_spec a j =
     (case members [''handler'', ''depends_on'', ''maximum_attempts'', ''timeout_seconds'', ''priority''] j of
        None \<Rightarrow> None
      | Some kvs \<Rightarrow>
          (case (field dec_string (Handler a) ''handler'' kvs, field (dec_list dec_string '''') (DependsOn a) ''depends_on'' kvs,
                 field dec_int (MaximumAttempts a) ''maximum_attempts'' kvs, field dec_int (TimeoutSeconds a) ''timeout_seconds'' kvs,
                 field dec_int (Priority a) ''priority'' kvs) of
             (Some h, Some ds, Some m, Some t, Some p) \<Rightarrow>
               Some \<lparr>Handler = h, DependsOn = ds, MaximumAttempts = m, TimeoutSeconds = t, Priority = p\<rparr>
           | _ \<Rightarrow> None))"

text \<open>\<^verbatim>\<open>workflowRequest\<close>.\<close>

definition dec_workflow :: "json \<Rightarrow> (string \<times> (string \<times> task_spec) list) option" where
  "dec_workflow j =
     (case members [''name'', ''tasks''] j of
        None \<Rightarrow> None
      | Some kvs \<Rightarrow>
          (case (field dec_string '''' ''name'' kvs, field (dec_map dec_spec zero_spec) [] ''tasks'' kvs) of
             (Some n, Some ts) \<Rightarrow> Some (n, ts)
           | _ \<Rightarrow> None))"

definition dec_run :: "json \<Rightarrow> (json option \<times> string) option" where
  "dec_run j =
     (case members [''input'', ''input_artifact_id''] j of
        None \<Rightarrow> None
      | Some kvs \<Rightarrow>
          (case (field dec_raw None ''input'' kvs, field dec_string '''' ''input_artifact_id'' kvs) of
             (Some i, Some a) \<Rightarrow> Some (i, a)
           | _ \<Rightarrow> None))"

text \<open>\<^verbatim>\<open>workerRequest\<close>: \<open>(worker_id, task_run_id)\<close>.\<close>

definition dec_worker :: "json \<Rightarrow> (string \<times> string) option" where
  "dec_worker j =
     (case members [''worker_id'', ''task_run_id''] j of
        None \<Rightarrow> None
      | Some kvs \<Rightarrow>
          (case (field dec_string '''' ''worker_id'' kvs, field dec_string '''' ''task_run_id'' kvs) of
             (Some w, Some t) \<Rightarrow> Some (w, t)
           | _ \<Rightarrow> None))"

definition dec_complete :: "json \<Rightarrow> (string \<times> json option \<times> string) option" where
  "dec_complete j =
     (case members [''worker_id'', ''output'', ''output_artifact_uri''] j of
        None \<Rightarrow> None
      | Some kvs \<Rightarrow>
          (case (field dec_string '''' ''worker_id'' kvs, field dec_raw None ''output'' kvs, field dec_string '''' ''output_artifact_uri'' kvs) of
             (Some w, Some out, Some uri) \<Rightarrow> Some (w, out, uri)
           | _ \<Rightarrow> None))"

definition dec_fail :: "json \<Rightarrow> (string \<times> failure) option" where
  "dec_fail j =
     (case members [''worker_id'', ''retryable'', ''error_type'', ''error_message'', ''trace_id''] j of
        None \<Rightarrow> None
      | Some kvs \<Rightarrow>
          (case (field dec_string '''' ''worker_id'' kvs, field dec_bool False ''retryable'' kvs, field dec_string '''' ''error_type'' kvs,
                 field dec_string '''' ''error_message'' kvs, field dec_string '''' ''trace_id'' kvs) of
             (Some w, Some r, Some ty, Some m, Some tr) \<Rightarrow>
               Some (w, \<lparr>Retryable = r, ErrorType = ty, ErrorMessage = m, TraceID = tr\<rparr>)
           | _ \<Rightarrow> None))"

text \<open>\<open>None\<close> is the nil slice.\<close>

definition dec_heartbeat :: "json \<Rightarrow> (string list option \<times> int \<times> json option) option" where
  "dec_heartbeat j =
     (case members [''handlers'', ''active_tasks'', ''metadata''] j of
        None \<Rightarrow> None
      | Some kvs \<Rightarrow>
          (case (field (dec_ptr (dec_list dec_string '''') []) None ''handlers'' kvs, field dec_int 0 ''active_tasks'' kvs,
                 field dec_raw None ''metadata'' kvs) of
             (Some h, Some n, Some m) \<Rightarrow> Some (h, n, m)
           | _ \<Rightarrow> None))"

record upload_request =
  uq_kind :: string
  uq_content_type :: string
  uq_size_bytes :: int
  uq_checksum :: string
  uq_task_run_id :: "string option"
  uq_worker_id :: string

definition dec_upload :: "json \<Rightarrow> upload_request option" where
  "dec_upload j =
     (case members [''kind'', ''content_type'', ''size_bytes'', ''checksum_sha256'', ''task_run_id'', ''worker_id''] j of
        None \<Rightarrow> None
      | Some kvs \<Rightarrow>
          (case (field dec_string '''' ''kind'' kvs, field dec_string '''' ''content_type'' kvs, field dec_int 0 ''size_bytes'' kvs,
                 field dec_string '''' ''checksum_sha256'' kvs, field (dec_ptr dec_string '''') None ''task_run_id'' kvs,
                 field dec_string '''' ''worker_id'' kvs) of
             (Some k, Some c, Some n, Some h, Some t, Some w) \<Rightarrow>
               Some \<lparr>uq_kind = k, uq_content_type = c, uq_size_bytes = n, uq_checksum = h, uq_task_run_id = t, uq_worker_id = w\<rparr>
           | _ \<Rightarrow> None))"

definition dec_key :: "json \<Rightarrow> (string \<times> string list \<times> time option) option" where
  "dec_key j =
     (case members [''name'', ''scopes'', ''expires_at''] j of
        None \<Rightarrow> None
      | Some kvs \<Rightarrow>
          (case (field dec_string '''' ''name'' kvs, field (dec_list dec_string '''') [] ''scopes'' kvs,
                 field (dec_ptr dec_time zero_time) None ''expires_at'' kvs) of
             (Some n, Some ss, Some t) \<Rightarrow> Some (n, ss, t)
           | _ \<Rightarrow> None))"

record schedule_request =
  sq_workflow_definition_id :: string
  sq_cron_expression :: string
  sq_timezone :: string
  sq_misfire_policy :: string
  sq_next_execution_at :: time

definition dec_schedule :: "json \<Rightarrow> schedule_request option" where
  "dec_schedule j =
     (case members [''workflow_definition_id'', ''cron_expression'', ''timezone'', ''misfire_policy'', ''next_execution_at''] j of
        None \<Rightarrow> None
      | Some kvs \<Rightarrow>
          (case (field dec_string '''' ''workflow_definition_id'' kvs, field dec_string '''' ''cron_expression'' kvs,
                 field dec_string '''' ''timezone'' kvs, field dec_string '''' ''misfire_policy'' kvs,
                 field dec_time zero_time ''next_execution_at'' kvs) of
             (Some w, Some c, Some tz, Some p, Some t) \<Rightarrow>
               Some \<lparr>sq_workflow_definition_id = w, sq_cron_expression = c, sq_timezone = tz, sq_misfire_policy = p,
                     sq_next_execution_at = t\<rparr>
           | _ \<Rightarrow> None))"

definition dec_patch :: "json \<Rightarrow> (bool option \<times> time option) option" where
  "dec_patch j =
     (case members [''enabled'', ''next_execution_at''] j of
        None \<Rightarrow> None
      | Some kvs \<Rightarrow>
          (case (field (dec_ptr dec_bool False) None ''enabled'' kvs, field (dec_ptr dec_time zero_time) None ''next_execution_at'' kvs) of
             (Some b, Some t) \<Rightarrow> Some (b, t)
           | _ \<Rightarrow> None))"

section \<open>Calls\<close>

record server =
  sv_LeaseDuration :: time
  sv_APIKeyPepper :: string
  sv_Artifacts :: "(s3 \<times> manager) option"
  sv_RateLimit :: "limiter option"
  sv_CORSAllowlist :: "string list"
  sv_auth :: auth_config
  sv_Live :: bool

text \<open>
  \<open>c_subscribed\<close> tells whether Redis accepted the subscription of a stream and \<open>c_upgraded\<close> what
  the websocket upgrader answered (101 when it took the connection over).
\<close>

record call =
  c_server :: server
  c_lib :: auth_lib
  c_sched :: sched_lib
  c_env :: "nat \<Rightarrow> env"
  c_orders :: "string list \<times> string list"
  c_secret :: "char list option"
  c_subscribed :: bool
  c_upgraded :: int

type_synonym handler = "call \<Rightarrow> principal \<Rightarrow> request \<Rightarrow> db \<Rightarrow> response \<times> db"

text \<open>\<^verbatim>\<open>if !decode(...) { return }\<close> and \<^verbatim>\<open>if handleErr(w, err) { return }\<close>.\<close>

definition decoded :: "response + 'a \<Rightarrow> db \<Rightarrow> ('a \<Rightarrow> response \<times> db) \<Rightarrow> response \<times> db" where
  "decoded d s f = (case d of Inl rsp \<Rightarrow> (rsp, s) | Inr x \<Rightarrow> f x)"

definition answer :: "('a \<times> db) res \<Rightarrow> ('a \<Rightarrow> response) \<Rightarrow> db \<Rightarrow> response \<times> db" where
  "answer r f s = (case r of Inl er \<Rightarrow> (handleErr er, s) | Inr (a, s') \<Rightarrow> (f a, s'))"

definition answer_db :: "db res \<Rightarrow> response \<Rightarrow> db \<Rightarrow> response \<times> db" where
  "answer_db r ok s = (case r of Inl er \<Rightarrow> (handleErr er, s) | Inr s' \<Rightarrow> (ok, s'))"

definition answer_read :: "'a res \<Rightarrow> ('a \<Rightarrow> response) \<Rightarrow> db \<Rightarrow> response \<times> db" where
  "answer_read r f s = (case r of Inl er \<Rightarrow> (handleErr er, s) | Inr a \<Rightarrow> (f a, s))"

section \<open>Workflows and runs\<close>

definition createWorkflow :: handler where
  "createWorkflow c p r s =
     decoded (decode dec_workflow r) s (\<lambda>(name, tasks).
       answer (CreateWorkflow (c_env c 1) (fst (c_orders c)) (snd (c_orders c)) (TenantID p) (UserID p) name
                 \<lparr>dag_Name = name, dag_Tasks = tasks\<rparr> s)
         (\<lambda>d. writeJSON 201 (DefinitionBody d)) s)"

text \<open>The DAG is validated before the id is used.\<close>

definition createVersion :: handler where
  "createVersion c p r s =
     decoded (decode dec_workflow r) s (\<lambda>(name, tasks).
       let d = \<lparr>dag_Name = '''', dag_Tasks = tasks\<rparr>; o1 = fst (c_orders c); o2 = snd (c_orders c)
       in answer (case ValidateDAG o1 o2 d of
                    Some er \<Rightarrow> Inl (dag_err er)
                  | None \<Rightarrow> pg_id (c_lib c) (rq_id r) (\<lambda>defid. CreateVersion (c_env c 1) o1 o2 (TenantID p) (UserID p) defid d s))
            (\<lambda>d. writeJSON 201 (DefinitionBody d)) s)"

definition listWorkflows :: handler where
  "listWorkflows c p r s = (writeJSON 200 (DefinitionsBody (ListWorkflows (TenantID p) s)), s)"

definition getWorkflow :: handler where
  "getWorkflow c p r s =
     answer_read (pg_id (c_lib c) (rq_id r) (\<lambda>defid. GetWorkflow (TenantID p) defid s)) (\<lambda>d. writeJSON 200 (DefinitionBody d)) s"

text \<open>\<^verbatim>\<open>CreateRun\<close> reads the artifact before it uses the id of the definition.\<close>

definition create_run_ids :: "call \<Rightarrow> principal \<Rightarrow> string \<Rightarrow> string \<Rightarrow> json \<Rightarrow> string \<Rightarrow> db \<Rightarrow> ((run_row \<times> bool) \<times> db) res" where
  "create_run_ids c p defid key input artifact s =
     (let run = (\<lambda>a. case lib_pg_uuid (c_lib c) defid of
                  Some d \<Rightarrow> CreateRun (c_env c 1) (TenantID p) (UserID p) d key (Some input) a s
                | None \<Rightarrow>
                    if (case a of None \<Rightarrow> False
                        | Some aid \<Rightarrow> \<not> exists_row (\<lambda>x. ar_id x = aid \<and> ar_tenant_id x = TenantID p \<and> ar_kind x = ''input'' \<and>
                                                        ar_status x = ArtifactReady) (db_artifacts s))
                    then Inl ErrNotFound else Inl (ErrDB ''invalid input syntax for type uuid''))
      in if artifact = '''' then run None else pg_id (c_lib c) artifact (\<lambda>aid. run (Some aid)))"

definition createRun :: handler where
  "createRun c p r s =
     (let key = TrimSpace (rq_header r ''Idempotency-Key'')
      in if key = '''' \<or> length key > 200 then (writeError 400 ''a valid Idempotency-Key header is required'', s)
         else
           decoded (decode dec_run r) s (\<lambda>(input0, artifact).
             let input = (case input0 of None \<Rightarrow> JObj [] | Some j \<Rightarrow> j)
             in (case input of
                   JObj kvs \<Rightarrow>
                     answer (create_run_ids c p (rq_id r) key input artifact s)
                       (\<lambda>(run, created).
                          \<lparr>rs_status = (if created then 201 else 200),
                           rs_headers = [(''Location'', ''/v1/runs/'' @ lib_uuid_string (c_lib c) (wr_id run)),
                                         (''Content-Type'', ''application/json'')],
                           rs_body = RunBody run\<rparr>) s
                 | _ \<Rightarrow> (writeError 422 ''input must be a JSON object'', s))))"

definition signed_url :: "call \<Rightarrow> s3 \<times> manager \<Rightarrow> uuid \<Rightarrow> string option \<Rightarrow> db \<Rightarrow> string" where
  "signed_url c am tenant uri s =
     (case uri of
        None \<Rightarrow> ''''
      | Some u \<Rightarrow> (case Download (c_lib c) (fst am) (snd am) (c_env c 1) tenant u s of Inl _ \<Rightarrow> '''' | Inr d \<Rightarrow> dl_url d))"

definition nonempty :: "string option \<Rightarrow> string option" where
  "nonempty uri = (if uri = Some '''' then None else uri)"

definition sign_run :: "call \<Rightarrow> uuid \<Rightarrow> run_view \<Rightarrow> db \<Rightarrow> signed_run" where
  "sign_run c tenant v s =
     (let url = (\<lambda>uri. case sv_Artifacts (c_server c) of None \<Rightarrow> '''' | Some am \<Rightarrow> signed_url c am tenant uri s)
      in \<lparr>sr_view = v, sr_input_url = url (wr_input_artifact_uri (rv_run v)),
          sr_tasks = map (\<lambda>t. \<lparr>st_output_url = url (tr_output_artifact_uri (tv_task t)), st_log_url = url (tv_log_artifact_uri t),
                               st_attempts = map (\<lambda>a. \<lparr>sa_artifact_url = url (nonempty (ta_artifact_uri a)),
                                                      sa_log_url = url (nonempty (ta_log_artifact_uri a))\<rparr>) (tv_attempts t)\<rparr>)
                       (rv_tasks v)\<rparr>)"

definition getRun :: handler where
  "getRun c p r s =
     answer_read (pg_id (c_lib c) (rq_id r) (\<lambda>rid. GetRun (TenantID p) rid s))
       (\<lambda>v. writeJSON 200 (RunViewBody (sign_run c (TenantID p) v s))) s"

definition listRuns :: handler where
  "listRuns c p r s = (writeJSON 200 (RunsBody (ListRuns (TenantID p) 50 s)), s)"

definition cancelRun :: handler where
  "cancelRun c p r s =
     answer_db (pg_id (c_lib c) (rq_id r) (\<lambda>rid. CancelRun (c_env c 1) (TenantID p) (UserID p) rid s)) (writeHeader 204) s"

definition retryRun :: handler where
  "retryRun c p r s =
     answer_db (pg_id (c_lib c) (rq_id r) (\<lambda>rid. RetryRun (c_env c 1) (TenantID p) (UserID p) rid s))
       (writeJSON 202 (StatusBody ''RUNNING'')) s"

definition events :: handler where
  "events c p r s =
     answer_read (pg_id (c_lib c) (rq_id r) (\<lambda>rid. Events (TenantID p) rid s)) (\<lambda>es. writeJSON 200 (EventsBody es)) s"

definition workers :: handler where
  "workers c p r s = (writeJSON 200 (WorkersBody (ListWorkers (TenantID p) s)), s)"

definition deadLetter :: handler where
  "deadLetter c p r s = (writeJSON 200 (TasksBody (DeadLetter (TenantID p) s)), s)"

definition replay :: handler where
  "replay c p r s =
     answer_db (pg_id (c_lib c) (rq_id r) (\<lambda>tid. ReplayDead (c_env c 1) (TenantID p) (UserID p) tid s))
       (writeJSON 202 (StatusBody ''READY'')) s"

section \<open>API keys\<close>

definition allowedAPIKeyScopes :: "string list" where
  "allowedAPIKeyScopes =
     [''workflows:read'', ''workflows:write'', ''runs:read'', ''runs:execute'', ''schedules:write'', ''workers:read'',
      ''workers:execute'', ''dead-letter:read'', ''dead-letter:replay'', ''artifacts:read'', ''artifacts:write'']"

fun scopes_ok :: "string list \<Rightarrow> string list \<Rightarrow> bool" where
  "scopes_ok seen [] = True"
| "scopes_ok seen (x # xs) = (if x \<notin> set allowedAPIKeyScopes \<or> x \<in> set seen then False else scopes_ok (x # seen) xs)"

definition listAPIKeys :: handler where
  "listAPIKeys c p r s = (writeJSON 200 (KeysBody (ListAPIKeys (TenantID p) s)), s)"

definition createAPIKey :: handler where
  "createAPIKey c p r s =
     decoded (decode dec_key r) s (\<lambda>(name0, scopes, expires).
       let name = TrimSpace name0; e = c_env c 1
       in if name = '''' \<or> length name > 100 \<or> scopes = [] then (writeError 422 ''name and at least one scope are required'', s)
          else if \<not> scopes_ok [] scopes then (writeError 422 ''invalid or duplicate API key scope'', s)
          else if (case expires of None \<Rightarrow> False | Some t \<Rightarrow> \<not> t > e_gonow e) then (writeError 422 ''expires_at must be in the future'', s)
          else case GenerateAPIKey (c_lib c) e (sv_APIKeyPepper (c_server c)) (c_secret c) of
                 Inl er \<Rightarrow> (handleErr er, s)
               | Inr (kid, token, hash) \<Rightarrow>
                   answer (pg_id (c_lib c) kid (\<lambda>k. CreateAPIKey (c_env c 2) k (TenantID p) (UserID p) name scopes expires hash s))
                     (\<lambda>key. writeJSON 201 (KeyBody key token)) s)"

definition rotateAPIKey :: handler where
  "rotateAPIKey c p r s =
     (if lib_uuid_parse (c_lib c) (rq_id r) = None then (writeError 400 ''invalid API key id'', s)
      else case GenerateAPIKeyForID (c_lib c) (rq_id r) (sv_APIKeyPepper (c_server c)) (c_secret c) of
             Inl er \<Rightarrow> (handleErr er, s)
           | Inr (token, hash) \<Rightarrow>
               answer (pg_id (c_lib c) (rq_id r) (\<lambda>k. RotateAPIKey (c_env c 1) k (TenantID p) (UserID p) hash s))
                 (\<lambda>key. writeJSON 200 (KeyBody key token)) s)"

definition revokeAPIKey :: handler where
  "revokeAPIKey c p r s =
     answer_db (pg_id (c_lib c) (rq_id r) (\<lambda>k. RevokeAPIKey (c_env c 1) k (TenantID p) (UserID p) s)) (writeHeader 204) s"

section \<open>Worker calls\<close>

definition authorizeTask :: "call \<Rightarrow> principal \<Rightarrow> request \<Rightarrow> db \<Rightarrow> unit res" where
  "authorizeTask c p r s = pg_id (c_lib c) (rq_id r) (\<lambda>tid. TaskBelongsToTenant tid (TenantID p) s)"

definition authorizeActiveTask :: "call \<Rightarrow> principal \<Rightarrow> string \<Rightarrow> string \<Rightarrow> db \<Rightarrow> unit res" where
  "authorizeActiveTask c p task worker s =
     pg_id (c_lib c) task (\<lambda>tid. ActiveTaskLeaseBelongsToWorker (c_env c 1) tid (TenantID p) worker s)"

text \<open>The checks that the task handlers share: a worker id, and a task of the tenant.\<close>

definition task_call :: "call \<Rightarrow> principal \<Rightarrow> request \<Rightarrow> string \<Rightarrow> db \<Rightarrow> (uuid \<Rightarrow> response \<times> db) \<Rightarrow> response \<times> db" where
  "task_call c p r worker s f =
     (if worker = '''' then (writeError 400 ''worker_id is required'', s)
      else case authorizeTask c p r s of
             Inl er \<Rightarrow> (handleErr er, s)
           | Inr _ \<Rightarrow>
               (case lib_pg_uuid (c_lib c) (rq_id r) of
                  None \<Rightarrow> (handleErr (ErrDB ''invalid input syntax for type uuid''), s)
                | Some tid \<Rightarrow> f tid))"

definition lease :: handler where
  "lease c p r s =
     decoded (decode dec_worker r) s (\<lambda>(worker, _).
       task_call c p r worker s (\<lambda>tid.
         answer (LeaseTask (c_env c 1) tid worker (sv_LeaseDuration (c_server c)) s) (\<lambda>(t, uri). writeJSON 200 (TaskBody t uri)) s))"

definition start :: handler where
  "start c p r s =
     decoded (decode dec_worker r) s (\<lambda>(worker, _).
       task_call c p r worker s (\<lambda>tid.
         answer (StartTask (c_env c 1) tid worker s) (\<lambda>t. writeJSON 200 (TaskBody t None)) s))"

definition heartbeat :: handler where
  "heartbeat c p r s =
     decoded (decode dec_worker r) s (\<lambda>(worker, _).
       task_call c p r worker s (\<lambda>tid.
         answer (HeartbeatTask (c_env c 1) tid worker (sv_LeaseDuration (c_server c)) s)
           (\<lambda>(expires, cancelled). writeJSON 200 (LeaseBody expires cancelled)) s))"

definition complete :: handler where
  "complete c p r s =
     decoded (decode dec_complete r) s (\<lambda>(worker, output, uri).
       task_call c p r worker s (\<lambda>tid.
         if uri \<noteq> '''' \<and> sv_Artifacts (c_server c) = None then (writeError 503 ''artifact storage is not configured'', s)
         else if uri \<noteq> '''' \<and> \<not> task_artifact (c_lib c) (TenantID p) uri ''output'' (rq_id r) s
         then (writeError 403 ''invalid output artifact'', s)
         else answer (CompleteTask (c_env c 1) tid worker output uri [] s) (\<lambda>t. writeJSON 200 (TaskBody t None)) s))"

definition fail :: handler where
  "fail c p r s =
     decoded (decode dec_fail r) s (\<lambda>(worker, f).
       task_call c p r worker s (\<lambda>tid.
         answer (FailTask (c_env c 1) tid worker f s) (\<lambda>t. writeJSON 200 (TaskBody t None)) s))"

text \<open>A nil slice of handlers is NULL, which the column refuses.\<close>

definition workerHeartbeat :: handler where
  "workerHeartbeat c p r s =
     decoded (decode dec_heartbeat r) s (\<lambda>(handlers, active, meta).
       answer_db (case handlers of
                    None \<Rightarrow> Inl (ErrDB ''null value in column handlers violates not-null constraint'')
                  | Some hs \<Rightarrow> WorkerHeartbeat (c_env c 1) (TenantID p) (rq_id r) hs active meta s)
         (writeHeader 204) s)"

section \<open>Artifacts\<close>

text \<open>The id of a task is used after the other checks of \<^verbatim>\<open>createUpload\<close>.\<close>

definition create_upload_text ::
    "call \<Rightarrow> s3 \<times> manager \<Rightarrow> bool \<Rightarrow> principal \<Rightarrow> upload_request \<Rightarrow> db \<Rightarrow> upload res \<times> db" where
  "create_upload_text c am internal p q s =
     (let up = (\<lambda>task. createUpload (c_lib c) (fst am) (snd am) internal (c_env c 2) (TenantID p) (UserID p) (uq_kind q)
                  (uq_content_type q) (uq_size_bytes q) (uq_checksum q) task s)
      in case uq_task_run_id q of
           None \<Rightarrow> up None
         | Some t \<Rightarrow>
             (case lib_pg_uuid (c_lib c) t of
                Some tid \<Rightarrow> up (Some tid)
              | None \<Rightarrow>
                  (case upload_checks (uq_kind q) (uq_content_type q) (uq_size_bytes q) (uq_checksum q) of
                     Inl er \<Rightarrow> (Inl er, s)
                   | Inr _ \<Rightarrow> (Inl (ErrDB ''invalid input syntax for type uuid''), s))))"

definition upload_answer :: "upload res \<times> db \<Rightarrow> response \<times> db" where
  "upload_answer x =
     (case x of
        (Inl er, s) \<Rightarrow> (if er = ErrNotFound then writeError 404 ''task not found'' else writeError 422 (err_text er), s)
      | (Inr u, s) \<Rightarrow> (writeJSON 201 (UploadBody u), s))"

definition createArtifactUpload :: handler where
  "createArtifactUpload c p r s =
     (case sv_Artifacts (c_server c) of
        None \<Rightarrow> (writeError 503 ''artifact storage is not configured'', s)
      | Some am \<Rightarrow>
          decoded (decode dec_upload r) s (\<lambda>q.
            if HasPrefix (rq_path r) ''/internal/''
            then (case uq_task_run_id q of
                    None \<Rightarrow> (writeError 400 ''task_run_id and worker_id are required'', s)
                  | Some t \<Rightarrow>
                      if uq_worker_id q = '''' then (writeError 400 ''task_run_id and worker_id are required'', s)
                      else (case authorizeActiveTask c p t (uq_worker_id q) s of
                              Inl er \<Rightarrow> (handleErr er, s)
                            | Inr _ \<Rightarrow> upload_answer (create_upload_text c am True p q s)))
            else upload_answer (create_upload_text c am False p q s)))"

text \<open>A worker completes only artifacts of the task it holds.\<close>

definition completeArtifactUpload :: handler where
  "completeArtifactUpload c p r s =
     (case sv_Artifacts (c_server c) of
        None \<Rightarrow> (writeError 503 ''artifact storage is not configured'', s)
      | Some am \<Rightarrow>
          let finish' = answer (pg_id (c_lib c) (rq_id r) (\<lambda>aid. manager_Complete (fst am) (snd am) (c_env c 2) (TenantID p) aid s))
                (\<lambda>a. writeJSON 200 (ArtifactBody a)) s
          in if HasPrefix (rq_path r) ''/internal/''
             then decoded (decode dec_worker r) s (\<lambda>(worker, task).
               if worker = '''' \<or> task = '''' then (writeError 400 ''task_run_id and worker_id are required'', s)
               else case authorizeActiveTask c p task worker s of
                      Inl er \<Rightarrow> (handleErr er, s)
                    | Inr _ \<Rightarrow>
                        (case pg_id (c_lib c) (rq_id r) (\<lambda>aid. GetArtifact (TenantID p) aid s) of
                           Inl _ \<Rightarrow> (writeError 404 ''artifact not found for active task'', s)
                         | Inr pending \<Rightarrow>
                             if (case ar_task_run_id pending of None \<Rightarrow> True | Some tid \<Rightarrow> lib_uuid_string (c_lib c) tid \<noteq> task)
                             then (writeError 404 ''artifact not found for active task'', s)
                             else finish'))
             else finish')"

definition downloadArtifact :: handler where
  "downloadArtifact c p r s =
     (case sv_Artifacts (c_server c) of
        None \<Rightarrow> (writeError 503 ''artifact storage is not configured'', s)
      | Some am \<Rightarrow>
          if HasPrefix (rq_path r) ''/internal/''
          then (let task = rq_query r ''task_run_id''; worker = rq_query r ''worker_id''
                in if task = '''' \<or> worker = '''' then (writeError 400 ''task_run_id and worker_id are required'', s)
                   else case authorizeActiveTask c p task worker s of
                          Inl er \<Rightarrow> (handleErr er, s)
                        | Inr _ \<Rightarrow>
                            answer_read (DownloadInternal (c_lib c) (fst am) (snd am) (c_env c 2) (TenantID p) (rq_id r) s)
                              (\<lambda>d. writeJSON 200 (DownloadBody d)) s)
          else answer_read (Download (c_lib c) (fst am) (snd am) (c_env c 1) (TenantID p) (rq_id r) s)
                 (\<lambda>d. writeJSON 200 (DownloadBody d)) s)"

section \<open>Schedules\<close>

definition createSchedule :: handler where
  "createSchedule c p r s =
     decoded (decode dec_schedule r) s (\<lambda>q.
       let timezone = (if sq_timezone q = '''' then ''UTC'' else sq_timezone q);
           policy = (if sq_misfire_policy q = '''' then ''skip'' else sq_misfire_policy q)
       in if policy \<noteq> ''skip'' \<and> policy \<noteq> ''catch_up_once'' then (writeError 422 ''misfire_policy must be skip or catch_up_once'', s)
          else if \<not> lib_location (c_sched c) timezone then (writeError 422 ''invalid timezone'', s)
          else case lib_cron (c_sched c) (sq_cron_expression q) of
                 None \<Rightarrow> (writeError 422 ''invalid cron expression'', s)
               | Some nxt \<Rightarrow>
                   let nextAt = (if sq_next_execution_at q = zero_time then nxt timezone (e_gonow (c_env c 1)) else sq_next_execution_at q)
                   in answer (pg_id (c_lib c) (sq_workflow_definition_id q)
                                (\<lambda>defid. InsertSchedule (c_env c 2) (TenantID p) defid (sq_cron_expression q) timezone nextAt policy s))
                        (\<lambda>i. writeJSON 201 (ScheduleBody i)) s)"

definition patchSchedule :: handler where
  "patchSchedule c p r s =
     decoded (decode dec_patch r) s (\<lambda>(enabled, nextAt).
       answer_db (pg_id (c_lib c) (rq_id r) (\<lambda>sid. PatchSchedule sid (TenantID p) enabled nextAt s)) (writeHeader 204) s)"

definition deleteSchedule :: handler where
  "deleteSchedule c p r s =
     answer_db (pg_id (c_lib c) (rq_id r) (\<lambda>sid. DeleteSchedule sid (TenantID p) s)) (writeHeader 204) s"

section \<open>The stream, readiness and labels\<close>

text \<open>The opening of a stream; the frames that follow are not part of the answer.\<close>

definition stream :: handler where
  "stream c p r s =
     (if \<not> sv_Live (c_server c) \<or> \<not> c_subscribed c then (writeError 503 ''live stream unavailable'', s)
      else (writeHeader (c_upgraded c), s))"

definition ready :: "bool \<Rightarrow> bool option \<Rightarrow> response" where
  "ready ping dependency =
     (if \<not> ping then writeError 503 ''database unavailable''
      else if dependency = Some False then writeError 503 ''rate limiter unavailable''
      else writeJSON 200 (StatusBody ''ready''))"

definition routeLabel :: "string \<Rightarrow> string" where
  "routeLabel path =
     ''/'' @ Join (map (\<lambda>part. if length part = 36 then ''{id}'' else part) (Split (Trim1 path CHR ''/'') CHR ''/'')) CHR ''/''"

section \<open>Routing\<close>

datatype endpoint =
    ECreateWorkflow | EListWorkflows | EGetWorkflow | ECreateVersion | ECreateRun | EListRuns | EGetRun | ECancelRun | ERetryRun
  | EEvents | EWorkers | EDeadLetter | EReplay | ECreateSchedule | EPatchSchedule | EDeleteSchedule
  | EListAPIKeys | ECreateAPIKey | ERotateAPIKey | ERevokeAPIKey
  | ECreateArtifactUpload | ECompleteArtifactUpload | EDownloadArtifact | EStream
  | ELease | EStart | EHeartbeat | EComplete | EFail | EWorkerHeartbeat

datatype guard = ByRole string string | ByHumanRole string

text \<open>A pattern is a method and the segments of a path; \<^verbatim>\<open>{id}\<close> matches any one of them.\<close>

definition public_routes :: "(string \<times> string \<times> guard \<times> endpoint) list" where
  "public_routes =
     [(''POST'', ''/v1/workflows'', ByRole ''developer'' ''workflows:write'', ECreateWorkflow),
      (''GET'', ''/v1/workflows'', ByRole ''viewer'' ''workflows:read'', EListWorkflows),
      (''GET'', ''/v1/workflows/{id}'', ByRole ''viewer'' ''workflows:read'', EGetWorkflow),
      (''POST'', ''/v1/workflows/{id}/versions'', ByRole ''developer'' ''workflows:write'', ECreateVersion),
      (''POST'', ''/v1/workflows/{id}/runs'', ByRole ''operator'' ''runs:execute'', ECreateRun),
      (''GET'', ''/v1/runs'', ByRole ''viewer'' ''runs:read'', EListRuns),
      (''GET'', ''/v1/runs/{id}'', ByRole ''viewer'' ''runs:read'', EGetRun),
      (''POST'', ''/v1/runs/{id}/cancel'', ByRole ''operator'' ''runs:execute'', ECancelRun),
      (''POST'', ''/v1/runs/{id}/retry'', ByRole ''operator'' ''runs:execute'', ERetryRun),
      (''GET'', ''/v1/runs/{id}/events'', ByRole ''viewer'' ''runs:read'', EEvents),
      (''GET'', ''/v1/workers'', ByRole ''viewer'' ''workers:read'', EWorkers),
      (''GET'', ''/v1/dead-letter'', ByRole ''operator'' ''dead-letter:read'', EDeadLetter),
      (''POST'', ''/v1/dead-letter/{id}/replay'', ByRole ''operator'' ''dead-letter:replay'', EReplay),
      (''POST'', ''/v1/schedules'', ByRole ''developer'' ''schedules:write'', ECreateSchedule),
      (''PATCH'', ''/v1/schedules/{id}'', ByRole ''developer'' ''schedules:write'', EPatchSchedule),
      (''DELETE'', ''/v1/schedules/{id}'', ByRole ''developer'' ''schedules:write'', EDeleteSchedule),
      (''GET'', ''/v1/api-keys'', ByHumanRole ''admin'', EListAPIKeys),
      (''POST'', ''/v1/api-keys'', ByHumanRole ''admin'', ECreateAPIKey),
      (''POST'', ''/v1/api-keys/{id}/rotate'', ByHumanRole ''admin'', ERotateAPIKey),
      (''DELETE'', ''/v1/api-keys/{id}'', ByHumanRole ''admin'', ERevokeAPIKey),
      (''POST'', ''/v1/artifacts/uploads'', ByRole ''developer'' ''artifacts:write'', ECreateArtifactUpload),
      (''POST'', ''/v1/artifacts/{id}/complete'', ByRole ''developer'' ''artifacts:write'', ECompleteArtifactUpload),
      (''GET'', ''/v1/artifacts/{id}/download'', ByRole ''viewer'' ''artifacts:read'', EDownloadArtifact),
      (''GET'', ''/v1/stream'', ByRole ''viewer'' ''runs:read'', EStream)]"

definition internal_routes :: "(string \<times> string \<times> endpoint) list" where
  "internal_routes =
     [(''POST'', ''/internal/v1/tasks/{id}/lease'', ELease),
      (''POST'', ''/internal/v1/tasks/{id}/start'', EStart),
      (''POST'', ''/internal/v1/tasks/{id}/heartbeat'', EHeartbeat),
      (''POST'', ''/internal/v1/tasks/{id}/complete'', EComplete),
      (''POST'', ''/internal/v1/tasks/{id}/fail'', EFail),
      (''POST'', ''/internal/v1/workers/{id}/heartbeat'', EWorkerHeartbeat),
      (''POST'', ''/internal/v1/artifacts/uploads'', ECreateArtifactUpload),
      (''POST'', ''/internal/v1/artifacts/{id}/complete'', ECompleteArtifactUpload),
      (''GET'', ''/internal/v1/artifacts/{id}/download'', EDownloadArtifact)]"

text \<open>
  The value of \<^verbatim>\<open>{id}\<close> when the segments of the path match those of the pattern (the empty string
  when the pattern has no \<^verbatim>\<open>{id}\<close>).
\<close>

fun match_segments :: "string list \<Rightarrow> string list \<Rightarrow> string option" where
  "match_segments [] [] = Some ''''"
| "match_segments (q # qs) (x # xs) =
     (if q = ''{id}'' then (if x \<noteq> '''' \<and> match_segments qs xs \<noteq> None then Some x else None)
      else if q = x then match_segments qs xs else None)"
| "match_segments _ _ = None"

definition match_path :: "string \<Rightarrow> string \<Rightarrow> string option" where
  "match_path pattern path = match_segments (Split pattern CHR ''/'') (Split path CHR ''/'')"

text \<open>A \<^verbatim>\<open>GET\<close> pattern serves \<^verbatim>\<open>HEAD\<close> too.\<close>

definition match_method :: "string \<Rightarrow> string \<Rightarrow> bool" where
  "match_method m method \<longleftrightarrow> m = method \<or> m = ''GET'' \<and> method = ''HEAD''"

text \<open>What a mux does with a request: the endpoint and the id, or 404 or 405.\<close>

fun find_route :: "(string \<times> string \<times> 'a) list \<Rightarrow> string \<Rightarrow> string \<Rightarrow> bool \<Rightarrow> int + (string \<times> 'a)" where
  "find_route [] method path other = Inl (if other then 405 else 404)"
| "find_route ((m, pattern, x) # rs) method path other =
     (case match_path pattern path of
        None \<Rightarrow> find_route rs method path other
      | Some i \<Rightarrow> if match_method m method then Inr (i, x) else find_route rs method path True)"

definition guard_refuses :: "guard \<Rightarrow> principal \<Rightarrow> refusal option" where
  "guard_refuses g p = (case g of ByRole role scope \<Rightarrow> Require role scope p | ByHumanRole role \<Rightarrow> RequireHumanRole role p)"

fun run_endpoint :: "endpoint \<Rightarrow> handler" where
  "run_endpoint ECreateWorkflow = createWorkflow"
| "run_endpoint EListWorkflows = listWorkflows"
| "run_endpoint EGetWorkflow = getWorkflow"
| "run_endpoint ECreateVersion = createVersion"
| "run_endpoint ECreateRun = createRun"
| "run_endpoint EListRuns = listRuns"
| "run_endpoint EGetRun = getRun"
| "run_endpoint ECancelRun = cancelRun"
| "run_endpoint ERetryRun = retryRun"
| "run_endpoint EEvents = events"
| "run_endpoint EWorkers = workers"
| "run_endpoint EDeadLetter = deadLetter"
| "run_endpoint EReplay = replay"
| "run_endpoint ECreateSchedule = createSchedule"
| "run_endpoint EPatchSchedule = patchSchedule"
| "run_endpoint EDeleteSchedule = deleteSchedule"
| "run_endpoint EListAPIKeys = listAPIKeys"
| "run_endpoint ECreateAPIKey = createAPIKey"
| "run_endpoint ERotateAPIKey = rotateAPIKey"
| "run_endpoint ERevokeAPIKey = revokeAPIKey"
| "run_endpoint ECreateArtifactUpload = createArtifactUpload"
| "run_endpoint ECompleteArtifactUpload = completeArtifactUpload"
| "run_endpoint EDownloadArtifact = downloadArtifact"
| "run_endpoint EStream = stream"
| "run_endpoint ELease = lease"
| "run_endpoint EStart = start"
| "run_endpoint EHeartbeat = heartbeat"
| "run_endpoint EComplete = complete"
| "run_endpoint EFail = fail"
| "run_endpoint EWorkerHeartbeat = workerHeartbeat"

definition refuse :: "refusal \<Rightarrow> response" where
  "refuse a = writeError (fst a) (snd a)"

definition public_mux :: handler where
  "public_mux c p r s =
     (case find_route public_routes (rq_method r) (rq_path r) False of
        Inl status \<Rightarrow> (writeHeader status, s)
      | Inr (i, g, ep) \<Rightarrow>
          (case guard_refuses g p of
             Some a \<Rightarrow> (refuse a, s)
           | None \<Rightarrow> run_endpoint ep c p (r\<lparr>rq_id := i\<rparr>) s))"

definition internal_mux :: handler where
  "internal_mux c p r s =
     (case find_route internal_routes (rq_method r) (rq_path r) False of
        Inl status \<Rightarrow> (writeHeader status, s)
      | Inr (i, ep) \<Rightarrow> run_endpoint ep c p (r\<lparr>rq_id := i\<rparr>) s)"

section \<open>The server\<close>

text \<open>The state of the server: the database and the buckets of the rate limiter in Redis.\<close>

record world =
  w_db :: db
  w_buckets :: buckets

definition rate_limited :: "limiter option \<Rightarrow> int option \<Rightarrow> principal \<Rightarrow> buckets \<Rightarrow> limit_answer \<times> buckets" where
  "rate_limited l now p B = (case l of None \<Rightarrow> (Pass [], B) | Some l \<Rightarrow> limit_Middleware l now p B)"

definition with_limits :: "(string \<times> int) list \<Rightarrow> response \<Rightarrow> response" where
  "with_limits hs rsp = rsp\<lparr>rs_headers := map (\<lambda>(k, n). (k, Itoa n)) hs @ rs_headers rsp\<rparr>"

text \<open>\<open>clock\<close> is the time of Redis, if it answers.\<close>

definition serve_public :: "call \<Rightarrow> int option \<Rightarrow> request \<Rightarrow> world \<Rightarrow> response \<times> world" where
  "serve_public c clock r w =
     (case Middleware (c_lib c) (sv_auth (c_server c)) (c_env c 0) r (w_db w) of
        (Inl a, s) \<Rightarrow> (refuse a, w\<lparr>w_db := s\<rparr>)
      | (Inr p, s) \<Rightarrow>
          (case rate_limited (sv_RateLimit (c_server c)) clock p (w_buckets w) of
             (LimiterUnavailable, B) \<Rightarrow> (writeError 503 ''rate limiter unavailable'', w\<lparr>w_db := s, w_buckets := B\<rparr>)
           | (TooManyRequests hs, B) \<Rightarrow>
               (with_limits hs (writeError 429 ''tenant rate limit exceeded''), w\<lparr>w_db := s, w_buckets := B\<rparr>)
           | (Pass hs, B) \<Rightarrow>
               (let (rsp, s') = public_mux c p r s in (with_limits hs rsp, w\<lparr>w_db := s', w_buckets := B\<rparr>))))"

definition serve_internal :: "call \<Rightarrow> request \<Rightarrow> world \<Rightarrow> response \<times> world" where
  "serve_internal c r w =
     (case WorkerMiddleware (c_lib c) (sv_auth (c_server c)) (c_env c 0) r (w_db w) of
        (Inl a, s) \<Rightarrow> (refuse a, w\<lparr>w_db := s\<rparr>)
      | (Inr p, s) \<Rightarrow> (let (rsp, s') = internal_mux c p r s in (rsp, w\<lparr>w_db := s'\<rparr>)))"

text \<open>
  \<open>probe\<close> is the outcome of the two pings of \<^verbatim>\<open>/health/ready\<close>. The metrics and the documentation
  pages answer 200 with a fixed text.
\<close>

definition root_mux :: "call \<Rightarrow> bool \<times> bool option \<Rightarrow> int option \<Rightarrow> request \<Rightarrow> world \<Rightarrow> response \<times> world" where
  "root_mux c probe clock r w =
     (if HasPrefix (rq_path r) ''/v1/'' then serve_public c clock r w
      else if HasPrefix (rq_path r) ''/internal/v1/'' then serve_internal c r w
      else if rq_path r \<notin> set [''/health/live'', ''/health/ready'', ''/metrics'', ''/openapi.yaml'', ''/docs''] then (writeHeader 404, w)
      else if \<not> match_method ''GET'' (rq_method r) then (writeHeader 405, w)
      else if rq_path r = ''/health/live'' then (writeJSON 200 (StatusBody ''ok''), w)
      else if rq_path r = ''/health/ready'' then (ready (fst probe) (snd probe), w)
      else (writeHeader 200, w))"

definition cors_headers :: "(string \<times> string) list" where
  "cors_headers =
     [(''Access-Control-Allow-Headers'', ''Content-Type, Idempotency-Key, Authorization''),
      (''Access-Control-Allow-Methods'', ''GET, POST, PATCH, DELETE, OPTIONS'')]"

definition cors :: "string list \<Rightarrow> request \<Rightarrow> (request \<Rightarrow> world \<Rightarrow> response \<times> world) \<Rightarrow> world \<Rightarrow> response \<times> world" where
  "cors allowlist r nxt w =
     (let origin = rq_header r ''Origin'';
          added = (if origin \<in> set allowlist
                   then [(''Access-Control-Allow-Origin'', origin), (''Vary'', ''Origin'')] @ cors_headers else []);
          (rsp, w') = (if rq_method r = ''OPTIONS'' then (writeHeader 204, w) else nxt r w)
      in (rsp\<lparr>rs_headers := added @ rs_headers rsp\<rparr>, w'))"

definition serve :: "call \<Rightarrow> bool \<times> bool option \<Rightarrow> int option \<Rightarrow> request \<Rightarrow> world \<Rightarrow> response \<times> world" where
  "serve c probe clock r w = cors (sv_CORSAllowlist (c_server c)) r (root_mux c probe clock) w"

end
