(* ===== verification/Gateway.thy ===== *)
theory Gateway
  imports System Http_Api
begin

text \<open>
  The boundary of the system: whatever a request of the HTTP API or of the gRPC worker service
  asks for and whoever sends it, the server answers by a finite sequence of the steps of
  \<open>System\<close>. The invariants of the system therefore hold between requests, and every property of
  reachable states is a property of the running server.
\<close>

section \<open>Histories\<close>

definition history :: "db \<Rightarrow> db \<Rightarrow> bool" where
  "history = (\<lambda>s s'. \<exists>l. step s l s')\<^sup>*\<^sup>*"

lemma history_refl [simp]: "history s s"
  by (simp add: history_def)

lemma history_step: "step s l s' \<Longrightarrow> history s s'"
  unfolding history_def by (rule r_into_rtranclp) blast

lemma history_trans: "history s t \<Longrightarrow> history t u \<Longrightarrow> history s u"
  by (simp add: history_def)

lemma history_reachable:
  assumes "history s s'" "reachable s"
  shows "reachable s'"
  using assms unfolding history_def
proof (induction rule: rtranclp_induct)
  case (step t u)
  then obtain l where "step t l u" by blast
  with step show ?case using reaches.more [of fresh_install step t l u] by blast
qed

lemma history_inv:
  assumes "history s s'" "system_inv s"
  shows "system_inv s'"
  using assms unfolding history_def by (induction rule: rtranclp_induct) (auto intro: sys.step_inv)

section \<open>Answers\<close>

text \<open>
  \<open>x\<close> is an answer with the state it leaves, which is related to the state before. The rules follow
  the control structure that the handlers share, for every reflexive relation of states.
\<close>

definition leads :: "(db \<Rightarrow> db \<Rightarrow> bool) \<Rightarrow> db \<Rightarrow> 'a \<times> db \<Rightarrow> bool" where
  "leads R s x \<longleftrightarrow> R s (snd x)"

lemma pg_id_Inr: "pg_id L i f = Inr x \<Longrightarrow> \<exists>u. f u = Inr x"
  by (auto simp: pg_id_def split: option.splits)

locale answer_relation =
  fixes R :: "db \<Rightarrow> db \<Rightarrow> bool"
  assumes refl: "R s s"
begin

lemma same: "leads R s (a, s)"
  by (simp add: leads_def refl)

lemma branch: "(b \<Longrightarrow> leads R s x) \<Longrightarrow> (\<not> b \<Longrightarrow> leads R s y) \<Longrightarrow> leads R s (if b then x else y)"
  by simp

lemma fallible:
  "(\<And>a. r = Inl a \<Longrightarrow> leads R s (f a)) \<Longrightarrow> (\<And>b. r = Inr b \<Longrightarrow> leads R s (g b)) \<Longrightarrow> leads R s (case r of Inl a \<Rightarrow> f a | Inr b \<Rightarrow> g b)"
  by (cases r) simp_all

lemma optional:
  "(r = None \<Longrightarrow> leads R s x) \<Longrightarrow> (\<And>b. r = Some b \<Longrightarrow> leads R s (g b)) \<Longrightarrow> leads R s (case r of None \<Rightarrow> x | Some b \<Rightarrow> g b)"
  by (cases r) simp_all

lemma paired: "(\<And>a b. r = (a, b) \<Longrightarrow> leads R s (g a b)) \<Longrightarrow> leads R s (case r of (a, b) \<Rightarrow> g a b)"
  by (cases r) simp

lemma after_decode: "(\<And>x. d = Inr x \<Longrightarrow> leads R s (f x)) \<Longrightarrow> leads R s (decoded d s f)"
  by (cases d) (simp_all add: decoded_def same)

lemma by_answer: "(\<And>a s'. r = Inr (a, s') \<Longrightarrow> R s s') \<Longrightarrow> leads R s (answer r f s)"
  by (auto simp: answer_def leads_def refl split: sum.splits)

lemma by_answer_db: "(\<And>s'. r = Inr s' \<Longrightarrow> R s s') \<Longrightarrow> leads R s (answer_db r ok s)"
  by (auto simp: answer_db_def leads_def refl split: sum.splits)

lemma by_answer_read: "leads R s (answer_read r f s)"
  by (auto simp: answer_read_def leads_def refl split: sum.splits)

lemma by_finish: "(\<And>a s'. r = Inr (a, s') \<Longrightarrow> R s s') \<Longrightarrow> leads R s (finish r f s)"
  by (auto simp: finish_def leads_def refl split: sum.splits)

lemma by_task_call:
  "(\<And>tid. authorizeTask c p r s = Inr () \<Longrightarrow> lib_pg_uuid (c_lib c) (rq_id r) = Some tid \<Longrightarrow> leads R s (f tid)) \<Longrightarrow>
    leads R s (task_call c p r worker s f)"
  by (auto simp: task_call_def same split: sum.splits option.splits)

lemma by_upload_answer: "leads R s x \<Longrightarrow> leads R s (upload_answer x)"
  by (auto simp: upload_answer_def leads_def split: prod.splits sum.splits)

lemmas rules = same branch fallible optional paired after_decode by_answer by_answer_db by_answer_read by_finish by_task_call by_upload_answer

lemma by_read:
  "leads R s (listWorkflows c p r s)" "leads R s (getWorkflow c p r s)" "leads R s (getRun c p r s)" "leads R s (listRuns c p r s)"
  "leads R s (events c p r s)" "leads R s (workers c p r s)" "leads R s (deadLetter c p r s)" "leads R s (listAPIKeys c p r s)"
  "leads R s (stream c p r s)" "leads R s (downloadArtifact c p r s)"
  unfolding listWorkflows_def getWorkflow_def getRun_def listRuns_def events_def workers_def deadLetter_def
      listAPIKeys_def stream_def downloadArtifact_def Let_def
  by (intro rules)+

end

interpretation hist: answer_relation history
  by unfold_locales simp

section \<open>Authentication\<close>

lemma Authenticate_history: "Authenticate L cfg e raw s = Inr (p, s') \<Longrightarrow> history s s'"
  by (rule history_step [OF step.authenticate])

lemma leads_AuthenticateWorker: "leads history s (AuthenticateWorker L cfg e raw s)"
  by (auto simp: AuthenticateWorker_def leads_def intro: Authenticate_history split: sum.splits prod.splits)

lemma leads_Middleware: "leads history s (Middleware L cfg e r s)"
  by (auto simp: Middleware_def authenticateRequest_def leads_def Let_def intro: Authenticate_history split: sum.splits prod.splits if_splits)

lemma leads_WorkerMiddleware: "leads history s (WorkerMiddleware L cfg e r s)"
  using leads_AuthenticateWorker [of s L cfg e "bearer (rq_header r ''Authorization'')"]
  by (auto simp: WorkerMiddleware_def leads_def split: sum.splits prod.splits)

lemma leads_authorize: "leads history s (authorize L w e vals s)"
  using leads_AuthenticateWorker [of s L "ws_auth w" e]
  by (auto simp: authorize_def leads_def Let_def split: list.splits sum.splits prod.splits) (metis snd_conv)+

lemma leads_rpc_authorizeTask: "leads history s (rpc_authorizeTask L w e vals task s)"
  using leads_authorize [of s L w e vals] by (auto simp: rpc_authorizeTask_def leads_def split: sum.splits prod.splits)

lemma leads_principalForActiveTask: "leads history s (principalForActiveTask L w es vals task worker s)"
  using leads_authorize [of s L w "es 0" vals] by (auto simp: principalForActiveTask_def leads_def split: sum.splits prod.splits)

section \<open>The handlers\<close>

text \<open>
  What a request relies on: the iteration orders are those of the decoded map, and the ids drawn
  for a run are new.
\<close>

definition call_ok :: "call \<Rightarrow> request \<Rightarrow> db \<Rightarrow> bool" where
  "call_ok c r s \<longleftrightarrow> fresh (c_env c 1) s \<and>
     (\<forall>name tasks. decode dec_workflow r = Inr (name, tasks) \<longrightarrow>
        mset (fst (c_orders c)) = mset (map fst tasks) \<and> mset (snd (c_orders c)) = mset (map fst tasks))"

lemma decode_workflow_distinct: "decode dec_workflow r = Inr (name, tasks) \<Longrightarrow> distinct (map fst tasks)"
  by (auto simp: decode_def dec_workflow_def dest: field_map_distinct split: list.splits option.splits if_splits)

lemma call_ok_orders:
  "call_ok c r s \<Longrightarrow> decode dec_workflow r = Inr (name, tasks) \<Longrightarrow>
     map_orders \<lparr>dag_Name = n, dag_Tasks = tasks\<rparr> (fst (c_orders c)) (snd (c_orders c))"
  by (simp add: call_ok_def map_orders_def decode_workflow_distinct)

lemma leads_createWorkflow: "call_ok c r s \<Longrightarrow> leads history s (createWorkflow c p r s)"
  unfolding createWorkflow_def
  by (intro hist.rules) (auto intro: history_step [OF step.create_workflow] call_ok_orders)

lemma leads_createVersion: "call_ok c r s \<Longrightarrow> leads history s (createVersion c p r s)"
  unfolding createVersion_def Let_def
  by (intro hist.rules) (auto dest!: pg_id_Inr intro: history_step [OF step.create_version] call_ok_orders split: option.splits)

lemma create_run_ids_history: "call_ok c r s \<Longrightarrow> create_run_ids c p d key input a s = Inr ((x, b), s') \<Longrightarrow> history s s'"
  by (auto simp: create_run_ids_def Let_def call_ok_def pg_id_def intro: history_step [OF step.create_run] split: if_splits option.splits)

lemma leads_createRun: "call_ok c r s \<Longrightarrow> leads history s (createRun c p r s)"
  unfolding createRun_def Let_def
  by (intro hist.rules) (auto intro!: hist.rules intro: create_run_ids_history split: json.split)

lemma leads_run_actions:
  "leads history s (cancelRun c p r s)" "leads history s (retryRun c p r s)" "leads history s (replay c p r s)"
  unfolding cancelRun_def retryRun_def replay_def
  by (intro hist.rules; auto dest!: pg_id_Inr intro: history_step step.intros)+

lemma leads_keys:
  "leads history s (createAPIKey c p r s)" "leads history s (rotateAPIKey c p r s)" "leads history s (revokeAPIKey c p r s)"
  unfolding createAPIKey_def rotateAPIKey_def revokeAPIKey_def Let_def
  by (intro hist.rules; auto dest!: pg_id_Inr intro: history_step step.intros)+

lemma leads_schedules:
  "leads history s (createSchedule c p r s)" "leads history s (patchSchedule c p r s)" "leads history s (deleteSchedule c p r s)"
  unfolding createSchedule_def patchSchedule_def deleteSchedule_def Let_def
  by (intro hist.rules; auto dest!: pg_id_Inr intro: history_step step.intros)+

lemma leads_task_handlers:
  "leads history s (lease c p r s)" "leads history s (start c p r s)" "leads history s (heartbeat c p r s)" "leads history s (complete c p r s)" "leads history s (fail c p r s)"
  unfolding lease_def start_def heartbeat_def complete_def fail_def
  by (intro hist.rules; auto intro: history_step step.intros)+

lemma leads_workerHeartbeat: "leads history s (workerHeartbeat c p r s)"
  unfolding workerHeartbeat_def by (intro hist.rules) (auto intro: history_step step.intros split: option.splits)

lemma leads_createUpload: "leads history s (createUpload L S m internal e tenant user kind ct sz cs task s)"
  by (cases "createUpload L S m internal e tenant user kind ct sz cs task s")
    (auto simp: leads_def intro: history_step step.intros)

lemma leads_create_upload_text: "leads history s (create_upload_text c am internal p q s)"
  unfolding create_upload_text_def Let_def by (intro hist.rules leads_createUpload)

lemma leads_artifacts:
  "leads history s (createArtifactUpload c p r s)" "leads history s (completeArtifactUpload c p r s)"
  unfolding createArtifactUpload_def completeArtifactUpload_def Let_def
  by (intro hist.rules leads_create_upload_text; auto dest!: pg_id_Inr intro: history_step step.intros)+

lemma leads_endpoint: "call_ok c r s \<Longrightarrow> leads history s (run_endpoint ep c p r s)"
  by (cases ep) (simp_all add: leads_createWorkflow leads_createVersion leads_createRun leads_run_actions leads_keys leads_schedules
      leads_task_handlers leads_workerHeartbeat leads_artifacts hist.by_read)

section \<open>The server\<close>

lemma Middleware_core: "Middleware L cfg e r s = (x, s') \<Longrightarrow> same_core s s'"
  by (auto simp: Middleware_def authenticateRequest_def Let_def same_core_def dest: key_core(1) split: sum.splits prod.splits if_splits)

lemma AuthenticateWorker_core: "AuthenticateWorker L cfg e raw s = (x, s') \<Longrightarrow> same_core s s'"
  by (drule AuthenticateWorker_frame) (simp add: same_core_def auth_frame_tables)

lemma WorkerMiddleware_core: "WorkerMiddleware L cfg e r s = (x, s') \<Longrightarrow> same_core s s'"
  by (auto simp: WorkerMiddleware_def dest: AuthenticateWorker_core split: sum.splits prod.splits)

lemma call_ok_core: "call_ok c r s \<Longrightarrow> same_core s s' \<Longrightarrow> call_ok c r s'"
  by (simp add: call_ok_def fresh_def same_core_def)

lemma call_ok_id [simp]: "call_ok c (r\<lparr>rq_id := i\<rparr>) s = call_ok c r s"
  by (simp add: call_ok_def decode_def)

lemma leads_public_mux: "call_ok c r s \<Longrightarrow> leads history s (public_mux c p r s)"
  unfolding public_mux_def by (intro hist.rules leads_endpoint) simp

lemma leads_internal_mux: "call_ok c r s \<Longrightarrow> leads history s (internal_mux c p r s)"
  unfolding internal_mux_def by (intro hist.rules leads_endpoint) simp

lemma history_serve_public:
  assumes "call_ok c r (w_db w)" "serve_public c clock r w = (rsp, w')"
  shows "history (w_db w) (w_db w')"
proof -
  obtain x s where m: "Middleware (c_lib c) (sv_auth (c_server c)) (c_env c 0) r (w_db w) = (x, s)" by fastforce
  have auth: "history (w_db w) s" using leads_Middleware [of "w_db w"] m unfolding leads_def by (metis snd_conv)
  have ok: "call_ok c r s" by (rule call_ok_core [OF assms(1) Middleware_core [OF m]])
  show ?thesis
  proof (cases "w_db w' = s")
    case False
    then have "\<exists>p. w_db w' = snd (public_mux c p r s)"
      using assms(2) m by (auto simp: serve_public_def Let_def split: sum.splits prod.splits limit_answer.splits)
        (metis snd_conv)
    with leads_public_mux [OF ok] auth show ?thesis by (auto simp: leads_def intro: history_trans)
  qed (use auth in simp)
qed

lemma history_serve_internal:
  assumes "call_ok c r (w_db w)" "serve_internal c r w = (rsp, w')"
  shows "history (w_db w) (w_db w')"
proof -
  obtain x s where m: "WorkerMiddleware (c_lib c) (sv_auth (c_server c)) (c_env c 0) r (w_db w) = (x, s)" by fastforce
  have auth: "history (w_db w) s" using leads_WorkerMiddleware [of "w_db w"] m unfolding leads_def by (metis snd_conv)
  have ok: "call_ok c r s" by (rule call_ok_core [OF assms(1) WorkerMiddleware_core [OF m]])
  show ?thesis
  proof (cases x)
    case (Inr p)
    then have "w_db w' = snd (internal_mux c p r s)"
      using assms(2) m by (auto simp: serve_internal_def Let_def split: prod.splits)
    with leads_internal_mux [OF ok, of p] auth show ?thesis by (simp add: leads_def history_trans)
  qed (use assms(2) m auth in \<open>auto simp: serve_internal_def\<close>)
qed

lemma history_serve:
  assumes "call_ok c r (w_db w)"
  shows "history (w_db w) (w_db (snd (serve c probe clock r w)))"
proof (cases "rq_method r = ''OPTIONS''")
  case False
  obtain rsp w' where m: "root_mux c probe clock r w = (rsp, w')" by fastforce
  then have "history (w_db w) (w_db w')"
    using history_serve_public [OF assms] history_serve_internal [OF assms] by (auto simp: root_mux_def split: if_splits)
  with False m show ?thesis by (simp add: serve_def cors_def Let_def)
qed (simp add: serve_def cors_def Let_def)

section \<open>The worker service\<close>

text \<open>A request of the gRPC service: its task and worker first.\<close>

datatype rpc_request =
    RpcLease string string
  | RpcStart string string
  | RpcHeartbeat string string
  | RpcComplete string string "json option" string string
  | RpcFail string string failure
  | RpcCreateUpload string string string string int string
  | RpcCompleteUpload string string string
  | RpcDownload string string string

fun rpc_serve :: "auth_lib \<Rightarrow> worker_server \<Rightarrow> (nat \<Rightarrow> env) \<Rightarrow> string list \<Rightarrow> rpc_request \<Rightarrow> db \<Rightarrow> db" where
  "rpc_serve L w es vals (RpcLease t k) s = snd (Lease L w es vals t k s)"
| "rpc_serve L w es vals (RpcStart t k) s = snd (Start L w es vals t k s)"
| "rpc_serve L w es vals (RpcHeartbeat t k) s = snd (Heartbeat L w es vals t k s)"
| "rpc_serve L w es vals (RpcComplete t k out a lg) s = snd (rpc_Complete L w es vals t k out a lg s)"
| "rpc_serve L w es vals (RpcFail t k f) s = snd (Fail L w es vals t k f s)"
| "rpc_serve L w es vals (RpcCreateUpload t k kind ct n cs) s = snd (CreateArtifactUpload L w es vals t k kind ct n cs s)"
| "rpc_serve L w es vals (RpcCompleteUpload t k a) s = snd (CompleteArtifactUpload L w es vals t k a s)"
| "rpc_serve L w es vals (RpcDownload t k uri) s = snd (GetArtifactDownload L w es vals t k uri s)"

lemma leads_after:
  assumes "leads history s g" "\<And>x t. g = (x, t) \<Longrightarrow> leads history t (f x t)"
  shows "leads history s (case g of (x, t) \<Rightarrow> f x t)"
  using assms history_trans by (cases g) (auto simp: leads_def)

lemma history_rpc_serve: "history s (rpc_serve L w es vals q s)"
proof (cases q)
  case (RpcCreateUpload t k kind ct n cs)
  have "leads history s (CreateArtifactUpload L w es vals t k kind ct n cs s)"
    unfolding CreateArtifactUpload_def CreateInternalUpload_def
    by (intro hist.optional hist.paired hist.same leads_after [OF leads_principalForActiveTask] hist.fallible
        leads_after [OF leads_createUpload])
  with RpcCreateUpload show ?thesis by (simp add: leads_def)
next
  case (RpcCompleteUpload t k a)
  have "leads history s (CompleteArtifactUpload L w es vals t k a s)"
    unfolding CompleteArtifactUpload_def
    by (intro hist.optional hist.paired hist.same leads_after [OF leads_principalForActiveTask] hist.fallible hist.branch hist.by_finish)
      (auto dest!: pg_id_Inr intro: history_step step.intros)
  with RpcCompleteUpload show ?thesis by (simp add: leads_def)
next
  case (RpcDownload t k uri)
  have "leads history s (GetArtifactDownload L w es vals t k uri s)"
    unfolding GetArtifactDownload_def
    by (intro hist.optional hist.paired hist.same leads_after [OF leads_principalForActiveTask] hist.fallible)
  with RpcDownload show ?thesis by (simp add: leads_def)
next
  case (RpcComplete t k out a lg)
  have "leads history s (rpc_Complete L w es vals t k out a lg s)"
    unfolding rpc_Complete_def Let_def
    by (intro hist.same leads_after [OF leads_principalForActiveTask] hist.fallible hist.branch hist.by_finish)
      (auto dest!: pg_id_Inr intro: history_step step.intros)
  with RpcComplete show ?thesis by (simp add: leads_def)
qed (auto simp: leads_def [symmetric] Lease_def Start_def Heartbeat_def Fail_def
      dest!: pg_id_Inr intro!: hist.same leads_after [OF leads_rpc_authorizeTask] hist.fallible hist.by_finish intro: history_step step.intros)

end
