(* ===== verification/Example.thy ===== *)
theory Example
  imports Scheduler
begin

text \<open>
  A concrete history, used as the witness of the properties: a workflow of two tasks, \<open>b\<close> after
  \<open>a\<close>, is created and started, \<open>a\<close> is dispatched, leased and run by a worker, and then either
  completed, failed for good, or lost with its worker.
\<close>

definition demo_env :: "nat \<Rightarrow> time \<Rightarrow> env" where
  "demo_env n now = \<lparr>e_now = now, e_gonow = now, e_uuid = (\<lambda>i. n + i), e_trace = ''''\<rparr>"

text \<open>The environments of a scheduler cycle draw from disjoint ranges.\<close>

definition demo_envs :: "nat \<Rightarrow> time \<Rightarrow> nat \<Rightarrow> env" where
  "demo_envs n now k = \<lparr>e_now = now, e_gonow = now, e_uuid = (\<lambda>i. n + (2 * i + 1) * 2 ^ k), e_trace = ''''\<rparr>"

definition demo_lib :: sched_lib where
  "demo_lib = \<lparr>lib_location = (\<lambda>_. True), lib_cron = (\<lambda>_. Some (\<lambda>_ t. t + 60)), lib_uuid_text = (\<lambda>_. ''u''),
     lib_time_text = (\<lambda>_. ''t''), lib_exec_while_open = Some (ErrDB ''conn busy'')\<rparr>"

definition demo_dag :: dag where
  "demo_dag = \<lparr>dag_Name = ''d'', dag_Tasks =
     [(''a'', \<lparr>Handler = ''h'', DependsOn = [], MaximumAttempts = 2, TimeoutSeconds = 0, Priority = 0\<rparr>),
      (''b'', \<lparr>Handler = ''h'', DependsOn = [''a''], MaximumAttempts = 0, TimeoutSeconds = 0, Priority = 5\<rparr>)]\<rparr>"

text \<open>The database after a call that succeeded.\<close>

definition commit :: "('a \<times> db) res \<Rightarrow> db" where
  "commit r = (case r of Inl _ \<Rightarrow> empty_db | Inr (_, s) \<Rightarrow> s)"

definition committed :: "db res \<Rightarrow> db" where
  "committed r = (case r of Inl _ \<Rightarrow> empty_db | Inr s \<Rightarrow> s)"

text \<open>Tenant 9 creates definition 1 and run 2, whose tasks are 4 (\<open>a\<close>) and 5 (\<open>b\<close>).\<close>

definition demo_defined :: db where
  "demo_defined = commit (CreateWorkflow (demo_env 1 10) [''a'', ''b''] [''b'', ''a''] 9 None '''' demo_dag empty_db)"

definition demo_created :: db where
  "demo_created = commit (CreateRun (demo_env 2 20) 9 None 1 ''k'' None None demo_defined)"

definition demo_dispatched :: db where
  "demo_dispatched = snd (tick demo_lib (demo_envs 6 30) (demo_env 6 30) (demo_env 6 30) (demo_env 6 30) (\<lambda>_. False) demo_created)"

definition demo_leased :: db where
  "demo_leased = commit (LeaseTask (demo_env 7 40) 4 ''w'' 100 demo_dispatched)"

definition demo_running :: db where
  "demo_running = commit (StartTask (demo_env 8 50) 4 ''w'' demo_leased)"

definition demo_completed :: db where
  "demo_completed = commit (CompleteTask (demo_env 9 60) 4 ''w'' None '''' [] demo_running)"

definition demo_failure :: "bool \<Rightarrow> failure" where
  "demo_failure retryable = \<lparr>Retryable = retryable, ErrorType = ''E'', ErrorMessage = ''m'', TraceID = ''''\<rparr>"

definition demo_dead :: db where
  "demo_dead = commit (FailTask (demo_env 9 60) 4 ''w'' (demo_failure False) demo_running)"

definition demo_cancelled :: db where
  "demo_cancelled = committed (CancelRun (demo_env 9 60) 9 None 2 demo_running)"

lemma demo_uuid [simp]: "e_uuid (demo_env n now) i = n + i" "e_now (demo_env n now) = now" "e_gonow (demo_env n now) = now"
  by (simp_all add: demo_env_def)

lemma fresh_above:
  assumes "\<forall>t \<in> set (db_tasks s). tr_id t < n" "\<forall>r \<in> set (db_runs s). wr_id r < n"
    and "inj (e_uuid e)" "\<And>i. n \<le> e_uuid e i"
  shows "fresh e s"
proof -
  have "e_uuid e i \<noteq> tr_id t" if "t \<in> set (db_tasks s)" for i t
    using assms(1) that assms(4) [of i] by auto
  moreover have "e_uuid e i \<noteq> wr_id r" if "r \<in> set (db_runs s)" for i r
    using assms(2) that assms(4) [of i] by auto
  ultimately show ?thesis using assms(3) by (auto simp: fresh_def)
qed

lemma demo_fresh:
  assumes "\<forall>t \<in> set (db_tasks s). tr_id t < n" "\<forall>r \<in> set (db_runs s). wr_id r < n"
  shows "fresh (demo_env n now) s"
  by (rule fresh_above [OF assms]) (simp_all add: inj_def)

text \<open>The numbers \<open>(2 * i + 1) * 2 ^ k\<close> are all different.\<close>

lemma odd_power_inj:
  assumes "(2 * i + 1) * 2 ^ k = (2 * j + 1) * (2::nat) ^ l"
  shows "k = l \<and> i = j"
  using assms
proof (induction k arbitrary: l)
  case 0
  show ?case
  proof (cases l)
    case (Suc l')
    with 0 have "2 * i + 1 = 2 * ((2 * j + 1) * 2 ^ l')" by simp
    then show ?thesis by presburger
  qed (use 0 in simp)
next
  case (Suc k)
  show ?case
  proof (cases l)
    case 0
    with Suc.prems have "2 * ((2 * i + 1) * 2 ^ k) = 2 * j + 1" by simp
    then show ?thesis by presburger
  next
    case (Suc l')
    with Suc.prems Suc.IH [of l'] show ?thesis by simp
  qed
qed

lemma demo_fresh_seq:
  assumes "\<forall>t \<in> set (db_tasks s). tr_id t < n" "\<forall>r \<in> set (db_runs s). wr_id r < n"
  shows "fresh_seq (demo_envs n now) s"
proof -
  have u: "e_uuid (demo_envs n now k) i = n + (2 * i + 1) * 2 ^ k" for k i by (simp add: demo_envs_def)
  have "fresh (demo_envs n now k) s" for k
  proof (rule fresh_above [OF assms])
    show "inj (e_uuid (demo_envs n now k))" by (rule injI) (simp add: u)
  qed (simp add: u)
  moreover have "range (e_uuid (demo_envs n now i)) \<inter> range (e_uuid (demo_envs n now j)) = {}" if "i \<noteq> j" for i j
  proof (rule equals0I)
    fix x assume "x \<in> range (e_uuid (demo_envs n now i)) \<inter> range (e_uuid (demo_envs n now j))"
    then obtain a b where "x = n + (2 * a + 1) * 2 ^ i" "x = n + (2 * b + 1) * 2 ^ j" unfolding u by blast
    then have "(2 * a + 1) * 2 ^ i = (2 * b + 1) * 2 ^ j" by linarith
    with odd_power_inj that show False by blast
  qed
  ultimately show ?thesis by (simp add: fresh_seq_def)
qed

text \<open>The state with task \<open>a\<close> running, by evaluation; later evaluations start from it.\<close>

lemma demo_running_eq [code]:
  "demo_running =
   \<lparr>db_definitions =
    [\<lparr>wd_id = 1, wd_tenant_id = 9, wd_name = ''d'', wd_version = 1,
        wd_dag_spec =
          \<lparr>dag_Name = ''d'',
             dag_Tasks =
               [(''a'',
                 \<lparr>Handler = ''h'', DependsOn = [], MaximumAttempts = 2,
                    TimeoutSeconds = 0, Priority = 0\<rparr>),
                (''b'',
                 \<lparr>Handler = ''h'', DependsOn = [''a''], MaximumAttempts = 0,
                    TimeoutSeconds = 0, Priority = 5\<rparr>)]\<rparr>,
        wd_created_by = None, wd_created_at = 10\<rparr>],
    db_runs =
      [\<lparr>wr_id = 2, wr_tenant_id = 9, wr_workflow_definition_id = 1,
          wr_workflow_version = 1, wr_status = RunRunning,
          wr_input = JObj [], wr_input_artifact_uri = None,
          wr_idempotency_key = ''k'', wr_trace_parent = [],
          wr_started_at = Some 20, wr_completed_at = None,
          wr_created_at = 20\<rparr>],
    db_tasks =
      [\<lparr>tr_id = 4, tr_workflow_run_id = 2, tr_task_key = ''a'',
          tr_handler = ''h'', tr_status = RUNNING, tr_priority = 0,
          tr_available_at = 20, tr_attempt_count = 1,
          tr_maximum_attempts = 2, tr_timeout_seconds = 300,
          tr_lease_owner = Some ''w'', tr_lease_expires_at = Some 140,
          tr_input = JObj [], tr_output = None,
          tr_output_artifact_uri = None, tr_created_at = 20,
          tr_updated_at = 50\<rparr>,
       \<lparr>tr_id = 5, tr_workflow_run_id = 2, tr_task_key = ''b'',
          tr_handler = ''h'', tr_status = BLOCKED, tr_priority = 5,
          tr_available_at = 20, tr_attempt_count = 0,
          tr_maximum_attempts = 3, tr_timeout_seconds = 300,
          tr_lease_owner = None, tr_lease_expires_at = None,
          tr_input = JObj [], tr_output = None,
          tr_output_artifact_uri = None, tr_created_at = 20,
          tr_updated_at = 20\<rparr>],
    db_deps =
      [\<lparr>td_workflow_run_id = 2, td_task_run_id = 5,
          td_depends_on_task_run_id = 4\<rparr>],
    db_attempts =
      [\<lparr>ta_task_run_id = 4, ta_attempt_number = 1, ta_worker_id = ''w'',
          ta_scheduled_at = 20, ta_executing_at = Some 50,
          ta_started_at = 40, ta_ended_at = None, ta_exit_status = None,
          ta_error_type = None, ta_error_message = None, ta_trace_id = None,
          ta_artifact_uri = None, ta_log_artifact_uri = None\<rparr>],
    db_outbox =
      [\<lparr>ob_id = 3, ob_aggregate_type = ''workflow_run'',
          ob_aggregate_id = 2, ob_event_type = ''workflow.run.created'',
          ob_payload =
            JObj
             [(''workflow_run_id'', JUuid 2), (''definition_id'', JUuid 1),
              (''status'', JStr ''RUNNING'')],
          ob_trace_parent = [], ob_ordering_key = 2, ob_published_at = None,
          ob_created_at = 20, ob_claim_token = None,
          ob_claim_expires_at = None, ob_publish_attempts = 0\<rparr>,
       \<lparr>ob_id = 6, ob_aggregate_type = ''task_run'', ob_aggregate_id = 4,
          ob_event_type = ''task.dispatch'',
          ob_payload =
            JObj
             [(''task_run_id'', JUuid 4), (''workflow_run_id'', JUuid 2),
              (''task_key'', JStr ''a''), (''handler'', JStr ''h'')],
          ob_trace_parent = [], ob_ordering_key = 2, ob_published_at = None,
          ob_created_at = 30, ob_claim_token = None,
          ob_claim_expires_at = None, ob_publish_attempts = 0\<rparr>,
       \<lparr>ob_id = 7, ob_aggregate_type = ''task_run'', ob_aggregate_id = 4,
          ob_event_type = ''task.leased'',
          ob_payload =
            JObj
             [(''workflow_run_id'', JUuid 2), (''task_run_id'', JUuid 4),
              (''task_key'', JStr ''a''), (''worker_id'', JStr ''w''),
              (''attempt'', JNum 1)],
          ob_trace_parent = [], ob_ordering_key = 2, ob_published_at = None,
          ob_created_at = 40, ob_claim_token = None,
          ob_claim_expires_at = None, ob_publish_attempts = 0\<rparr>],
    db_schedules = [],
    db_audit =
      [\<lparr>au_tenant_id = 9, au_actor_id = None,
          au_action = ''workflow.create'', au_resource_type = ''workflow'',
          au_resource_id = 1, au_metadata = JObj [], au_created_at = 10\<rparr>,
       \<lparr>au_tenant_id = 9, au_actor_id = None, au_action = ''run.create'',
          au_resource_type = ''workflow_run'', au_resource_id = 2,
          au_metadata = JObj [], au_created_at = 20\<rparr>],
    db_workers = [], db_artifacts = [], db_api_keys = [], db_users = []\<rparr>"
  by code_simp

text \<open>What the states hold, by evaluation.\<close>

lemma demo_statuses:
  "map tr_status (db_tasks demo_created) = [READY, BLOCKED]"
  "map tr_status (db_tasks demo_dispatched) = [DISPATCHING, BLOCKED]"
  "map tr_status (db_tasks demo_leased) = [LEASED, BLOCKED]"
  "map tr_status (db_tasks demo_running) = [RUNNING, BLOCKED]"
  "map tr_status (db_tasks demo_completed) = [SUCCEEDED, READY]"
  "map tr_status (db_tasks demo_dead) = [DEAD, CANCELLED]"
  "map tr_status (db_tasks demo_cancelled) = [RUNNING, CANCELLED]"
  by code_simp+

text \<open>The calls of the history succeed, and the states are what they commit.\<close>

lemma commit_Inr: "\<not> isl r \<Longrightarrow> \<exists>x. r = Inr (x, commit r)"
  by (cases r) (auto simp: commit_def)

lemma committed_Inr: "\<not> isl r \<Longrightarrow> r = Inr (committed r)"
  by (cases r) (auto simp: committed_def)

lemma demo_calls:
  "\<exists>x. CreateWorkflow (demo_env 1 10) [''a'', ''b''] [''b'', ''a''] 9 None '''' demo_dag empty_db = Inr (x, demo_defined)"
  "\<exists>x. CreateRun (demo_env 2 20) 9 None 1 ''k'' None None demo_defined = Inr (x, demo_created)"
  "\<exists>x. LeaseTask (demo_env 7 40) 4 ''w'' 100 demo_dispatched = Inr (x, demo_leased)"
  "\<exists>x. StartTask (demo_env 8 50) 4 ''w'' demo_leased = Inr (x, demo_running)"
  "\<exists>x. CompleteTask (demo_env 9 60) 4 ''w'' None '''' [] demo_running = Inr (x, demo_completed)"
  "\<exists>x. FailTask (demo_env 9 60) 4 ''w'' (demo_failure False) demo_running = Inr (x, demo_dead)"
  "CancelRun (demo_env 9 60) 9 None 2 demo_running = Inr demo_cancelled"
  unfolding demo_defined_def demo_created_def demo_leased_def demo_running_def demo_completed_def demo_dead_def demo_cancelled_def
  by (rule commit_Inr committed_Inr, code_simp)+

lemma demo_orders: "map_orders demo_dag [''a'', ''b''] [''b'', ''a'']"
  by (simp add: map_orders_def demo_dag_def)

lemma demo_small:
  "\<forall>t \<in> set (db_tasks demo_defined). tr_id t < 2" "\<forall>r \<in> set (db_runs demo_defined). wr_id r < 2"
  "\<forall>t \<in> set (db_tasks demo_created). tr_id t < 6" "\<forall>r \<in> set (db_runs demo_created). wr_id r < 6"
  by code_simp+

lemma empty_db_inv: "db_inv empty_db"
  by (simp add: empty_db_def db_inv_def keys_ok_def refs_ok_def deps_met_def wakeups_def runs_done_def
      leases_ok_def attempts_ok_def defs_ok_def)

lemma demo_inv:
  "db_inv demo_defined" "db_inv demo_created" "db_inv demo_dispatched" "db_inv demo_leased" "db_inv demo_running"
  "db_inv demo_completed" "db_inv demo_dead" "db_inv demo_cancelled"
proof -
  show 1: "db_inv demo_defined" using demo_calls(1) CreateWorkflow_inv demo_orders empty_db_inv by blast
  from demo_calls(2) obtain r c where "CreateRun (demo_env 2 20) 9 None 1 ''k'' None None demo_defined = Inr ((r, c), demo_created)"
    by (metis surj_pair)
  from CreateRun_inv [OF this demo_fresh [OF demo_small(1,2)] 1] show 2: "db_inv demo_created" .
  show 3: "db_inv demo_dispatched"
    unfolding demo_dispatched_def by (rule tick_inv [OF 2 demo_fresh_seq [OF demo_small(3,4)]])
  show 4: "db_inv demo_leased" using demo_calls(3) LeaseTask_inv 3 by blast
  show 5: "db_inv demo_running" using demo_calls(4) StartTask_inv 4 by blast
  show "db_inv demo_completed" using demo_calls(5) CompleteTask_inv 5 by blast
  show "db_inv demo_dead" using demo_calls(6) FailTask_inv 5 by blast
  show "db_inv demo_cancelled" using demo_calls(7) CancelRun_inv 5 by blast
qed

end
