(* ===== verification/Auth_Properties.thy ===== *)
theory Auth_Properties
  imports Auth Example
begin

text \<open>
  What authentication promises: a token that was issued names its key, a token is accepted exactly
  while its key is stored with its hash, unrevoked and unexpired, and worker calls need the worker
  scope. The examples use one key, 7, of tenant 9.
\<close>

section \<open>An example key\<close>

definition demo_auth_lib :: auth_lib where
  "demo_auth_lib = \<lparr>lib_uuid_parse = (\<lambda>t. if t = ''k7'' then Some 7 else None), lib_uuid_string = (\<lambda>_. ''k7''),
     lib_pg_uuid = (\<lambda>t. if t = ''k7'' then Some 7 else None), lib_verify = (\<lambda>_. Inl (ErrMsg ''oidc: malformed jwt''))\<rparr>"

definition demo_principal :: principal where
  "demo_principal = \<lparr>TenantID = 9, UserID = Some 1, Role = ''admin'', Kind = '''', Scopes = []\<rparr>"

definition demo_auth :: auth_config where
  "demo_auth = \<lparr>Dev = False, DevPrincipal = demo_principal, DevWorkerToken = '''', Issuer = ''i'', Audience = ''a'', JWKSURL = ''j'',
     TenantClaim = ''t'', APIKeyPepper = ''p''\<rparr>"

definition demo_token :: string where
  "demo_token = ''rm_k7_AQ''"

definition demo_keyed :: db where
  "demo_keyed = commit (CreateAPIKey (demo_env 1 10) 7 9 None ''ci'' [''workers:execute''] (Some 500)
     (HashAPIKey demo_token ''p'') empty_db)"

lemma demo_keyed_keys:
  "db_api_keys demo_keyed =
     [\<lparr>ak_id = 7, ak_tenant_id = 9, ak_name = ''ci'', ak_key_hash = HashAPIKey demo_token ''p'', ak_scopes = [''workers:execute''],
       ak_expires_at = Some 500, ak_revoked_at = None, ak_last_used_at = None, ak_created_by = None, ak_created_at = 10\<rparr>]"
  by (simp add: demo_keyed_def commit_def CreateAPIKey_def empty_db_def exists_row_iff Let_def)

lemma demo_keyed_unique: "keys_unique demo_keyed"
  by (simp add: keys_unique_def demo_keyed_keys)

lemma demo_APIKeyID: "APIKeyID demo_auth_lib demo_token = Some ''k7''"
  by (simp add: demo_token_def APIKeyID_def demo_auth_lib_def numeral_3_eq_3)

section \<open>Shared facts\<close>

lemma Authenticate_rm: "HasPrefix raw ''rm_'' \<Longrightarrow> Authenticate L cfg e raw s = authenticateAPIKey L cfg e raw s"
  by (auto simp: Authenticate_def HasPrefix_def)

text \<open>A token names a key: the id it carries, read by PostgreSQL.\<close>

definition token_key :: "auth_lib \<Rightarrow> string \<Rightarrow> uuid option" where
  "token_key L raw = (if HasPrefix raw ''rm_'' then Option.bind (APIKeyID L raw) (lib_pg_uuid L) else None)"

lemma token_key_SomeD:
  "token_key L raw = Some kid \<Longrightarrow> HasPrefix raw ''rm_'' \<and> (\<exists>idt. APIKeyID L raw = Some idt \<and> lib_pg_uuid L idt = Some kid)"
  by (auto simp: token_key_def split: if_splits Option.bind_splits)

lemma Authenticate_key_cases:
  assumes "token_key L raw = Some kid" "Authenticate L cfg e raw s = Inr (p, s')"
  obtains k where "k \<in> set (db_api_keys s)" "ak_id k = kid" "ak_revoked_at k = None" "ak_key_hash k = HashAPIKey raw (APIKeyPepper cfg)"
  using assms by (auto simp: Authenticate_rm dest!: token_key_SomeD elim!: authenticateAPIKey_Inr)

lemma Authenticate_Kind:
  "Authenticate L cfg e raw s = Inr (p, s') \<Longrightarrow> Kind p = ''api_key'' \<Longrightarrow> authenticateAPIKey L cfg e raw s = Inr (p, s')"
  by (auto simp: Authenticate_def authenticateOIDC_def Let_def split: if_splits sum.splits option.splits)

lemma demo_token_key: "token_key demo_auth_lib demo_token = Some 7"
  using demo_APIKeyID by (simp add: token_key_def) (simp add: demo_token_def HasPrefix_def demo_auth_lib_def)

lemma token_accepted:
  assumes "token_key L raw = Some kid" "keys_unique s" "k \<in> set (db_api_keys s)" "ak_id k = kid" "ak_revoked_at k = None"
    and "ak_key_hash k = HashAPIKey raw (APIKeyPepper cfg)" "ak_expires_at k = None \<or> (\<exists>t. ak_expires_at k = Some t \<and> e_gonow e < t)"
  shows "\<exists>p s'. Authenticate L cfg e raw s = Inr (p, s') \<and> TenantID p = ak_tenant_id k \<and> Scopes p = ak_scopes k \<and> Kind p = ''api_key''"
proof -
  obtain idt where t: "HasPrefix raw ''rm_''" "APIKeyID L raw = Some idt" "lib_pg_uuid L idt = Some kid"
    using token_key_SomeD [OF assms(1)] by auto
  have "distinct (map ak_id (db_api_keys s))" using assms(2) by (simp add: keys_unique_def)
  from authenticateAPIKey_accepts [OF t(2,3) this assms(3-7)] show ?thesis by (simp only: Authenticate_rm [OF t(1)])
qed

lemma demo_accepted:
  "\<exists>p s'. Authenticate demo_auth_lib demo_auth (demo_env 1 20) demo_token demo_keyed = Inr (p, s') \<and> TenantID p = 9 \<and>
     Scopes p = [''workers:execute''] \<and> Kind p = ''api_key''"
  using token_accepted [OF demo_token_key demo_keyed_unique, of "hd (db_api_keys demo_keyed)" demo_auth "demo_env 1 20"]
  by (simp add: demo_keyed_keys demo_auth_def)

section \<open>Tokens\<close>

text \<open>A token that \<^verbatim>\<open>GenerateAPIKeyForID\<close> issues for a key id that has no underscore is read back by
  \<^verbatim>\<open>APIKeyID\<close> as that id, and the hash it is stored under is the one \<^verbatim>\<open>authenticateAPIKey\<close> recomputes.\<close>

theorem APIKeyID_GenerateAPIKeyForID:
  assumes "GenerateAPIKeyForID L kid pepper (Some secret) = Inr (token, hash)"
    and "CHR ''_'' \<notin> set kid" and "length secret = 32"
  shows "APIKeyID L token = Some kid \<and> hash = HashAPIKey token pepper \<and> length hash = 32"
proof -
  have "secret \<noteq> []" using assms(3) by auto
  with assms show ?thesis
    by (auto simp: GenerateAPIKeyForID_def Let_def HashAPIKey_def length_Sum256 RawURLEncode_not_Nil split: if_splits
        intro!: APIKeyID_token [of kid L "RawURLEncode secret", simplified])
qed

theorem APIKeyID_GenerateAPIKeyForID_witness:
  "\<exists>token hash. GenerateAPIKeyForID demo_auth_lib ''k7'' ''p'' (Some (replicate 32 CHR ''x'')) = Inr (token, hash) \<and>
     APIKeyID demo_auth_lib token = Some ''k7''"
proof -
  obtain token hash where g: "GenerateAPIKeyForID demo_auth_lib ''k7'' ''p'' (Some (replicate 32 CHR ''x'')) = Inr (token, hash)"
    by (simp add: GenerateAPIKeyForID_def demo_auth_lib_def Let_def)
  with APIKeyID_GenerateAPIKeyForID [OF g] show ?thesis by simp
qed

section \<open>Keys\<close>

text \<open>C30. Whoever is authenticated by an API key presented a token whose peppered hash is stored in an unrevoked,
  unexpired key of the tenant the principal gets, with exactly the scopes of that key; nothing but the time of
  last use of that key is written.\<close>

theorem Authenticate_api_key_sound:
  assumes "Authenticate L cfg e raw s = Inr (p, s')" "Kind p = ''api_key''"
  shows "\<exists>k \<in> set (db_api_keys s). token_key L raw = Some (ak_id k) \<and> ak_key_hash k = HashAPIKey raw (APIKeyPepper cfg) \<and>
      ak_revoked_at k = None \<and> (\<forall>t. ak_expires_at k = Some t \<longrightarrow> e_gonow e < t) \<and>
      TenantID p = ak_tenant_id k \<and> Scopes p = ak_scopes k \<and>
      s' = s\<lparr>db_api_keys := update_where (\<lambda>x. ak_id x = ak_id k) (\<lambda>x. x\<lparr>ak_last_used_at := Some (e_now e)\<rparr>) (db_api_keys s)\<rparr>"
proof -
  have rm: "HasPrefix raw ''rm_''"
    using assms by (auto simp: Authenticate_def authenticateOIDC_def Let_def split: if_splits sum.splits option.splits)
  from Authenticate_Kind [OF assms] have "authenticateAPIKey L cfg e raw s = Inr (p, s')" .
  with rm show ?thesis
    by (auto simp: authenticateAPIKey_def token_key_def dest!: query_row_SomeD split: option.splits if_splits)
qed

theorem Authenticate_api_key_sound_witness:
  "\<exists>p s'. Authenticate demo_auth_lib demo_auth (demo_env 1 20) demo_token demo_keyed = Inr (p, s') \<and> TenantID p = 9"
proof -
  obtain p s' where a: "Authenticate demo_auth_lib demo_auth (demo_env 1 20) demo_token demo_keyed = Inr (p, s')" "Kind p = ''api_key''"
    using demo_accepted by auto
  from Authenticate_api_key_sound [OF a] a(1) show ?thesis by (auto simp: demo_keyed_keys)
qed

text \<open>C31. A key that was just created is accepted: the token it was created for authenticates, until the key expires,
  as the key's tenant with the key's scopes, whatever the other keys of the table are.\<close>

theorem CreateAPIKey_accepted:
  assumes "CreateAPIKey e kid tenant user name scopes expires (HashAPIKey raw (APIKeyPepper cfg)) s = Inr (k, s1)"
    and "keys_unique s" and "token_key L raw = Some kid"
    and "\<forall>t. expires = Some t \<longrightarrow> e_gonow e' < t"
  shows "\<exists>p s2. Authenticate L cfg e' raw s1 = Inr (p, s2) \<and> TenantID p = tenant \<and> Scopes p = scopes \<and> Kind p = ''api_key''"
proof -
  note k = CreateAPIKey_Inr [OF assms(1)]
  from token_accepted [OF assms(3) CreateAPIKey_unique [OF assms(1,2)], of k cfg e'] k assms(4)
  show ?thesis by (cases expires) auto
qed

theorem CreateAPIKey_accepted_witness:
  "\<exists>p s2. Authenticate demo_auth_lib demo_auth (demo_env 1 20) demo_token demo_keyed = Inr (p, s2) \<and> TenantID p = 9"
proof -
  obtain k s1 where c: "CreateAPIKey (demo_env 1 10) 7 9 None ''ci'' [''workers:execute''] (Some 500)
      (HashAPIKey demo_token (APIKeyPepper demo_auth)) empty_db = Inr (k, s1)"
    by (simp add: CreateAPIKey_def empty_db_def exists_row_iff Let_def)
  then have "s1 = demo_keyed" by (simp add: demo_keyed_def commit_def demo_auth_def)
  moreover have "keys_unique empty_db" by (simp add: keys_unique_def empty_db_def)
  ultimately show ?thesis using CreateAPIKey_accepted [OF c _ demo_token_key, of "demo_env 1 20"] by auto
qed

text \<open>C32. A revoked key is dead: after \<^verbatim>\<open>RevokeAPIKey\<close> every token that names the key is refused, at any time and with any pepper.\<close>

theorem RevokeAPIKey_refused:
  assumes "RevokeAPIKey e kid tenant user s = Inr s'" "keys_unique s" "token_key L raw = Some kid"
  shows "\<exists>er. Authenticate L cfg e' raw s' = Inl er"
proof (cases "Authenticate L cfg e' raw s'")
  case (Inr q)
  obtain p s'' where "Authenticate L cfg e' raw s' = Inr (p, s'')" using Inr by (cases q) auto
  from Authenticate_key_cases [OF assms(3) this]
  obtain k where k: "k \<in> set (db_api_keys s')" "ak_id k = kid" "ak_revoked_at k = None" by auto
  obtain r where r: "r \<in> set (db_api_keys s)" "ak_id r = kid" "revoke_where kid tenant r"
    using RevokeAPIKey_Inr(2) [OF assms(1)] by (auto simp: revoke_where_def key_where_def)
  obtain x where x: "x \<in> set (db_api_keys s)" "k = (if revoke_where kid tenant x then x\<lparr>ak_revoked_at := Some (e_now e)\<rparr> else x)"
    using k(1) unfolding RevokeAPIKey_Inr(1) [OF assms(1)] by (auto simp: update_where_def)
  have "ak_id x = ak_id r" using x(2) k(2) r(2) by (simp split: if_splits)
  then have "x = r" using distinct_map_eq [of ak_id, OF _ x(1) r(1)] assms(2) by (simp add: keys_unique_def)
  with x(2) r(3) k(3) show ?thesis by simp
qed simp

theorem RevokeAPIKey_refused_witness:
  "\<exists>s' er. RevokeAPIKey (demo_env 1 20) 7 9 None demo_keyed = Inr s' \<and>
     Authenticate demo_auth_lib demo_auth (demo_env 1 30) demo_token s' = Inl er"
proof -
  obtain s' where r: "RevokeAPIKey (demo_env 1 20) 7 9 None demo_keyed = Inr s'"
    by (simp add: RevokeAPIKey_def rows_affected_def demo_keyed_keys revoke_where_def key_where_def)
  with RevokeAPIKey_refused [OF r demo_keyed_unique demo_token_key, of demo_auth "demo_env 1 30"] show ?thesis by blast
qed

text \<open>C33. Rotation replaces the secret: after \<^verbatim>\<open>RotateAPIKey\<close> the new token of the key is accepted, unless the key has expired,
  and an old one, whose hash differs, is refused. This holds for a revoked key too: rotation makes it valid again.\<close>

theorem RotateAPIKey_replaces:
  assumes "RotateAPIKey e kid tenant user (HashAPIKey new (APIKeyPepper cfg)) s = Inr (k, s')" "keys_unique s"
    and "token_key L new = Some kid"
    and "\<forall>t. ak_expires_at k = Some t \<longrightarrow> e_gonow e' < t"
  shows "(\<exists>p s''. Authenticate L cfg e' new s' = Inr (p, s'') \<and> TenantID p = tenant) \<and>
    (\<forall>old. token_key L old = Some kid \<and> HashAPIKey old (APIKeyPepper cfg) \<noteq> HashAPIKey new (APIKeyPepper cfg) \<longrightarrow>
       (\<exists>er. Authenticate L cfg e' old s' = Inl er))"
proof -
  obtain r where r: "r \<in> set (db_api_keys s)" "key_where kid tenant r" "k = rotate_set (HashAPIKey new (APIKeyPepper cfg)) r"
    and s': "db_api_keys s' = update_where (key_where kid tenant) (rotate_set (HashAPIKey new (APIKeyPepper cfg))) (db_api_keys s)"
    using RotateAPIKey_Inr [OF assms(1)] by blast
  have uniq: "keys_unique s'" by (rule RotateAPIKey_unique [OF assms(1,2)])
  have k: "k \<in> set (db_api_keys s')" unfolding s' r(3) using r(1,2) by (auto simp: update_where_def image_iff intro!: bexI [of _ r])
  have f: "ak_id k = kid" "ak_tenant_id k = tenant" "ak_revoked_at k = None" "ak_key_hash k = HashAPIKey new (APIKeyPepper cfg)"
    using r(2,3) by (simp_all add: rotate_set_def key_where_def)
  have "ak_expires_at k = None \<or> (\<exists>t. ak_expires_at k = Some t \<and> e_gonow e' < t)" using assms(4) by (cases "ak_expires_at k") auto
  from token_accepted [OF assms(3) uniq k f(1,3,4) this] f(2)
  have new: "\<exists>p s''. Authenticate L cfg e' new s' = Inr (p, s'') \<and> TenantID p = tenant" by auto
  have "\<exists>er. Authenticate L cfg e' old s' = Inl er"
    if old: "token_key L old = Some kid" "HashAPIKey old (APIKeyPepper cfg) \<noteq> HashAPIKey new (APIKeyPepper cfg)" for old
  proof (cases "Authenticate L cfg e' old s'")
    case (Inr q)
    obtain p s'' where "Authenticate L cfg e' old s' = Inr (p, s'')" using Inr by (cases q) auto
    from Authenticate_key_cases [OF old(1) this]
    obtain x where x: "x \<in> set (db_api_keys s')" "ak_id x = kid" "ak_key_hash x = HashAPIKey old (APIKeyPepper cfg)" by auto
    have "x = k" using distinct_map_eq [of ak_id, OF _ x(1) k] x(2) f(1) uniq by (simp add: keys_unique_def)
    with x(3) f(4) old(2) show ?thesis by simp
  qed simp
  with new show ?thesis by simp
qed


theorem RotateAPIKey_replaces_witness:
  "\<exists>k s' s''. RevokeAPIKey (demo_env 1 15) 7 9 None demo_keyed = Inr s' \<and>
     RotateAPIKey (demo_env 1 20) 7 9 None (HashAPIKey ''rm_k7_Ag'' ''p'') s' = Inr (k, s'') \<and>
     (\<exists>p t. Authenticate demo_auth_lib demo_auth (demo_env 1 30) ''rm_k7_Ag'' s'' = Inr (p, t) \<and> TenantID p = 9)"
proof -
  obtain s' where v: "RevokeAPIKey (demo_env 1 15) 7 9 None demo_keyed = Inr s'"
    by (simp add: RevokeAPIKey_def rows_affected_def demo_keyed_keys revoke_where_def key_where_def)
  have keys: "db_api_keys s' = [(hd (db_api_keys demo_keyed))\<lparr>ak_revoked_at := Some 15\<rparr>]"
    using RevokeAPIKey_Inr(1) [OF v] by (simp add: demo_keyed_keys revoke_where_def key_where_def update_where_def)
  obtain k s'' where r: "RotateAPIKey (demo_env 1 20) 7 9 None (HashAPIKey ''rm_k7_Ag'' (APIKeyPepper demo_auth)) s' = Inr (k, s'')"
    by (simp add: RotateAPIKey_def query_row_def exists_row_iff keys demo_keyed_keys key_where_def)
  have "ak_expires_at k = Some 500"
    using r by (auto simp: RotateAPIKey_def query_row_def keys demo_keyed_keys key_where_def rotate_set_def exists_row_iff)
  moreover have "token_key demo_auth_lib ''rm_k7_Ag'' = Some 7"
    by (simp add: token_key_def APIKeyID_def demo_auth_lib_def HasPrefix_def numeral_3_eq_3)

  ultimately show ?thesis
    using RotateAPIKey_replaces [OF r RevokeAPIKey_unique [OF v demo_keyed_unique], of demo_auth_lib "demo_env 1 30"] v r
    by (auto simp: demo_auth_def)
qed

section \<open>Roles and scopes\<close>

text \<open>C34. Only workers get through \<^verbatim>\<open>WorkerMiddleware\<close>: whoever does holds \<^verbatim>\<open>workers:execute\<close>, by a stored API key that grants it or,
  in development mode only, by the development worker token; an OIDC user never does. A refused request is answered 401.\<close>

theorem WorkerMiddleware_scope:
  "case WorkerMiddleware L cfg e r s of
     (Inr p, s') \<Rightarrow> HasScope p ''workers:execute'' \<and>
       ((Dev cfg \<and> bearer (rq_header r ''Authorization'') = DevWorkerToken cfg) \<or>
        (\<exists>k \<in> set (db_api_keys s). token_key L (bearer (rq_header r ''Authorization'')) = Some (ak_id k) \<and>
           ak_revoked_at k = None \<and> ''workers:execute'' \<in> set (ak_scopes k) \<and> TenantID p = ak_tenant_id k))
   | (Inl a, s') \<Rightarrow> a = (401, ''invalid worker credential'')"
proof (cases "WorkerMiddleware L cfg e r s")
  case (Pair q s')
  define raw where "raw = bearer (rq_header r ''Authorization'')"
  show ?thesis
  proof (cases q)
    case (Inl a)
    with Pair show ?thesis by (auto simp: WorkerMiddleware_def split: prod.splits sum.splits)
  next
    case (Inr p)
    then have w: "AuthenticateWorker L cfg e raw s = (Inr p, s')"
      using Pair by (auto simp: WorkerMiddleware_def raw_def split: prod.splits sum.splits)
    show ?thesis
    proof (cases "Dev cfg \<and> raw \<noteq> '''' \<and> raw = DevWorkerToken cfg")
      case True
      with w Pair Inr show ?thesis by (auto simp: AuthenticateWorker_def HasScope_def raw_def)
    next
      case False
      then have a: "Authenticate L cfg e raw s = Inr (p, s')" "Kind p = ''api_key''" and h: "HasScope p ''workers:execute''"
        using w by (auto simp: AuthenticateWorker_def split: sum.splits prod.splits if_splits)
      obtain idt kid k where k: "APIKeyID L raw = Some idt" "lib_pg_uuid L idt = Some kid" "k \<in> set (db_api_keys s)" "ak_id k = kid"
          "ak_revoked_at k = None" "TenantID p = ak_tenant_id k" "Scopes p = ak_scopes k"
        using authenticateAPIKey_Inr [OF Authenticate_Kind [OF a]] by metis
      moreover have "HasPrefix raw ''rm_''"
        using a by (auto simp: Authenticate_def authenticateOIDC_def Let_def split: if_splits sum.splits option.splits)
      ultimately have "token_key L raw = Some (ak_id k)" by (simp add: token_key_def)
      with k h Pair Inr show ?thesis by (auto simp: HasScope_def raw_def intro!: bexI [of _ k])
    qed
  qed
qed

text \<open>Authorisation: an API key reaches a protected operation exactly by its scope and never one reserved to people;
  anyone else exactly by a role at least as high as the one required, where an unknown role ranks below every known one.\<close>

lemma Require_iff:
  "(Require role scope p = None \<longleftrightarrow>
      (if Kind p = ''api_key'' then scope \<in> set (Scopes p) else roleLevel role \<le> roleLevel (Role p))) \<and>
   (RequireHumanRole role p = None \<longleftrightarrow> Kind p \<noteq> ''api_key'' \<and> roleLevel role \<le> roleLevel (Role p)) \<and>
   (RequireHumanRole ''admin'' p = None \<longleftrightarrow> Kind p \<noteq> ''api_key'' \<and> Role p = ''admin'')"
  by (simp add: Require_def RequireHumanRole_def HasScope_def roleLevel_def not_less)

end
