(* ===== verification/Processes.thy ===== *)
theory Processes
  imports Config Gateway Auth_Properties
begin

text \<open>
  How \<^verbatim>\<open>cmd/control-plane/main.go\<close> and \<^verbatim>\<open>cmd/scheduler/main.go\<close> build their services from the
  configuration, \<^verbatim>\<open>New\<close> and \<^verbatim>\<open>ensureBucket\<close> of \<^verbatim>\<open>internal/artifact/manager.go\<close>, and the loops of
  \<^verbatim>\<open>internal/scheduler/scheduler.go\<close>. Opening the database, the exporters and the listeners, the AWS
  and Redis clients are outside the repository: \<open>startup\<close> holds their answers, \<open>None\<close> for success.
  A process that exits returns the label and the text that it logs.
\<close>

section \<open>Artifact storage\<close>

record artifact_config =
  ac_Endpoint :: string
  ac_PublicEndpoint :: string
  ac_Region :: string
  ac_Bucket :: string
  ac_AccessKey :: string
  ac_SecretKey :: string
  ac_PathStyle :: bool
  ac_CreateBucket :: bool
  ac_PresignExpiry :: time

record s3_options =
  so_UsePathStyle :: bool
  so_BaseEndpoint :: "string option"

text \<open>
  \<open>lib_LoadDefaultConfig\<close> is given the region and the static credentials, if any; \<open>lib_s3\<close> is the
  store as it is seen through a client and a presigning client with the given options. The argument of
  \<open>lib_HeadBucket\<close> numbers its calls.
\<close>

record aws_lib =
  lib_LoadDefaultConfig :: "string \<Rightarrow> (string \<times> string) option \<Rightarrow> string option"
  lib_s3 :: "string \<Rightarrow> (string \<times> string) option \<Rightarrow> s3_options \<Rightarrow> s3_options \<Rightarrow> s3"
  lib_HeadBucket :: "nat \<Rightarrow> string \<Rightarrow> string option"
  lib_CreateBucket :: "string \<Rightarrow> string option"

definition ensureBucket :: "aws_lib \<Rightarrow> string \<Rightarrow> string option" where
  "ensureBucket A bucket =
     (if lib_HeadBucket A 0 bucket = None then None
      else case lib_CreateBucket A bucket of
             None \<Rightarrow> None
           | Some er \<Rightarrow> if lib_HeadBucket A 1 bucket = None then None else Some (''create artifact bucket: '' @ er))"

definition artifact_New :: "aws_lib \<Rightarrow> artifact_config \<Rightarrow> string + (s3 \<times> manager)" where
  "artifact_New A cfg =
     (let credentials = (if ac_AccessKey cfg \<noteq> '''' then Some (ac_AccessKey cfg, ac_SecretKey cfg) else None);
          endpoint = TrimRight1 (ac_Endpoint cfg) CHR ''/'';
          public = TrimRight1 (ac_PublicEndpoint cfg) CHR ''/'';
          client = \<lparr>so_UsePathStyle = ac_PathStyle cfg,
                    so_BaseEndpoint = (if ac_Endpoint cfg \<noteq> '''' then Some endpoint else None)\<rparr>;
          presign = (if ac_PublicEndpoint cfg \<noteq> '''' \<and> public \<noteq> endpoint
                     then \<lparr>so_UsePathStyle = ac_PathStyle cfg, so_BaseEndpoint = Some public\<rparr> else client);
          m = manager_New (ac_Bucket cfg) (ac_PresignExpiry cfg)
      in case lib_LoadDefaultConfig A (ac_Region cfg) credentials of
           Some er \<Rightarrow> Inl (''load S3 configuration: '' @ er)
         | None \<Rightarrow>
             (case (if ac_CreateBucket cfg then ensureBucket A (mg_bucket m) else None) of
                Some er \<Rightarrow> Inl er
              | None \<Rightarrow> Inr (lib_s3 A (ac_Region cfg) credentials client presign, m)))"

section \<open>The control plane\<close>

record startup =
  st_getenv :: getenv
  st_telemetry :: "string option"
  st_database :: "string \<Rightarrow> string option"
  st_aws :: aws_lib
  st_redis :: "string \<Rightarrow> string option"
  st_listen :: "string \<Rightarrow> string option"

text \<open>
  \<^verbatim>\<open>if err != nil { slog.Error(label, ...); os.Exit(1) }\<close>.
\<close>

definition or_exit :: "string \<Rightarrow> string option \<Rightarrow> (string \<times> string) + 'a \<Rightarrow> (string \<times> string) + 'a" where
  "or_exit label failure continue = (case failure of Some er \<Rightarrow> Inl (label, er) | None \<Rightarrow> continue)"

text \<open>
  The ids of the development principal are text in the configuration. Principals of the model hold
  uuids, so \<open>dev\<close> is that principal, once its ids are read.
\<close>

definition dev_principal :: "auth_lib \<Rightarrow> config \<Rightarrow> principal option" where
  "dev_principal L c =
     (case (lib_pg_uuid L (cf_DevTenantID c), lib_pg_uuid L (cf_DevUserID c)) of
        (Some t, Some u) \<Rightarrow> Some \<lparr>TenantID = t, UserID = Some u, Role = cf_DevRole c, Kind = '''', Scopes = []\<rparr>
      | _ \<Rightarrow> None)"

definition authenticator :: "principal \<Rightarrow> config \<Rightarrow> auth_config" where
  "authenticator dev c = auth_New
     \<lparr>Dev = cf_DevAuth c, DevPrincipal = dev, DevWorkerToken = cf_InternalToken c, Issuer = cf_OIDCIssuer c,
      Audience = cf_OIDCAudience c, JWKSURL = cf_OIDCJWKSURL c, TenantClaim = cf_OIDCTenantClaim c,
      APIKeyPepper = cf_APIKeyPepper c\<rparr>"

definition artifact_settings :: "config \<Rightarrow> artifact_config" where
  "artifact_settings c =
     \<lparr>ac_Endpoint = cf_ArtifactEndpoint c, ac_PublicEndpoint = cf_ArtifactPublicEndpoint c, ac_Region = cf_ArtifactRegion c,
      ac_Bucket = cf_ArtifactBucket c, ac_AccessKey = cf_ArtifactAccessKey c, ac_SecretKey = cf_ArtifactSecretKey c,
      ac_PathStyle = cf_ArtifactPathStyle c, ac_CreateBucket = cf_ArtifactCreateBucket c,
      ac_PresignExpiry = cf_ArtifactPresignExpiry c\<rparr>"

definition limiter_New :: "int \<Rightarrow> int \<Rightarrow> bool \<Rightarrow> limiter" where
  "limiter_New rate burst failOpen = \<lparr>lm_rate = rate, lm_burst = burst, lm_failOpen = failOpen\<rparr>"

definition api_New :: "principal \<Rightarrow> config \<Rightarrow> s3 \<times> manager \<Rightarrow> server" where
  "api_New dev c artifacts =
     \<lparr>sv_LeaseDuration = cf_LeaseDuration c, sv_APIKeyPepper = cf_APIKeyPepper c, sv_Artifacts = Some artifacts,
      sv_RateLimit = Some (limiter_New (cf_RateLimitRate c) (cf_RateLimitBurst c) (cf_RateLimitFailOpen c)),
      sv_CORSAllowlist = cf_CORSAllowlist c, sv_auth = authenticator dev c, sv_Live = True\<rparr>"

text \<open>
  The last component tells whether the readiness check asks Redis: what \<^verbatim>\<open>redisReady\<close> is.
\<close>

definition control_plane_main :: "principal \<Rightarrow> startup \<Rightarrow> (string \<times> string) + (server \<times> worker_server \<times> bool)" where
  "control_plane_main dev st =
     (case Load (st_getenv st) of
        Inl er \<Rightarrow> Inl (''configuration'', er)
      | Inr c \<Rightarrow>
          or_exit ''telemetry'' (st_telemetry st) (
          or_exit ''database'' (st_database st (cf_DatabaseURL c)) (
          case artifact_New (st_aws st) (artifact_settings c) of
            Inl er \<Rightarrow> Inl (''artifact storage'', er)
          | Inr artifacts \<Rightarrow>
              or_exit ''rate limiter'' (st_redis st (cf_RedisURL c)) (
              or_exit ''live notification broker'' (st_redis st (cf_RedisURL c)) (
              or_exit ''gRPC listener'' (st_listen st (cf_GRPCAddr c)) (
              Inr (api_New dev c artifacts,
                   \<lparr>ws_auth = authenticator dev c, ws_LeaseDuration = cf_LeaseDuration c, ws_Artifacts = Some artifacts\<rparr>,
                   \<not> cf_RateLimitFailOpen c)))))))"

text \<open>The exit code of \<^verbatim>\<open>--healthcheck\<close>, given the status of \<^verbatim>\<open>/health/ready\<close> if there was an answer.\<close>

definition healthcheck :: "int option \<Rightarrow> nat" where
  "healthcheck status = (if status = Some 200 then 0 else 1)"

section \<open>The scheduler process\<close>

record service =
  se_ScheduleInterval :: time
  se_OutboxInterval :: time
  se_outbox :: outbox_cfg

definition scheduler_main :: "startup \<Rightarrow> (string \<times> string) + service" where
  "scheduler_main st =
     (case Load (st_getenv st) of
        Inl er \<Rightarrow> Inl (''configuration'', er)
      | Inr c \<Rightarrow>
          or_exit ''telemetry'' (st_telemetry st) (
          or_exit ''database'' (st_database st (cf_DatabaseURL c)) (
          or_exit ''live notification broker'' (st_redis st (cf_RedisURL c)) (
          Inr \<lparr>se_ScheduleInterval = cf_SchedulerInterval c, se_OutboxInterval = cf_OutboxInterval c,
               se_outbox = \<lparr>OutboxBatchSize = cf_OutboxBatchSize c, OutboxClaimTTL = cf_OutboxClaimTTL c,
                            OutboxPublishTimeout = cf_OutboxPublishTimeout c\<rparr>\<rparr>))))"

text \<open>
  One round of a loop: \<open>before\<close> is what the rest of the system did since the round before, and the
  other fields are what the round draws from its surroundings. \<^verbatim>\<open>time.NewTicker\<close> panics unless the
  interval is positive; an error of a round is logged and the loop goes on until the context ends.
\<close>

record cycle =
  cy_before :: "db \<Rightarrow> db"
  cy_runs :: "nat \<Rightarrow> env"
  cy_promote :: env
  cy_recover :: env
  cy_dispatch :: env
  cy_locked :: "uuid \<Rightarrow> bool"

fun scheduler_rounds :: "sched_lib \<Rightarrow> cycle list \<Rightarrow> db \<Rightarrow> db" where
  "scheduler_rounds L [] s = s"
| "scheduler_rounds L (c # cs) s =
     scheduler_rounds L cs
       (snd (tick L (cy_runs c) (cy_promote c) (cy_recover c) (cy_dispatch c) (cy_locked c) (cy_before c s)))"

definition runScheduler :: "sched_lib \<Rightarrow> service \<Rightarrow> cycle list \<Rightarrow> db \<Rightarrow> db option" where
  "runScheduler L v cs s = (if se_ScheduleInterval v \<le> 0 then None else Some (scheduler_rounds L cs s))"

record pass =
  pa_before :: "db \<Rightarrow> db"
  pa_envs :: "nat \<Rightarrow> env"
  pa_locked :: "nat \<Rightarrow> uuid \<Rightarrow> bool"
  pa_pub :: "nat \<Rightarrow> nat \<Rightarrow> err option"
  pa_acked :: "nat \<Rightarrow> nat \<Rightarrow> time"

text \<open>The fuel is enough: \<open>publishBatch_returns\<close> asks for more than the events of the backlog.\<close>

definition publish_pass :: "outbox_cfg \<Rightarrow> pass \<Rightarrow> db \<Rightarrow> db" where
  "publish_pass cfg a s =
     (case publishBatch (Suc (length (db_outbox s))) cfg s (pa_envs a) (pa_locked a) (pa_pub a) (pa_acked a) 0
             \<lparr>p_outbox = db_outbox s, p_sent = [], p_live = []\<rparr> of
        None \<Rightarrow> s
      | Some (r, p) \<Rightarrow> s\<lparr>db_outbox := p_outbox p\<rparr>)"

fun outbox_rounds :: "outbox_cfg \<Rightarrow> pass list \<Rightarrow> db \<Rightarrow> db" where
  "outbox_rounds cfg [] s = s"
| "outbox_rounds cfg (a # as) s = outbox_rounds cfg as (publish_pass cfg a (pa_before a s))"

definition runOutbox :: "service \<Rightarrow> pass list \<Rightarrow> db \<Rightarrow> db option" where
  "runOutbox v as s = (if se_OutboxInterval v \<le> 0 then None else Some (outbox_rounds (se_outbox v) as s))"

section \<open>What an accepted configuration guarantees\<close>

lemma Load_Inr:
  assumes "Load getenv = Inr c"
  shows "0 < cf_RateLimitRate c" "0 < cf_RateLimitBurst c" "0 < cf_OutboxBatchSize c" "0 < cf_OutboxPublishTimeout c"
    "cf_OutboxPublishTimeout c < cf_OutboxClaimTTL c" "0 < cf_ArtifactPresignExpiry c" "cf_ArtifactPresignExpiry c \<le> 3600 * 1000000000"
    "cf_ArtifactAccessKey c = '''' \<longleftrightarrow> cf_ArtifactSecretKey c = ''''"
    "\<not> cf_DevAuth c \<Longrightarrow> cf_InternalToken c \<noteq> '''' \<and> cf_OIDCIssuer c \<noteq> '''' \<and> cf_OIDCJWKSURL c \<noteq> '''' \<and>
       cf_OIDCAudience c \<noteq> '''' \<and> cf_APIKeyPepper c \<noteq> '''' \<and> \<not> cf_RateLimitFailOpen c"
  using assms by (auto simp: Load_def split: sum.splits if_splits)

lemma control_plane_Inr:
  assumes "control_plane_main dev st = Inr (sv, w, redis)"
  obtains c S where "Load (st_getenv st) = Inr c"
    "sv = api_New dev c (S, manager_New (cf_ArtifactBucket c) (cf_ArtifactPresignExpiry c))"
    "w = \<lparr>ws_auth = authenticator dev c, ws_LeaseDuration = cf_LeaseDuration c,
          ws_Artifacts = Some (S, manager_New (cf_ArtifactBucket c) (cf_ArtifactPresignExpiry c))\<rparr>"
    "redis = (\<not> cf_RateLimitFailOpen c)"
  using assms by (auto simp: control_plane_main_def or_exit_def artifact_New_def artifact_settings_def Let_def
      split: sum.splits option.splits if_splits)

lemma authenticator_simps [simp]:
  "Dev (authenticator dev c) = cf_DevAuth c" "APIKeyPepper (authenticator dev c) = cf_APIKeyPepper c"
  by (simp_all add: authenticator_def auth_New_def)

lemma AuthenticateWorker_production:
  assumes "AuthenticateWorker L cfg e raw s = (Inr p, s')" "\<not> Dev cfg"
  shows "\<exists>k \<in> set (db_api_keys s). ak_tenant_id k = TenantID p \<and> ak_revoked_at k = None \<and> ''workers:execute'' \<in> set (ak_scopes k)"
proof -
  have a: "Authenticate L cfg e raw s = Inr (p, s')" "Kind p = ''api_key''" and h: "HasScope p ''workers:execute''"
    using assms by (auto simp: AuthenticateWorker_def split: sum.splits prod.splits if_splits)
  obtain k where "k \<in> set (db_api_keys s)" "ak_revoked_at k = None" "TenantID p = ak_tenant_id k" "Scopes p = ak_scopes k"
    by (rule authenticateAPIKey_Inr [OF Authenticate_Kind [OF a]])
  with h a(2) show ?thesis by (auto simp: HasScope_def)
qed

lemma Authenticate_production:
  assumes "Authenticate L cfg e raw s = Inr (p, s')"
  shows "Kind p = ''oidc'' \<and> (\<exists>u \<in> set (db_users s). us_tenant_id u = TenantID p \<and> UserID p = Some (us_id u) \<and> Role p = us_role u) \<or>
    Kind p = ''api_key'' \<and> (\<exists>k \<in> set (db_api_keys s). ak_tenant_id k = TenantID p \<and> ak_revoked_at k = None \<and> Scopes p = ak_scopes k)"
proof (cases "HasPrefix raw ''rm_''")
  case True
  with assms have "authenticateAPIKey L cfg e raw s = Inr (p, s')" by (simp add: Authenticate_def split: if_splits)
  then obtain k where "k \<in> set (db_api_keys s)" "ak_revoked_at k = None" "TenantID p = ak_tenant_id k" "Scopes p = ak_scopes k"
      "Kind p = ''api_key''"
    by (rule authenticateAPIKey_Inr)
  then show ?thesis by auto
next
  case False
  with assms show ?thesis
    by (auto simp: Authenticate_def authenticateOIDC_def Let_def dest: query_row_SomeD split: if_splits sum.splits option.splits)
qed

section \<open>The loops make steps of the system\<close>

text \<open>What the rest of the system does between rounds is a history, and the ids of scheduled runs are fresh.\<close>

fun cycles_ok :: "sched_lib \<Rightarrow> cycle list \<Rightarrow> db \<Rightarrow> bool" where
  "cycles_ok L [] s \<longleftrightarrow> True"
| "cycles_ok L (c # cs) s \<longleftrightarrow>
     history s (cy_before c s) \<and> fresh_seq (cy_runs c) (cy_before c s) \<and>
     cycles_ok L cs (snd (tick L (cy_runs c) (cy_promote c) (cy_recover c) (cy_dispatch c) (cy_locked c) (cy_before c s)))"

lemma scheduler_rounds_history: "cycles_ok L cs s \<Longrightarrow> history s (scheduler_rounds L cs s)"
proof (induction L cs s rule: scheduler_rounds.induct)
  case (2 L c cs s)
  let ?t = "snd (tick L (cy_runs c) (cy_promote c) (cy_recover c) (cy_dispatch c) (cy_locked c) (cy_before c s))"
  have "history (cy_before c s) ?t"
    using "2.prems" by (auto intro!: history_step step.tick [where r = "fst (tick L (cy_runs c) (cy_promote c) (cy_recover c) (cy_dispatch c) (cy_locked c) (cy_before c s))"])
  moreover have "history ?t (scheduler_rounds L (c # cs) s)" using 2 by simp
  ultimately show ?case using "2.prems" history_trans by (metis cycles_ok.simps(2))
qed simp

lemma publish_pass_history: "history s (publish_pass cfg a s)"
  unfolding publish_pass_def by (auto intro!: history_step step.publish simp del: publishBatch.simps split: option.splits)

lemma outbox_rounds_history: "(\<And>a s. a \<in> set as \<Longrightarrow> history s (pa_before a s)) \<Longrightarrow> history s (outbox_rounds cfg as s)"
proof (induction cfg as s rule: outbox_rounds.induct)
  case (2 cfg a as s)
  then have "history s (pa_before a s)" "history (publish_pass cfg a (pa_before a s)) (outbox_rounds cfg (a # as) s)" by simp_all
  with publish_pass_history show ?case using history_trans by blast
qed simp

text \<open>A pass always finishes: its fuel exceeds the backlog.\<close>

lemma publish_pass_finishes:
  assumes "distinct (map ob_id (db_outbox s))"
  shows "\<exists>r p. publishBatch (Suc (length (db_outbox s))) cfg s (pa_envs a) (pa_locked a) (pa_pub a) (pa_acked a) 0
             \<lparr>p_outbox = db_outbox s, p_sent = [], p_live = []\<rparr> = Some (r, p) \<and> publish_pass cfg a s = s\<lparr>db_outbox := p_outbox p\<rparr>"
proof -
  have "length (backlog (db_outbox s)) \<le> length (db_outbox s)" by (simp add: backlog_def)
  then obtain r p where "publishBatch (Suc (length (db_outbox s))) cfg s (pa_envs a) (pa_locked a) (pa_pub a) (pa_acked a) 0
             \<lparr>p_outbox = db_outbox s, p_sent = [], p_live = []\<rparr> = Some (r, p)"
    using publishBatch_returns [where p = "\<lparr>p_outbox = db_outbox s, p_sent = [], p_live = []\<rparr>"] assms
    by (metis le_imp_less_Suc publishing.select_convs(1))
  then show ?thesis by (simp add: publish_pass_def del: publishBatch.simps)
qed

end
