(* ===== verification/Worker_Client.thy ===== *)
theory Worker_Client
  imports Gateway
begin

text \<open>
  The Go SDK, \<^verbatim>\<open>sdk/go/client.go\<close>: the calls a worker makes, against the gRPC service of \<open>Rpc\<close> and the
  HTTP API of \<open>Http_Api\<close>. The network and the other parties are explicit. The \<open>n\<close>-th exchange of a client
  uses the link \<open>N n\<close>: what everybody else did since the exchange before (\<open>ln_before\<close>), the server as it is
  then, with the environments of its statements, and whether the request or the reply is lost. Deadlines
  and cancelled contexts show as lost requests or replies. An error is its text; \<open>X\<close> gives the texts of
  uuids and instants.
\<close>

section \<open>JSON texts\<close>

fun str_le :: "string \<Rightarrow> string \<Rightarrow> bool" where
  "str_le [] t = True"
| "str_le (c # s) [] = False"
| "str_le (c # s) (d # t) \<longleftrightarrow> (if c = d then str_le s t else (of_char c :: nat) < of_char d)"

fun insert_key :: "string \<times> 'a \<Rightarrow> (string \<times> 'a) list \<Rightarrow> (string \<times> 'a) list" where
  "insert_key kv [] = [kv]"
| "insert_key kv (x # xs) = (if str_le (fst kv) (fst x) then kv # x # xs else x # insert_key kv xs)"

text \<open>The order in which Go prints the entries of a map.\<close>

definition sort_keys :: "(string \<times> 'a) list \<Rightarrow> (string \<times> 'a) list" where
  "sort_keys kvs = foldr insert_key kvs []"

fun separated :: "string \<Rightarrow> string list \<Rightarrow> string" where
  "separated sep [] = []"
| "separated sep [x] = x"
| "separated sep (x # y # xs) = x @ sep @ separated sep (y # xs)"

definition json_char :: "char \<Rightarrow> string" where
  "json_char c =
     (let n = of_char c :: nat
      in if n = 0x22 \<or> n = 0x5C then [CHR 0x5C, c]
         else if n = 8 then [CHR 0x5C, CHR ''b''] else if n = 12 then [CHR 0x5C, CHR ''f''] else if n = 10 then [CHR 0x5C, CHR ''n'']
         else if n = 13 then [CHR 0x5C, CHR ''r''] else if n = 9 then [CHR 0x5C, CHR ''t'']
         else if n < 32 \<or> c \<in> set ''<>&'' then CHR 0x5C # ''u00'' @ [hex_digit (n div 16), hex_digit n]
         else [c])"

definition json_string :: "string \<Rightarrow> string" where
  "json_string s = CHR 0x22 # concat (map json_char s) @ [CHR 0x22]"

text \<open>\<^verbatim>\<open>json.Marshal\<close>; a byte from 0x80 on is taken for a part of a valid character.\<close>

fun Marshal :: "sched_lib \<Rightarrow> json \<Rightarrow> string" where
  "Marshal X JNull = ''null''"
| "Marshal X (JBool b) = (if b then ''true'' else ''false'')"
| "Marshal X (JNum n) = Itoa n"
| "Marshal X (JStr s) = json_string s"
| "Marshal X (JUuid u) = json_string (lib_uuid_text X u)"
| "Marshal X (JTime t) = json_string (lib_time_text X t)"
| "Marshal X (JArr js) = ''['' @ separated '','' (map (Marshal X) js) @ '']''"
| "Marshal X (JObj kvs) =
     ''{'' @ separated '','' (map (\<lambda>(k, v). json_string k @ '':'' @ v) (sort_keys (map (\<lambda>(k, j). (k, Marshal X j)) kvs))) @ ''}''"

section \<open>The network\<close>

datatype fault = Delivered | RequestLost string | ReplyLost string

text \<open>
  \<open>ln_http\<close> answers a request to the object store, given method, address, headers and body: an error, or
  the status with its line, the first 4096 bytes of the body and the JSON value of the body, if it is one.
\<close>

record http_answer =
  ha_status :: int
  ha_line :: string
  ha_raw :: string
  ha_json :: "json option"

record link =
  ln_before :: "db \<Rightarrow> db"
  ln_server :: worker_server
  ln_envs :: "nat \<Rightarrow> env"
  ln_call :: call
  ln_fault :: fault
  ln_http :: "string \<Rightarrow> string \<Rightarrow> (string \<times> string) list \<Rightarrow> char list \<Rightarrow> string + http_answer"

type_synonym net = "nat \<Rightarrow> link"

text \<open>A client stands before its \<open>n\<close>-th exchange, in a state of the world.\<close>

type_synonym site = "nat \<times> world"

type_synonym 'a outcome = "(string + 'a) \<times> site"

definition next_site :: "net \<Rightarrow> (db \<Rightarrow> db) \<Rightarrow> site \<Rightarrow> site" where
  "next_site N f st = (case st of (n, w) \<Rightarrow> (Suc n, w\<lparr>w_db := f (ln_before (N n) (w_db w))\<rparr>))"

text \<open>\<^verbatim>\<open>if err != nil { return ..., err }\<close>.\<close>

definition and_then :: "'a outcome \<Rightarrow> ('a \<Rightarrow> site \<Rightarrow> 'b outcome) \<Rightarrow> 'b outcome" where
  "and_then r f = (case r of (Inl er, st) \<Rightarrow> (Inl er, st) | (Inr a, st) \<Rightarrow> f a st)"

definition prefix_error :: "string \<Rightarrow> 'a outcome \<Rightarrow> 'a outcome" where
  "prefix_error t r = (map_sum (\<lambda>er. t @ '': '' @ er) id (fst r), snd r)"

definition status_text :: "status \<Rightarrow> string" where
  "status_text x = (case x of (c, m) \<Rightarrow> ''rpc error: code = '' @
     (case c of Unauthenticated \<Rightarrow> ''Unauthenticated'' | Unavailable \<Rightarrow> ''Unavailable'' | PermissionDenied \<Rightarrow> ''PermissionDenied''
      | FailedPrecondition \<Rightarrow> ''FailedPrecondition'' | NotFound \<Rightarrow> ''NotFound'' | Internal \<Rightarrow> ''Internal'') @ '' desc = '' @ m)"

text \<open>A unary gRPC call.\<close>

definition rpc :: "net \<Rightarrow> (link \<Rightarrow> db \<Rightarrow> 'a reply) \<Rightarrow> site \<Rightarrow> 'a outcome" where
  "rpc N f st =
     (let l = N (fst st); s = ln_before l (w_db (snd st))
      in case ln_fault l of
           RequestLost er \<Rightarrow> (Inl er, next_site N id st)
         | ReplyLost er \<Rightarrow> (Inl er, next_site N (snd \<circ> f l) st)
         | Delivered \<Rightarrow> (map_sum status_text id (fst (f l s)), next_site N (snd \<circ> f l) st))"

text \<open>A request to the object store, which does not touch the database.\<close>

definition http_Do :: "net \<Rightarrow> string \<Rightarrow> string \<Rightarrow> (string \<times> string) list \<Rightarrow> char list \<Rightarrow> site \<Rightarrow> http_answer outcome" where
  "http_Do N verb url headers body st = (ln_http (N (fst st)) verb url headers body, next_site N id st)"

section \<open>The client\<close>

record client =
  cl_token :: string
  cl_workerID :: string
  cl_httpBaseURL :: string
  cl_initErr :: "string option"

text \<open>\<open>dial\<close> is what \<^verbatim>\<open>grpc.NewClient\<close> says to a target.\<close>

definition NewClient :: "(string \<Rightarrow> string option) \<Rightarrow> string \<Rightarrow> string \<Rightarrow> string \<Rightarrow> client" where
  "NewClient dial endpoint token workerID =
     (let target = TrimPrefix (TrimPrefix (TrimRight1 endpoint CHR ''/'') ''http://'') ''grpc://'';
          httpTarget = (if HasSuffix target ''7001'' then TrimSuffix target ''7001'' @ ''8080'' else target)
      in \<lparr>cl_token = token, cl_workerID = workerID, cl_httpBaseURL = ''http://'' @ httpTarget, cl_initErr = dial target\<rparr>)"

definition rpcContext :: "client \<Rightarrow> string list" where
  "rpcContext c = [''Bearer '' @ cl_token c]"

definition initialised :: "client \<Rightarrow> (site \<Rightarrow> 'a outcome) \<Rightarrow> site \<Rightarrow> 'a outcome" where
  "initialised c f st = (case cl_initErr c of Some er \<Rightarrow> (Inl er, st) | None \<Rightarrow> f st)"

text \<open>A task as the SDK shows it; \<open>tk_Input = None\<close>: bytes that are not JSON.\<close>

record sdk_task =
  tk_ID :: uuid
  tk_WorkflowRunID :: uuid
  tk_TaskKey :: string
  tk_Handler :: string
  tk_Status :: task_status
  tk_AttemptCount :: int
  tk_TimeoutSeconds :: int
  tk_Input :: "json option"
  tk_InputArtifactURI :: string

definition sdk_task_of :: "task_snapshot \<Rightarrow> sdk_task" where
  "sdk_task_of v =
     \<lparr>tk_ID = sn_id v, tk_WorkflowRunID = sn_workflow_run_id v, tk_TaskKey = sn_task_key v, tk_Handler = sn_handler v,
      tk_Status = sn_status v, tk_AttemptCount = sn_attempt v, tk_TimeoutSeconds = sn_timeout_seconds v,
      tk_Input = Some (sn_input v), tk_InputArtifactURI = sn_input_artifact_uri v\<rparr>"

definition returned :: "('a \<Rightarrow> 'b) \<Rightarrow> 'a outcome \<Rightarrow> 'b outcome" where
  "returned f r = and_then r (\<lambda>a st. (Inr (f a), st))"

definition DownloadArtifact :: "auth_lib \<Rightarrow> net \<Rightarrow> client \<Rightarrow> string \<Rightarrow> string \<Rightarrow> site \<Rightarrow> json option outcome" where
  "DownloadArtifact L N c task uri st =
     and_then (rpc N (\<lambda>l. GetArtifactDownload L (ln_server l) (ln_envs l) (rpcContext c) task (cl_workerID c) uri) st) (\<lambda>d st.
     and_then (http_Do N ''GET'' (fst d) [] [] st) (\<lambda>a st.
       if ha_status a < 200 \<or> ha_status a \<ge> 300 then (Inl (''artifact download returned '' @ ha_line a), st)
       else (Inr (ha_json a), st)))"

definition client_Lease :: "auth_lib \<Rightarrow> net \<Rightarrow> client \<Rightarrow> string \<Rightarrow> site \<Rightarrow> sdk_task outcome" where
  "client_Lease L N c task = initialised c (\<lambda>st.
     and_then (rpc N (\<lambda>l. Lease L (ln_server l) (ln_envs l) (rpcContext c) task (cl_workerID c)) st) (\<lambda>v st.
       let result = sdk_task_of v
       in if tk_InputArtifactURI result = '''' then (Inr result, st)
          else returned (\<lambda>j. result\<lparr>tk_Input := j\<rparr>)
                 (prefix_error ''download input artifact'' (DownloadArtifact L N c task (tk_InputArtifactURI result) st))))"

definition client_Start :: "auth_lib \<Rightarrow> net \<Rightarrow> client \<Rightarrow> string \<Rightarrow> site \<Rightarrow> sdk_task outcome" where
  "client_Start L N c task = initialised c (\<lambda>st.
     returned sdk_task_of (rpc N (\<lambda>l. Start L (ln_server l) (ln_envs l) (rpcContext c) task (cl_workerID c)) st))"

definition client_Heartbeat :: "auth_lib \<Rightarrow> net \<Rightarrow> client \<Rightarrow> string \<Rightarrow> site \<Rightarrow> (time \<times> bool) outcome" where
  "client_Heartbeat L N c task = initialised c (\<lambda>st.
     rpc N (\<lambda>l. Heartbeat L (ln_server l) (ln_envs l) (rpcContext c) task (cl_workerID c)) st)"

definition UploadArtifact :: "auth_lib \<Rightarrow> net \<Rightarrow> client \<Rightarrow> string \<Rightarrow> string \<Rightarrow> string \<Rightarrow> char list \<Rightarrow> site \<Rightarrow> string outcome" where
  "UploadArtifact L N c task kind contentType data st =
     and_then (rpc N (\<lambda>l. CreateArtifactUpload L (ln_server l) (ln_envs l) (rpcContext c) task (cl_workerID c) kind contentType
                       (int (length data)) (EncodeHex (Sum256 data))) st) (\<lambda>u st.
     and_then (http_Do N ''PUT'' (ur_upload_url u) (filter (\<lambda>(k, v). ToLower k \<noteq> ''host'') (ur_headers u)) data st) (\<lambda>a st.
       if ha_status a < 200 \<or> ha_status a \<ge> 300 then (Inl (''artifact upload returned '' @ ha_line a @ '': '' @ ha_raw a), st)
       else rpc N (\<lambda>l. CompleteArtifactUpload L (ln_server l) (ln_envs l) (rpcContext c) task (cl_workerID c)
                         (lib_uuid_string L (ur_artifact_id u))) st))"

text \<open>\<^verbatim>\<open>json.Unmarshal\<close> into a map: the members of an object; the error has its type and its text.\<close>

definition json_kind :: "json \<Rightarrow> string" where
  "json_kind j = (case j of JBool _ \<Rightarrow> ''bool'' | JNum _ \<Rightarrow> ''number'' | JArr _ \<Rightarrow> ''array'' | JObj _ \<Rightarrow> ''object'' | JNull \<Rightarrow> ''null''
     | _ \<Rightarrow> ''string'')"

definition unmarshal_map :: "json option \<Rightarrow> (string \<times> string) + (string \<times> json) list" where
  "unmarshal_map v =
     (case v of
        None \<Rightarrow> Inl (''*json.SyntaxError'', ''invalid JSON'')
      | Some JNull \<Rightarrow> Inr []
      | Some (JObj kvs) \<Rightarrow> Inr kvs
      | Some j \<Rightarrow> Inl (''*json.UnmarshalTypeError'',
                    ''json: cannot unmarshal '' @ json_kind j @ '' into Go value of type map[string]interface {}''))"

definition client_Complete :: "auth_lib \<Rightarrow> sched_lib \<Rightarrow> net \<Rightarrow> client \<Rightarrow> string \<Rightarrow> json \<Rightarrow> site \<Rightarrow> sdk_task outcome" where
  "client_Complete L X N c task output = initialised c (\<lambda>st.
     let raw = Marshal X output
     in case unmarshal_map (Some output) of
          Inl er \<Rightarrow> (Inl (snd er), st)
        | Inr object \<Rightarrow>
            and_then (if length raw > 256 * 2 ^ 10
                      then returned (\<lambda>uri. (uri, []))
                             (prefix_error ''upload output artifact'' (UploadArtifact L N c task ''output'' ''application/json'' raw st))
                      else (Inr ('''', object), st)) (\<lambda>(artifactURI, object) st.
            and_then (prefix_error ''upload task log''
                        (UploadArtifact L N c task ''log'' ''application/json''
                           (Marshal X (JObj [(''task_run_id'', JStr task), (''status'', JStr ''SUCCEEDED'')])) st)) (\<lambda>logURI st.
            returned sdk_task_of
              (rpc N (\<lambda>l. rpc_Complete L (ln_server l) (ln_envs l) (rpcContext c) task (cl_workerID c)
                            (Some (JObj object)) artifactURI logURI) st))))"

text \<open>\<open>er\<close> is the Go type of the error and its text.\<close>

definition client_Fail :: "auth_lib \<Rightarrow> net \<Rightarrow> client \<Rightarrow> string \<Rightarrow> bool \<Rightarrow> string \<times> string \<Rightarrow> site \<Rightarrow> sdk_task outcome" where
  "client_Fail L N c task retryable er = initialised c (\<lambda>st.
     returned sdk_task_of
       (rpc N (\<lambda>l. Fail L (ln_server l) (ln_envs l) (rpcContext c) task (cl_workerID c)
                     \<lparr>Retryable = retryable, ErrorType = fst er, ErrorMessage = snd er, TraceID = ''''\<rparr>) st))"

text \<open>
  A request to the HTTP API. The text of the answer that follows the status in the error of the
  source is left out.
\<close>

definition postHTTP :: "net \<Rightarrow> client \<Rightarrow> string \<Rightarrow> json \<Rightarrow> site \<Rightarrow> unit outcome" where
  "postHTTP N c path body st =
     (let n = fst st; l = N n; w = (snd st)\<lparr>w_db := ln_before l (w_db (snd st))\<rparr>;
          headers = (\<lambda>h. if h = ''Authorization'' then ''Bearer '' @ cl_token c
                         else if h = ''Content-Type'' then ''application/json'' else '''');
          r = \<lparr>rq_method = ''POST'', rq_path = path, rq_header = headers, rq_query = (\<lambda>_. ''''), rq_id = '''', rq_body = [Some body]\<rparr>;
          (rsp, w') = serve (ln_call l) (True, None) None r w
      in case ln_fault l of
           RequestLost er \<Rightarrow> (Inl er, Suc n, w)
         | ReplyLost er \<Rightarrow> (Inl er, Suc n, w')
         | Delivered \<Rightarrow>
             if rs_status rsp < 200 \<or> rs_status rsp \<ge> 300 then (Inl (''runmesh returned '' @ Itoa (rs_status rsp)), Suc n, w')
             else (Inr (), Suc n, w'))"

definition client_Report :: "net \<Rightarrow> client \<Rightarrow> string list \<Rightarrow> int \<Rightarrow> site \<Rightarrow> unit outcome" where
  "client_Report N c handlers busy =
     postHTTP N c (''/internal/v1/workers/'' @ cl_workerID c @ ''/heartbeat'')
       (JObj [(''handlers'', JArr (map JStr handlers)), (''active_tasks'', JNum busy), (''metadata'', JObj [(''sdk'', JStr ''go'')])])"

section \<open>What exchanges keep\<close>

text \<open>
  A relation between states that the other parties keep between exchanges, and that every call of the
  service keeps, is kept by the client.
\<close>

definition others_keep :: "(db \<Rightarrow> db \<Rightarrow> bool) \<Rightarrow> net \<Rightarrow> bool" where
  "others_keep R N \<longleftrightarrow> (\<forall>n s. R s (ln_before (N n) s))"

definition kept :: "(db \<Rightarrow> db \<Rightarrow> bool) \<Rightarrow> site \<Rightarrow> 'a \<times> site \<Rightarrow> bool" where
  "kept R st r \<longleftrightarrow> R (w_db (snd st)) (w_db (snd (snd r)))"

locale exchange_relation =
  fixes R :: "db \<Rightarrow> db \<Rightarrow> bool"
  assumes refl: "R s s"
    and trans: "R s t \<Longrightarrow> R t u \<Longrightarrow> R s u"
    and served: "R s (rpc_serve L w es vals q s)"
begin

lemma kept_same: "kept R st (x, st)"
  by (simp add: kept_def refl)

lemma kept_and_then:
  "kept R st r \<Longrightarrow> (\<And>a st'. r = (Inr a, st') \<Longrightarrow> kept R st' (f a st')) \<Longrightarrow> kept R st (and_then r f)"
  by (cases r; cases "fst r") (auto simp: kept_def and_then_def intro: trans)

lemma kept_returned: "kept R st r \<Longrightarrow> kept R st (returned f r)"
  unfolding returned_def by (rule kept_and_then) (auto intro: kept_same)

lemma kept_prefix_error: "kept R st r \<Longrightarrow> kept R st (prefix_error t r)"
  by (simp add: kept_def prefix_error_def)

lemma kept_initialised: "(\<And>st. kept R st (f st)) \<Longrightarrow> kept R st (initialised c f st)"
  by (auto simp: initialised_def intro: kept_same split: option.splits)

lemma kept_snd: "kept R st (y, snd r)" if "kept R st r"
  using that by (simp add: kept_def)

lemma kept_next: "others_keep R N \<Longrightarrow> (\<And>s. R s (f s)) \<Longrightarrow> kept R st (x, next_site N f st)"
  by (cases st) (auto simp: kept_def next_site_def others_keep_def intro: trans)

lemma kept_rpc: "others_keep R N \<Longrightarrow> (\<And>l s. R s (snd (f l s))) \<Longrightarrow> kept R st (rpc N f st)"
  unfolding rpc_def Let_def by (cases "ln_fault (N (fst st))") (auto intro!: kept_next simp: refl)

lemma kept_http_Do: "others_keep R N \<Longrightarrow> kept R st (http_Do N verb url hs body st)"
  unfolding http_Do_def by (rule kept_next) (simp_all add: refl)

lemma served_calls:
  "R s (snd (Lease L w es vals t k s))" "R s (snd (Start L w es vals t k s))" "R s (snd (Heartbeat L w es vals t k s))"
  "R s (snd (rpc_Complete L w es vals t k out a lg s))" "R s (snd (Fail L w es vals t k f s))"
  "R s (snd (CreateArtifactUpload L w es vals t k kind ct n cs s))" "R s (snd (CompleteArtifactUpload L w es vals t k aid s))"
  "R s (snd (GetArtifactDownload L w es vals t k uri s))"
  using served [of s L w es vals "RpcLease t k"] served [of s L w es vals "RpcStart t k"] served [of s L w es vals "RpcHeartbeat t k"]
    served [of s L w es vals "RpcComplete t k out a lg"] served [of s L w es vals "RpcFail t k f"]
    served [of s L w es vals "RpcCreateUpload t k kind ct n cs"] served [of s L w es vals "RpcCompleteUpload t k aid"]
    served [of s L w es vals "RpcDownload t k uri"] by simp_all

lemmas kept_rules = kept_same kept_and_then kept_returned kept_prefix_error kept_initialised kept_rpc kept_http_Do served_calls

lemma kept_artifact_calls:
  assumes "others_keep R N"
  shows "kept R st (UploadArtifact L N c task kind ct data st)" "kept R st (DownloadArtifact L N c task uri st)"
  unfolding UploadArtifact_def DownloadArtifact_def by (rule kept_rules assms | simp | intro impI conjI)+

lemma kept_task_calls:
  assumes "others_keep R N"
  shows "kept R st (client_Lease L N c task st)" "kept R st (client_Start L N c task st)" "kept R st (client_Heartbeat L N c task st)"
    "kept R st (client_Fail L N c task rt er st)"
  unfolding client_Lease_def client_Start_def client_Heartbeat_def client_Fail_def Let_def
  by (rule kept_rules assms kept_artifact_calls | simp | intro impI conjI)+

lemma kept_client_Complete:
  assumes "others_keep R N"
  shows "kept R st (client_Complete L X N c task out st)"
  unfolding client_Complete_def Let_def
  by (rule kept_rules assms kept_artifact_calls | simp split: sum.split prod.split | intro impI conjI allI)+

end

interpretation hist_client: exchange_relation history
  by unfold_locales (auto intro: history_trans history_rpc_serve)

lemma postHTTP_history:
  assumes "others_keep history N" "\<And>r. call_ok (ln_call (N (fst st))) r (ln_before (N (fst st)) (w_db (snd st)))"
  shows "kept history st (postHTTP N c path body st)"
proof -
  define w where "w = (snd st)\<lparr>w_db := ln_before (N (fst st)) (w_db (snd st))\<rparr>"
  define r where "r = \<lparr>rq_method = ''POST'', rq_path = path,
    rq_header = (\<lambda>h. if h = ''Authorization'' then ''Bearer '' @ cl_token c else if h = ''Content-Type'' then ''application/json'' else ''''),
    rq_query = (\<lambda>_. ''''), rq_id = '''', rq_body = [Some body]\<rparr>"
  obtain rsp w' where s: "serve (ln_call (N (fst st))) (True, None) None r w = (rsp, w')" by (meson surj_pair)
  have "history (w_db (snd st)) (w_db w)" using assms(1) by (simp add: others_keep_def w_def)
  moreover from history_serve [of "ln_call (N (fst st))" r w "(True, None)" None] have "history (w_db w) (w_db w')"
    using assms(2) by (simp add: s) (simp add: w_def)
  ultimately show ?thesis
    using history_trans by (auto simp: postHTTP_def Let_def kept_def w_def [symmetric] r_def [symmetric] s split: fault.splits)
qed

end
