(* ===== verification/Go_Worker.thy ===== *)
theory Go_Worker
  imports Worker_Client Config
begin

text \<open>
  The example worker, \<^verbatim>\<open>cmd/worker-go/main.go\<close>: fetching dispatches from Kafka, executing them with the
  SDK of \<open>Worker_Client\<close>, the heartbeats beside an execution and the presence reports. The goroutine that
  sends heartbeats is a process of its own: its exchanges fall between those of \<^verbatim>\<open>execute\<close>, whose links
  see them in \<open>ln_before\<close>. A context that ends makes exchanges fail and ends the wait of a slow task.
\<close>

section \<open>Formatting\<close>

text \<open>\<^verbatim>\<open>%v\<close> of a whole \<^verbatim>\<open>float64\<close>: plain up to six digits, else with an exponent.\<close>

definition go_float :: "int \<Rightarrow> string" where
  "go_float i =
     (let ds = decimal (nat \<bar>i\<bar>); e = length ds - 1;
          digs = rev (dropWhile (\<lambda>c. c = CHR ''0'') (rev ds))
      in (if i < 0 then ''-'' else []) @
         (if e < 6 then ds
          else take 1 digs @ (if length digs > 1 then CHR ''.'' # drop 1 digs else []) @
               ''e+'' @ (if e < 10 then ''0'' else []) @ decimal e))"

text \<open>\<^verbatim>\<open>%v\<close> of a decoded JSON value.\<close>

fun go_value :: "sched_lib \<Rightarrow> json \<Rightarrow> string" where
  "go_value X JNull = ''<nil>''"
| "go_value X (JBool b) = (if b then ''true'' else ''false'')"
| "go_value X (JNum n) = go_float n"
| "go_value X (JStr s) = s"
| "go_value X (JUuid u) = lib_uuid_text X u"
| "go_value X (JTime t) = lib_time_text X t"
| "go_value X (JArr js) = ''['' @ separated '' '' (map (go_value X) js) @ '']''"
| "go_value X (JObj kvs) =
     ''map['' @ separated '' '' (map (\<lambda>(k, v). k @ '':'' @ v) (sort_keys (map (\<lambda>(k, j). (k, go_value X j)) kvs))) @ '']''"

definition to_upper :: "char \<Rightarrow> char" where
  "to_upper c = (if of_char c \<in> {97 .. 122 :: nat} then char_of (of_char c - 32 :: nat) else c)"

text \<open>\<^verbatim>\<open>input[key]\<close>; of a repeated member the last one counts.\<close>

definition input_value :: "(string \<times> json) list \<Rightarrow> string \<Rightarrow> json" where
  "input_value kvs key = (case map_of (rev kvs) key of None \<Rightarrow> JNull | Some j \<Rightarrow> j)"

section \<open>Handlers\<close>

definition supported :: "string \<Rightarrow> bool" where
  "supported handler \<longleftrightarrow>
     handler \<in> set [''examples.greet'', ''examples.upper'', ''examples.notify'', ''examples.slow'', ''validation.dead'']"

text \<open>The pause of \<^verbatim>\<open>examples.slow\<close> in milliseconds.\<close>

definition slow_delay :: "(string \<times> json) list \<Rightarrow> int" where
  "slow_delay input =
     (case input_value input ''delay_ms'' of JNum v \<Rightarrow> if 0 \<le> v \<and> v \<le> 30000 then v else 200 | _ \<Rightarrow> 200)"

datatype handled = Output json | Refused bool string | Interrupted

text \<open>\<open>slept\<close>: the pause ended before the context.\<close>

definition run_handler :: "sched_lib \<Rightarrow> bool \<Rightarrow> string \<Rightarrow> string \<Rightarrow> (string \<times> json) list \<Rightarrow> handled" where
  "run_handler X slept task handler input =
     (if handler = ''examples.greet''
      then Output (JObj [(''message'', JStr (''Hello, '' @ go_value X (input_value input ''name'') @ ''!'')), (''worker'', JStr ''go'')])
      else if handler = ''examples.upper''
      then Output (JObj [(''text'', JStr (map to_upper (go_value X (input_value input ''text'')))), (''worker'', JStr ''go'')])
      else if handler = ''examples.notify''
      then Output (JObj [(''delivered'', JBool True), (''idempotency_key'', JStr task), (''worker'', JStr ''go'')])
      else if handler = ''examples.slow''
      then (if slept then Output (JObj [(''slept_ms'', JNum (slow_delay input)), (''worker'', JStr ''go'')]) else Interrupted)
      else if handler = ''validation.dead'' then Refused False ''intentional permanent failure for validation''
      else Refused True (''unsupported handler '' @ quote handler))"

section \<open>Executions\<close>

text \<open>\<open>ended\<close> is the error of the context, if it ends.\<close>

definition execute ::
    "auth_lib \<Rightarrow> sched_lib \<Rightarrow> net \<Rightarrow> client \<Rightarrow> bool \<Rightarrow> string \<Rightarrow> string \<Rightarrow> site \<Rightarrow> unit outcome" where
  "execute L X N c slept ended task st =
     and_then (client_Lease L N c task st) (\<lambda>t st.
     and_then (client_Start L N c task st) (\<lambda>_ st.
       case unmarshal_map (tk_Input t) of
         Inl er \<Rightarrow> (Inl (snd er), snd (client_Fail L N c task False er st))
       | Inr input \<Rightarrow>
           (case run_handler X slept task (tk_Handler t) input of
              Output out \<Rightarrow> returned (\<lambda>_. ()) (client_Complete L X N c task out st)
            | Refused retryable er \<Rightarrow>
                (Inl er, snd (client_Fail L N c task retryable (''*errors.errorString'', er) st))
            | Interrupted \<Rightarrow> (Inl ended, st))))"

text \<open>
  The goroutine beside an execution: a heartbeat at every tick until the context is done; the first
  component tells whether it cancelled the execution.
\<close>

datatype beat = Tick | CtxDone

fun heartbeats :: "auth_lib \<Rightarrow> net \<Rightarrow> client \<Rightarrow> string \<Rightarrow> beat list \<Rightarrow> site \<Rightarrow> bool \<times> site" where
  "heartbeats L N c task [] st = (False, st)"
| "heartbeats L N c task (CtxDone # bs) st = (False, st)"
| "heartbeats L N c task (Tick # bs) st =
     (case client_Heartbeat L N c task st of
        (Inl er, st') \<Rightarrow> heartbeats L N c task bs st'
      | (Inr h, st') \<Rightarrow> if snd h then (True, st') else heartbeats L N c task bs st')"

text \<open>\<open>rounds\<close> counts the reports until the context ends.\<close>

fun report :: "net \<Rightarrow> client \<Rightarrow> nat \<Rightarrow> site \<Rightarrow> site" where
  "report N c 0 st = st"
| "report N c (Suc rounds) st =
     report N c rounds
       (snd (client_Report N c [''examples.greet'', ''examples.upper'', ''examples.notify'', ''examples.slow'', ''validation.dead''] 0 st))"

section \<open>The main loop\<close>

text \<open>A message of Kafka; its value as JSON, if it is.\<close>

record kafka_message =
  km_headers :: "(string \<times> string) list"
  km_value :: "json option"

definition kafka_header :: "(string \<times> string) list \<Rightarrow> string \<Rightarrow> string" where
  "kafka_header hs key = (case map_of hs key of None \<Rightarrow> '''' | Some v \<Rightarrow> v)"

definition dec_text :: "sched_lib \<Rightarrow> string \<Rightarrow> json \<Rightarrow> string option" where
  "dec_text X a j = (case j of JUuid u \<Rightarrow> Some (lib_uuid_text X u) | JTime t \<Rightarrow> Some (lib_time_text X t) | _ \<Rightarrow> dec_string a j)"

text \<open>The fields \<^verbatim>\<open>task_run_id\<close> and \<^verbatim>\<open>handler\<close>; other members are ignored.\<close>

definition decode_dispatch :: "sched_lib \<Rightarrow> json option \<Rightarrow> (string \<times> string) option" where
  "decode_dispatch X v =
     (case v of
        Some JNull \<Rightarrow> Some ('''', '''')
      | Some (JObj kvs) \<Rightarrow>
          (let ms = map (\<lambda>(k, j). (ToLower k, j)) kvs
           in case (field (dec_text X) '''' ''task_run_id'' ms, field (dec_text X) '''' ''handler'' ms) of
                (Some task, Some handler) \<Rightarrow> Some (task, handler)
              | _ \<Rightarrow> None)
      | _ \<Rightarrow> None)"

datatype fetched = Fetched kafka_message | FetchCanceled | FetchFailed

text \<open>
  One round: what was fetched, how the context of an execution behaves, and whether Kafka takes the
  commit (the source only logs it if not).
\<close>

record round_input =
  ri_fetched :: fetched
  ri_slept :: bool
  ri_ended :: string
  ri_committed :: bool

definition handle_message ::
    "auth_lib \<Rightarrow> sched_lib \<Rightarrow> net \<Rightarrow> client \<Rightarrow> bool \<Rightarrow> string \<Rightarrow> kafka_message \<Rightarrow> site \<Rightarrow> site" where
  "handle_message L X N c slept ended m st =
     (if kafka_header (km_headers m) ''event_type'' \<noteq> ''task.dispatch'' then st
      else case decode_dispatch X (km_value m) of
             None \<Rightarrow> st
           | Some (task, handler) \<Rightarrow> if \<not> supported handler then st else snd (execute L X N c slept ended task st))"

text \<open>The loop returns the messages whose offsets were committed, and the site it reached.\<close>

fun worker_main :: "auth_lib \<Rightarrow> sched_lib \<Rightarrow> net \<Rightarrow> client \<Rightarrow> round_input list \<Rightarrow> site \<Rightarrow> kafka_message list \<times> site" where
  "worker_main L X N c [] st = ([], st)"
| "worker_main L X N c (i # is) st =
     (case ri_fetched i of
        FetchCanceled \<Rightarrow> ([], st)
      | FetchFailed \<Rightarrow> worker_main L X N c is st
      | Fetched m \<Rightarrow>
          (let (ms, st') = worker_main L X N c is (handle_message L X N c (ri_slept i) (ri_ended i) m st)
           in (if ri_committed i then m # ms else ms, st')))"

text \<open>The client that \<^verbatim>\<open>main\<close> makes; \<open>hostname = None\<close>: it is unknown.\<close>

definition defaultWorkerID :: "string option \<Rightarrow> string" where
  "defaultWorkerID hostname =
     (case hostname of None \<Rightarrow> ''go-worker'' | Some h \<Rightarrow> if h = '''' then ''go-worker'' else ''go-worker-'' @ h)"

definition worker_client :: "getenv \<Rightarrow> string option \<Rightarrow> (string \<Rightarrow> string option) \<Rightarrow> client" where
  "worker_client getenv hostname dial =
     NewClient dial (env_or getenv ''RUNMESH_ENDPOINT'' ''localhost:7001'')
       (env_or getenv ''RUNMESH_INTERNAL_TOKEN'' ''local-development-token'')
       (env_or getenv ''RUNMESH_WORKER_ID'' (defaultWorkerID hostname))"

section \<open>What the worker keeps\<close>

context exchange_relation
begin

lemma kept_execute:
  assumes "others_keep R N"
  shows "kept R st (execute L X N c slept ended task st)"
  unfolding execute_def
  by (rule kept_rules kept_task_calls kept_client_Complete kept_snd assms | simp split: sum.split handled.split | intro impI conjI allI)+

lemma kept_heartbeats: "others_keep R N \<Longrightarrow> kept R st (heartbeats L N c task bs st)"
proof (induction L N c task bs st rule: heartbeats.induct)
  case (3 L N c task bs st)
  obtain r st' where h: "client_Heartbeat L N c task st = (r, st')" by (meson surj_pair)
  with kept_task_calls(3) [OF "3.prems", of st L c task] have "R (w_db (snd st)) (w_db (snd st'))" by (simp add: kept_def)
  with 3 h show ?case by (cases r) (auto simp: kept_def intro: trans)
qed (auto intro: kept_same)

lemma kept_handle_message:
  assumes "others_keep R N"
  shows "R (w_db (snd st)) (w_db (snd (handle_message L X N c slept ended m st)))"
  using kept_execute [OF assms, of st L X c slept ended] by (auto simp: handle_message_def kept_def refl split: option.splits)

lemma kept_worker_main: "others_keep R N \<Longrightarrow> kept R st (worker_main L X N c is st)"
proof (induction L X N c "is" st rule: worker_main.induct)
  case (2 L X N c i "is" st)
  show ?case
  proof (cases "ri_fetched i")
    case (Fetched m)
    obtain ms st' where w: "worker_main L X N c is (handle_message L X N c (ri_slept i) (ri_ended i) m st) = (ms, st')" by (meson surj_pair)
    with 2(1) [OF Fetched "2.prems"] have "R (w_db (snd (handle_message L X N c (ri_slept i) (ri_ended i) m st))) (w_db (snd st'))"
      by (simp add: kept_def)
    with kept_handle_message [OF "2.prems", of st L X c "ri_slept i" "ri_ended i" m] show ?thesis by (auto simp: Fetched w kept_def intro: trans)
  qed (use 2 in \<open>auto intro: kept_same\<close>)
qed (auto intro: kept_same)

end

end
