(* ===== verification/Isolation.thy ===== *)
theory Isolation
  imports Gateway
begin

text \<open>
  Tenants are isolated: a request served for the principal of one tenant leaves everything that
  another tenant owns as it was. Every statement either names the tenant in its condition or works
  on one run, which belongs to the tenant that was checked before.
\<close>

section \<open>What a tenant owns\<close>

record tenant_data =
  tn_definitions :: "definition_row list"
  tn_runs :: "run_row list"
  tn_tasks :: "task_row list"
  tn_schedules :: "schedule_row list"
  tn_workers :: "worker_row list"
  tn_artifacts :: "artifact_row list"
  tn_api_keys :: "api_key_row list"
  tn_audit :: "audit_row list"

definition runs_of :: "uuid \<Rightarrow> db \<Rightarrow> run_row list" where
  "runs_of t s = filter (\<lambda>r. wr_tenant_id r = t) (db_runs s)"

definition owned :: "uuid \<Rightarrow> db \<Rightarrow> tenant_data" where
  "owned t s =
     \<lparr>tn_definitions = filter (\<lambda>w. wd_tenant_id w = t) (db_definitions s),
      tn_runs = runs_of t s,
      tn_tasks = filter (\<lambda>x. tr_workflow_run_id x \<in> set (map wr_id (runs_of t s))) (db_tasks s),
      tn_schedules = filter (\<lambda>c. sc_tenant_id c = t) (db_schedules s),
      tn_workers = filter (\<lambda>w. wh_tenant_id w = t) (db_workers s),
      tn_artifacts = filter (\<lambda>a. ar_tenant_id a = t) (db_artifacts s),
      tn_api_keys = filter (\<lambda>k. ak_tenant_id k = t) (db_api_keys s),
      tn_audit = filter (\<lambda>a. au_tenant_id a = t) (db_audit s)\<rparr>"

text \<open>The primary keys that the statements on keys and artifacts rely on.\<close>

definition pk_ok :: "db \<Rightarrow> bool" where
  "pk_ok s \<longleftrightarrow> db_inv s \<and> distinct (map ak_id (db_api_keys s)) \<and> distinct (map ar_id (db_artifacts s))"

lemma filter_update_where:
  "(\<And>x. x \<in> set xs \<Longrightarrow> P x \<Longrightarrow> \<not> Q x \<and> \<not> Q (f x)) \<Longrightarrow> filter Q (update_where P f xs) = filter Q xs"
  by (induction xs) (auto simp: update_where_def)

lemma filter_filter_id:
  "(\<And>x. x \<in> set xs \<Longrightarrow> Q x \<Longrightarrow> R x) \<Longrightarrow> filter Q (filter R xs) = filter Q xs"
  by (induction xs) auto

section \<open>Work on one run\<close>

text \<open>The tables that the calls on runs and tasks leave alone.\<close>

definition rest_same :: "db \<Rightarrow> db \<Rightarrow> bool" where
  "rest_same s s' \<longleftrightarrow> db_definitions s' = db_definitions s \<and> db_schedules s' = db_schedules s \<and> db_workers s' = db_workers s \<and>
     db_artifacts s' = db_artifacts s \<and> db_api_keys s' = db_api_keys s"

definition confined :: "uuid \<Rightarrow> db \<Rightarrow> db \<Rightarrow> bool" where
  "confined rid s s' \<longleftrightarrow>
     filter (\<lambda>x. tr_workflow_run_id x \<noteq> rid) (db_tasks s') = filter (\<lambda>x. tr_workflow_run_id x \<noteq> rid) (db_tasks s) \<and>
     filter (\<lambda>r. wr_id r \<noteq> rid) (db_runs s') = filter (\<lambda>r. wr_id r \<noteq> rid) (db_runs s) \<and>
     (\<forall>r' \<in> set (db_runs s'). wr_id r' = rid \<longrightarrow> (\<exists>r \<in> set (db_runs s). wr_id r = rid \<and> wr_tenant_id r = wr_tenant_id r'))"

lemma confinedI:
  assumes "db_tasks s' = update_where P f (update_where Pa fa (db_tasks s))"
    and "\<And>x. x \<in> set (db_tasks s) \<Longrightarrow> Pa x \<Longrightarrow> tr_workflow_run_id x = rid"
    and "\<And>x. x \<in> set (update_where Pa fa (db_tasks s)) \<Longrightarrow> P x \<Longrightarrow> tr_workflow_run_id x = rid"
    and "\<And>x. tr_workflow_run_id (f x) = tr_workflow_run_id x" "\<And>x. tr_workflow_run_id (fa x) = tr_workflow_run_id x"
    and "db_runs s' = update_where R g (db_runs s)" "\<And>r. R r \<Longrightarrow> wr_id r = rid"
    and "\<And>r. wr_id (g r) = wr_id r" "\<And>r. wr_tenant_id (g r) = wr_tenant_id r"
  shows "confined rid s s'"
proof -
  have "filter (\<lambda>x. tr_workflow_run_id x \<noteq> rid) (db_tasks s') = filter (\<lambda>x. tr_workflow_run_id x \<noteq> rid) (update_where Pa fa (db_tasks s))"
    unfolding assms(1) by (rule filter_update_where) (simp add: assms(3,4))
  also have "\<dots> = filter (\<lambda>x. tr_workflow_run_id x \<noteq> rid) (db_tasks s)" by (rule filter_update_where) (simp add: assms(2,5))
  finally have "filter (\<lambda>x. tr_workflow_run_id x \<noteq> rid) (db_tasks s') = \<dots>" .
  moreover have "filter (\<lambda>r. wr_id r \<noteq> rid) (db_runs s') = filter (\<lambda>r. wr_id r \<noteq> rid) (db_runs s)"
    unfolding assms(6) by (rule filter_update_where) (simp add: assms(7,8))
  moreover have "\<forall>r' \<in> set (db_runs s'). wr_id r' = rid \<longrightarrow> (\<exists>r \<in> set (db_runs s). wr_id r = rid \<and> wr_tenant_id r = wr_tenant_id r')"
    unfolding assms(6) ball_update_where by (auto simp: assms(8,9))
  ultimately show ?thesis by (simp add: confined_def)
qed

lemma confined_statements:
  assumes "db_tasks s' = update_where P f (db_tasks s)" "\<And>x. P x \<Longrightarrow> tr_workflow_run_id x = rid"
    and "\<And>x. tr_workflow_run_id (f x) = tr_workflow_run_id x"
    and "db_runs s' = update_where R g (db_runs s)" "\<And>r. R r \<Longrightarrow> wr_id r = rid"
    and "\<And>r. wr_id (g r) = wr_id r" "\<And>r. wr_tenant_id (g r) = wr_tenant_id r"
  shows "confined rid s s'"
  by (rule confinedI [where Pa = "\<lambda>_. False" and fa = id and P = P and f = f and R = R and g = g])
    (simp_all add: assms update_where_def)

lemma update_where_guard: "(if b then update_where P f xs else xs) = update_where (\<lambda>x. b \<and> P x) f xs"
  by (simp add: update_where_def)

lemma confined_task:
  assumes "db_tasks s' = update_where P f (db_tasks s)" "\<And>x. x \<in> set (db_tasks s) \<Longrightarrow> P x \<Longrightarrow> tr_workflow_run_id x = rid"
    and "\<And>x. tr_workflow_run_id (f x) = tr_workflow_run_id x" "db_runs s' = db_runs s"
  shows "confined rid s s'"
  by (rule confinedI [where Pa = "\<lambda>_. False" and fa = id and R = "\<lambda>_. False" and g = id and P = P and f = f])
    (simp_all add: assms update_where_def)

lemma owned_confined:
  assumes inv: "db_inv s" and r: "r \<in> set (db_runs s)" "wr_id r = rid" "wr_tenant_id r \<noteq> t"
    and c: "confined rid s s'" and rest: "rest_same s s'"
    and audit: "filter (\<lambda>a. au_tenant_id a = t) (db_audit s') = filter (\<lambda>a. au_tenant_id a = t) (db_audit s)"
  shows "owned t s' = owned t s"
proof -
  have uniq: "q = r" if "q \<in> set (db_runs s)" "wr_id q = rid" for q
    using distinct_map_eq [of wr_id, OF _ that(1) r(1)] that(2) r(2) db_invD(1) [OF inv] by (simp add: keys_ok_def)
  have foreign: "wr_tenant_id q = t \<Longrightarrow> wr_id q \<noteq> rid" if "q \<in> set (db_runs s) \<union> set (db_runs s')" for q
    using that c uniq r(3) unfolding confined_def by blast
  have "runs_of t s' = filter (\<lambda>r. wr_tenant_id r = t) (filter (\<lambda>r. wr_id r \<noteq> rid) (db_runs s'))"
    unfolding runs_of_def by (rule filter_filter_id [symmetric]) (use foreign in blast)
  also have "\<dots> = filter (\<lambda>r. wr_tenant_id r = t) (filter (\<lambda>r. wr_id r \<noteq> rid) (db_runs s))" using c by (simp add: confined_def)
  also have "\<dots> = runs_of t s" unfolding runs_of_def by (rule filter_filter_id) (use foreign in blast)
  finally have runs: "runs_of t s' = runs_of t s" .
  let ?Q = "\<lambda>x. tr_workflow_run_id x \<in> set (map wr_id (runs_of t s))"
  have own: "?Q x \<Longrightarrow> tr_workflow_run_id x \<noteq> rid" for x
  proof -
    assume "?Q x"
    then obtain q where "q \<in> set (db_runs s)" "wr_tenant_id q = t" "tr_workflow_run_id x = wr_id q" by (auto simp: runs_of_def)
    with foreign [of q] show ?thesis by simp
  qed
  have "filter ?Q (db_tasks s') = filter ?Q (filter (\<lambda>x. tr_workflow_run_id x \<noteq> rid) (db_tasks s'))"
    by (rule filter_filter_id [symmetric]) (rule own)
  also have "\<dots> = filter ?Q (filter (\<lambda>x. tr_workflow_run_id x \<noteq> rid) (db_tasks s))" using c by (simp add: confined_def)
  also have "\<dots> = filter ?Q (db_tasks s)" by (rule filter_filter_id) (rule own)
  finally show ?thesis using runs rest audit by (simp add: owned_def rest_same_def)
qed

section \<open>The operations\<close>

lemma update_where_nothing [simp]: "update_where (\<lambda>_. False) f xs = xs"
  by (simp add: update_where_def)

lemma task_run_unique:
  assumes "db_inv s" "x \<in> set (db_tasks s)" "y \<in> set (db_tasks s)" "tr_id x = tr_id y"
  shows "tr_workflow_run_id x = tr_workflow_run_id y"
  using distinct_map_eq [of tr_id, OF _ assms(2,3,4)] db_invD(1) [OF assms(1)] by (simp add: keys_ok_def)

lemma task_rest:
  "LeaseTask e tid worker ttl s = Inr (x1, s') \<Longrightarrow> rest_same s s' \<and> db_audit s' = db_audit s"
  "StartTask e tid worker s = Inr (x2, s') \<Longrightarrow> rest_same s s' \<and> db_audit s' = db_audit s"
  "HeartbeatTask e tid worker ttl s = Inr (x3, s') \<Longrightarrow> rest_same s s' \<and> db_audit s' = db_audit s"
  "CompleteTask e tid worker out artifact logs s = Inr (x4, s') \<Longrightarrow> rest_same s s' \<and> db_audit s' = db_audit s"
  "FailTask e tid worker f s = Inr (x5, s') \<Longrightarrow> rest_same s s' \<and> db_audit s' = db_audit s"
  by (auto simp: rest_same_def LeaseTask_def StartTask_def HeartbeatTask_def CompleteTask_def FailTask_def Let_def
      split: option.splits if_splits)

lemma task_confined:
  assumes inv: "db_inv s" and y: "y \<in> set (db_tasks s)" "tr_id y = tid" "tr_workflow_run_id y = rid"
  shows "LeaseTask e tid worker ttl s = Inr (x1, s') \<Longrightarrow> confined rid s s'"
    "StartTask e tid worker s = Inr (x2, s') \<Longrightarrow> confined rid s s'"
    "HeartbeatTask e tid worker ttl s = Inr (x3, s') \<Longrightarrow> confined rid s s'"
    "CompleteTask e tid worker out artifact logs s = Inr (x4, s') \<Longrightarrow> confined rid s s'"
    "FailTask e tid worker f s = Inr (x5, s') \<Longrightarrow> confined rid s s'"
proof -
  have run: "x \<in> set (db_tasks s) \<Longrightarrow> tr_id x = tid \<Longrightarrow> tr_workflow_run_id x = rid" for x
    using task_run_unique [OF inv _ y(1)] y(2,3) by simp
  show "confined rid s s'" if "LeaseTask e tid worker ttl s = Inr (x1, s')"
    using that by (rule LeaseTask_Inr)
      (erule confined_task, auto intro: run simp: lease_where_def lease_set_def)
  show "confined rid s s'" if "StartTask e tid worker s = Inr (x2, s')"
    using that by (rule StartTask_Inr)
      (erule confined_task, auto intro: run simp: held_def start_set_def)
  show "confined rid s s'" if "HeartbeatTask e tid worker ttl s = Inr (x3, s')"
    using that by (rule HeartbeatTask_Inr)
      (rule confined_task [where P = "held [LEASED, RUNNING] tid worker (e_now e)" and f = "heartbeat_set (e_gonow e + ttl) (e_now e)"],
        auto intro: run simp: held_def heartbeat_set_def)
  show "confined rid s s'" if "CompleteTask e tid worker out artifact logs s = Inr (x4, s')"
    using that
  proof (rule CompleteTask_Inr)
    fix t r j ts1 U g
    assume t: "query_row (held [RUNNING] tid worker (e_now e)) (db_tasks s) = Some t"
      and ts1: "ts1 = update_where (held [RUNNING] tid worker (e_now e)) (complete_set j artifact (e_now e)) (db_tasks s)"
      and U: "U = unblock_where ts1 (db_deps s) (tr_workflow_run_id t) tid" and ts: "db_tasks s' = update_where U (unblock_set (e_now e)) ts1"
      and rs: "db_runs s' = (if \<forall>u \<in> set (db_tasks s'). tr_workflow_run_id u = tr_workflow_run_id t \<longrightarrow> tr_status u = SUCCEEDED
                       then update_where (run_succeed_where (tr_workflow_run_id t)) (run_succeed_set (e_now e)) (db_runs s)
                       else db_runs s)"
    have rid: "tr_workflow_run_id t = rid" using query_row_SomeD [OF t] by (auto intro: run simp: held_def)
    show ?thesis
    proof (rule confinedI [OF ts [unfolded ts1]])
      show "db_runs s' = update_where (\<lambda>q. (\<forall>u \<in> set (db_tasks s'). tr_workflow_run_id u = rid \<longrightarrow> tr_status u = SUCCEEDED) \<and>
          run_succeed_where rid q) (run_succeed_set (e_now e)) (db_runs s)" unfolding rs rid by (rule update_where_guard)
    qed (auto intro: run simp: held_def U unblock_where_def rid complete_set_def unblock_set_def run_succeed_where_def run_succeed_set_def)
  qed
  show "confined rid s s'" if "FailTask e tid worker f s = Inr (x5, s')"
    using that
  proof (rule FailTask_Inr)
    fix t r st ts1 g
    assume t: "query_row (held [LEASED, RUNNING] tid worker (e_now e)) (db_tasks s) = Some t"
      and ts1: "ts1 = update_where (settle_where tid worker) (settle_set st (settled_at (e_gonow e) st t) (e_now e)) (db_tasks s)"
      and ts: "db_tasks s' = (if st = DEAD then update_where (pending_where (tr_workflow_run_id t)) (cancel_set (e_now e)) ts1 else ts1)"
      and rs: "db_runs s' = (if st = DEAD then update_where (run_fail_where (tr_workflow_run_id t)) (run_fail_set (e_now e)) (db_runs s)
                       else db_runs s)"
    have rid: "tr_workflow_run_id t = rid" using query_row_SomeD [OF t] by (auto intro: run simp: held_def)
    show ?thesis
    proof (rule confinedI)
      show "db_tasks s' = update_where (\<lambda>x. st = DEAD \<and> pending_where rid x) (cancel_set (e_now e))
          (update_where (settle_where tid worker) (settle_set st (settled_at (e_gonow e) st t) (e_now e)) (db_tasks s))"
        by (simp add: ts ts1 rid)
      show "db_runs s' = update_where (\<lambda>q. st = DEAD \<and> run_fail_where rid q) (run_fail_set (e_now e)) (db_runs s)"
        by (simp add: rs rid)
    qed (auto intro: run simp: settle_where_def pending_where_def cancel_set_def settle_set_def run_fail_where_def run_fail_set_def)
  qed
qed

lemma owned_task_op:
  assumes inv: "db_inv s" and own: "TaskBelongsToTenant tid u s = Inr ()" and "u \<noteq> t"
  shows "LeaseTask e tid worker ttl s = Inr (x1, s') \<Longrightarrow> owned t s' = owned t s"
    "StartTask e tid worker s = Inr (x2, s') \<Longrightarrow> owned t s' = owned t s"
    "HeartbeatTask e tid worker ttl s = Inr (x3, s') \<Longrightarrow> owned t s' = owned t s"
    "CompleteTask e tid worker out artifact logs s = Inr (x4, s') \<Longrightarrow> owned t s' = owned t s"
    "FailTask e tid worker f s = Inr (x5, s') \<Longrightarrow> owned t s' = owned t s"
proof -
  obtain y r where y: "y \<in> set (db_tasks s)" "tr_id y = tid" and r: "r \<in> set (db_runs s)" "wr_id r = tr_workflow_run_id y" "wr_tenant_id r = u"
    using own by (auto simp: TaskBelongsToTenant_def exists_row_iff split: if_splits)
  have o: "owned t s' = owned t s" if "confined (tr_workflow_run_id y) s s'" "rest_same s s' \<and> db_audit s' = db_audit s"
    using owned_confined [OF inv r(1,2) _ that(1)] that(2) r(3) assms(3) by simp
  note c = task_confined [OF inv y refl]
  show "LeaseTask e tid worker ttl s = Inr (x1, s') \<Longrightarrow> owned t s' = owned t s" by (rule o [OF c(1) task_rest(1)])
  show "StartTask e tid worker s = Inr (x2, s') \<Longrightarrow> owned t s' = owned t s" by (rule o [OF c(2) task_rest(2)])
  show "HeartbeatTask e tid worker ttl s = Inr (x3, s') \<Longrightarrow> owned t s' = owned t s" by (rule o [OF c(3) task_rest(3)])
  show "CompleteTask e tid worker out artifact logs s = Inr (x4, s') \<Longrightarrow> owned t s' = owned t s" by (rule o [OF c(4) task_rest(4)])
  show "FailTask e tid worker f s = Inr (x5, s') \<Longrightarrow> owned t s' = owned t s" by (rule o [OF c(5) task_rest(5)])
qed

lemma owned_run_op:
  assumes inv: "db_inv s" and "u \<noteq> t"
  shows "CancelRun e u user rid s = Inr s' \<Longrightarrow> owned t s' = owned t s"
    "RetryRun e u user rid s = Inr s' \<Longrightarrow> owned t s' = owned t s"
    "ReplayDead e u user tid s = Inr s' \<Longrightarrow> owned t s' = owned t s"
proof -
  show "owned t s' = owned t s" if op: "CancelRun e u user rid s = Inr s'"
  proof -
    note C = CancelRun_Inr [OF op]
    obtain r where r: "r \<in> set (db_runs s)" "wr_id r = rid" "wr_tenant_id r = u" using C(6) by (auto simp: run_cancel_where_def)
    have c: "confined rid s s'"
      by (rule confined_statements [OF C(1) _ _ C(2)])
        (auto simp: pending_where_def cancel_set_def run_cancel_where_def run_cancel_set_def)
    show ?thesis by (rule owned_confined [OF inv r(1,2) _ c])
        (use op assms(2) r in \<open>auto simp: rest_same_def CancelRun_def Let_def insert_audit_def split: if_splits\<close>)
  qed
  show "owned t s' = owned t s" if op: "RetryRun e u user rid s = Inr s'"
  proof -
    note C = RetryRun_Inr [OF op]
    obtain r where r: "r \<in> set (db_runs s)" "wr_id r = rid" "wr_tenant_id r = u"
      using op by (auto simp: RetryRun_def dest!: query_row_SomeD split: if_splits)
    have c: "confined rid s s'"
      by (rule confined_statements [OF C(1) _ _ C(2)])
        (auto simp: retry_where_def retry_set_def run_reopen_set_def)
    show ?thesis by (rule owned_confined [OF inv r(1,2) _ c])
        (use op assms(2) r in \<open>auto simp: rest_same_def RetryRun_def Let_def insert_audit_def split: if_splits\<close>)
  qed
  show "owned t s' = owned t s" if op: "ReplayDead e u user tid s = Inr s'"
    using op
  proof (rule ReplayDead_Inr)
    fix x r ts1
    assume x: "x \<in> set (db_tasks s)" "tr_id x = tid" and r: "r \<in> set (db_runs s)" "wr_id r = tr_workflow_run_id x" "wr_tenant_id r = u"
      and ts1: "ts1 = update_where (replay_where tid) (replay_set (e_now e)) (db_tasks s)"
      and ts: "db_tasks s' = update_where (rebuild_where (tr_workflow_run_id x)) (rebuild_set ts1 (db_deps s) (e_now e)) ts1"
      and rs: "db_runs s' = update_where (run_reopen_where (tr_workflow_run_id x)) run_reopen_set (db_runs s)"
    have c: "confined (tr_workflow_run_id x) s s'"
      by (rule confinedI [OF ts [unfolded ts1] _ _ _ _ rs])
        (use task_run_unique [OF inv _ x(1)] x(2) in \<open>auto simp: replay_where_def replay_set_def rebuild_where_def rebuild_set_def
          run_reopen_where_def run_reopen_set_def\<close>)
    show ?thesis by (rule owned_confined [OF inv r(1,2) _ c])
        (use op assms(2) r in \<open>auto simp: rest_same_def ReplayDead_def Let_def insert_audit_def split: if_splits option.splits\<close>)
  qed
qed

lemma owned_definition_op:
  assumes "u \<noteq> t"
  shows "CreateWorkflow e o1 o2 u user name d s = Inr (x1, s') \<Longrightarrow> owned t s' = owned t s"
    "CreateVersion e o1 o2 u user defid d s = Inr (x2, s') \<Longrightarrow> owned t s' = owned t s"
    "WorkerHeartbeat e u worker handlers n meta s = Inr s' \<Longrightarrow> owned t s' = owned t s"
  using assms
  by (auto simp: owned_def runs_of_def CreateWorkflow_def CreateVersion_def WorkerHeartbeat_def insert_audit_def Let_def
      intro!: filter_update_where split: if_splits option.splits list.splits)

lemma owned_schedule_op:
  assumes "u \<noteq> t"
  shows "InsertSchedule e u defid cron timezone nextAt policy s = Inr (x1, s') \<Longrightarrow> owned t s' = owned t s"
    "PatchSchedule sid u enabled at' s = Inr s' \<Longrightarrow> owned t s' = owned t s"
    "DeleteSchedule sid u s = Inr s' \<Longrightarrow> owned t s' = owned t s"
proof -
  have "filter (\<lambda>c. sc_tenant_id c = t) (filter (\<lambda>c. \<not> schedule_where sid u c) cs) = filter (\<lambda>c. sc_tenant_id c = t) cs" for cs
    by (rule filter_filter_id) (use assms in \<open>auto simp: schedule_where_def\<close>)
  then show "DeleteSchedule sid u s = Inr s' \<Longrightarrow> owned t s' = owned t s"
    by (auto simp: owned_def runs_of_def DeleteSchedule_def simp del: filter_filter split: if_splits)
qed (use assms in \<open>auto simp: owned_def runs_of_def InsertSchedule_def PatchSchedule_def schedule_where_def patch_set_def
      intro!: filter_update_where split: if_splits\<close>)

lemma owned_key_op:
  assumes "u \<noteq> t"
  shows "CreateAPIKey e kid u user name scopes expires hash s = Inr (x1, s') \<Longrightarrow> owned t s' = owned t s"
    "RotateAPIKey e kid u user hash s = Inr (x2, s') \<Longrightarrow> owned t s' = owned t s"
    "RevokeAPIKey e kid u user s = Inr s' \<Longrightarrow> owned t s' = owned t s"
  using assms
  by (auto simp: owned_def runs_of_def CreateAPIKey_def RotateAPIKey_def RevokeAPIKey_def key_where_def revoke_where_def rotate_set_def
      insert_audit_def Let_def intro!: filter_update_where split: if_splits option.splits)

lemma owned_artifact_op:
  assumes "u \<noteq> t"
  shows "createUpload L S m internal e u user kind ct sz cs task s = (x1, s') \<Longrightarrow> owned t s' = owned t s"
    "manager_Complete S m e u aid s = Inr (x2, s') \<Longrightarrow> owned t s' = owned t s"
  using assms
  by (auto simp: owned_def runs_of_def createUpload_def CreateArtifact_def manager_Complete_def CompleteArtifact_def ready_where_def ready_set_def
      Let_def intro!: filter_update_where split: if_splits option.splits sum.splits prod.splits)

lemma insert_tasks_run: "insert_tasks e run input ids specs = Inr ts \<Longrightarrow> \<forall>x \<in> set ts. tr_workflow_run_id x = run"
  by (induction e run input ids specs arbitrary: ts rule: insert_tasks.induct) (auto split: option.splits if_splits sum.splits)

lemma owned_CreateRun:
  assumes pk: "pk_ok s" and fresh: "fresh e s" and "u \<noteq> t"
    and op: "CreateRun e u user defid key input artifact s = Inr ((r, c), s')"
  shows "owned t s' = owned t s"
proof (cases c)
  case False
  with op CreateRun_existing(1) show ?thesis by fastforce
next
  case True
  with op have op: "CreateRun e u user defid key input artifact s = Inr ((r, True), s')" by simp
  have art: "filter (\<lambda>a. ar_tenant_id a = t) (db_artifacts s') = filter (\<lambda>a. ar_tenant_id a = t) (db_artifacts s)"
  proof (cases "db_artifacts s' = db_artifacts s")
    case False
    with CreateRun_attaches [OF op] obtain aid rid a where a: "a \<in> set (db_artifacts s)" "ar_id a = aid" "ar_tenant_id a = u"
      and s': "db_artifacts s' = update_where (attach_where aid) (\<lambda>a. a\<lparr>ar_workflow_run_id := Some rid\<rparr>) (db_artifacts s)" by blast
    have "ar_tenant_id x = u" if "x \<in> set (db_artifacts s)" "attach_where aid x" for x
      using distinct_map_eq [of ar_id, OF _ that(1) a(1)] that(2) a pk by (simp add: attach_where_def pk_ok_def)
    with assms(3) show ?thesis unfolding s' by (intro filter_update_where) auto
  qed simp
  have rest: "db_schedules s' = db_schedules s" "db_workers s' = db_workers s" "db_api_keys s' = db_api_keys s"
    "filter (\<lambda>a. au_tenant_id a = t) (db_audit s') = filter (\<lambda>a. au_tenant_id a = t) (db_audit s)"
    using op assms(3) by (auto simp: CreateRun_def Let_def insert_audit_def split: if_splits option.splits sum.splits)
  show ?thesis using op
  proof (rule CreateRun_created)
    fix w :: definition_row and j uri ts ds
    assume r: "r = new_run e u w key j uri"
      and ins: "insert_tasks e (wr_id r) j (task_ids e (wd_dag_spec w)) (dag_Tasks (wd_dag_spec w)) = Inr ts"
      and s': "db_tasks s' = db_tasks s @ ts" "db_runs s' = db_runs s @ [r]" "db_definitions s' = db_definitions s"
    have id: "wr_id r \<notin> wr_id ` set (db_runs s)" "wr_tenant_id r = u" using r fresh by (auto simp: new_run_def fresh_def)
    have runs: "runs_of t s' = runs_of t s" using s'(2) id(2) assms(3) by (simp add: runs_of_def)
    have "filter (\<lambda>x. tr_workflow_run_id x \<in> set (map wr_id (runs_of t s))) ts = []"
      using insert_tasks_run [OF ins] id(1) by (auto simp: filter_empty_conv runs_of_def image_iff)
    then show ?thesis using s' runs art rest by (simp add: owned_def)
  qed
qed

section \<open>Authentication\<close>

lemma owned_Authenticate:
  assumes "pk_ok s" "Authenticate L cfg e raw s = Inr (p, s')" "TenantID p \<noteq> t"
  shows "owned t s' = owned t s"
proof (cases "HasPrefix raw ''rm_''")
  case True
  with assms(2) have a: "authenticateAPIKey L cfg e raw s = Inr (p, s')" by (auto simp: Authenticate_def split: if_splits)
  then obtain k where k: "k \<in> set (db_api_keys s)" "TenantID p = ak_tenant_id k"
    and s': "s' = s\<lparr>db_api_keys := update_where (\<lambda>x. ak_id x = ak_id k) (\<lambda>x. x\<lparr>ak_last_used_at := Some (e_now e)\<rparr>) (db_api_keys s)\<rparr>"
    by (auto simp: authenticateAPIKey_def dest!: query_row_SomeD split: option.splits if_splits)
  have "ak_tenant_id x \<noteq> t" if "x \<in> set (db_api_keys s)" "ak_id x = ak_id k" for x
    using distinct_map_eq [of ak_id, OF _ that(1) k(1) that(2)] assms(1,3) k(2) by (simp add: pk_ok_def)
  then have "filter (\<lambda>x. ak_tenant_id x = t) (db_api_keys s') = filter (\<lambda>x. ak_tenant_id x = t) (db_api_keys s)"
    unfolding s' by simp (rule filter_update_where, simp)
  with s' show ?thesis by (simp add: owned_def runs_of_def)
qed (use assms(2) in \<open>auto simp: Authenticate_def split: if_splits sum.splits\<close>)

lemma pk_ok_Authenticate:
  assumes "pk_ok s" "Authenticate L cfg e raw s = Inr (p, s')"
  shows "pk_ok s'"
proof -
  obtain ks where ks: "s' = s\<lparr>db_api_keys := ks\<rparr>"
      "map (\<lambda>k. k\<lparr>ak_last_used_at := None\<rparr>) ks = map (\<lambda>k. k\<lparr>ak_last_used_at := None\<rparr>) (db_api_keys s)"
    using Authenticate_frame [OF assms(2)] unfolding auth_frame_def by blast
  have "map ak_id (map (\<lambda>k. k\<lparr>ak_last_used_at := None\<rparr>) ks) = map ak_id (map (\<lambda>k. k\<lparr>ak_last_used_at := None\<rparr>) (db_api_keys s))"
    using ks(2) by (simp only:)
  then have "map ak_id ks = map ak_id (db_api_keys s)" by (simp add: comp_def)
  with assms(1) ks(1) core_db_inv [OF key_core(1) [OF assms(2)]] show ?thesis by (simp add: pk_ok_def)
qed

text \<open>Whatever authentication leaves behind: nothing, or the use of one key.\<close>

definition credential_tenant :: "auth_lib \<Rightarrow> auth_config \<Rightarrow> env \<Rightarrow> string \<Rightarrow> db \<Rightarrow> uuid option" where
  "credential_tenant L cfg e raw s = (case Authenticate L cfg e raw s of Inl _ \<Rightarrow> None | Inr (p, _) \<Rightarrow> Some (TenantID p))"

lemma AuthenticateWorker_owned:
  assumes "pk_ok s" "AuthenticateWorker L cfg e raw s = (x, s')"
  shows "pk_ok s'" "credential_tenant L cfg e raw s \<noteq> Some t \<Longrightarrow> owned t s' = owned t s"
  using assms owned_Authenticate [OF assms(1), of L cfg e raw] pk_ok_Authenticate [OF assms(1), of L cfg e raw]
  by (auto simp: AuthenticateWorker_def credential_tenant_def split: if_splits sum.splits prod.splits)

lemma AuthenticateWorker_tenant:
  "AuthenticateWorker L cfg e raw s = (Inr p, s') \<Longrightarrow>
     TenantID p = TenantID (DevPrincipal cfg) \<and> Dev cfg \<or> credential_tenant L cfg e raw s = Some (TenantID p)"
  by (auto simp: AuthenticateWorker_def credential_tenant_def split: if_splits sum.splits prod.splits)

lemma Middleware_owned:
  assumes "pk_ok s" "Middleware L cfg e r s = (x, s')"
  shows "pk_ok s'" "(\<And>p. x = Inr p \<Longrightarrow> TenantID p \<noteq> t) \<Longrightarrow> owned t s' = owned t s"
  using assms owned_Authenticate [OF assms(1)] pk_ok_Authenticate [OF assms(1)]
  by (auto simp: Middleware_def authenticateRequest_def Let_def split: if_splits sum.splits prod.splits)

section \<open>The handlers\<close>

abbreviation untouched :: "uuid \<Rightarrow> db \<Rightarrow> db \<Rightarrow> bool" where
  "untouched t \<equiv> \<lambda>s s'. owned t s' = owned t s"

interpretation ten: answer_relation "untouched t" for t
  by unfold_locales simp

lemma authorizeTask_tenant:
  "authorizeTask c p r s = Inr () \<Longrightarrow> lib_pg_uuid (c_lib c) (rq_id r) = Some tid \<Longrightarrow> TaskBelongsToTenant tid (TenantID p) s = Inr ()"
  by (simp add: authorizeTask_def pg_id_def)

lemma ten_task_handlers:
  assumes "db_inv s" "TenantID p \<noteq> t"
  shows "leads (untouched t) s (lease c p r s)" "leads (untouched t) s (start c p r s)" "leads (untouched t) s (heartbeat c p r s)"
    "leads (untouched t) s (complete c p r s)" "leads (untouched t) s (fail c p r s)"
  unfolding lease_def start_def heartbeat_def complete_def fail_def
  by (intro ten.rules; auto dest: owned_task_op [OF assms(1) authorizeTask_tenant assms(2)])+

lemma ten_run_handlers:
  assumes "db_inv s" "TenantID p \<noteq> t"
  shows "leads (untouched t) s (cancelRun c p r s)" "leads (untouched t) s (retryRun c p r s)" "leads (untouched t) s (replay c p r s)"
  unfolding cancelRun_def retryRun_def replay_def
  by (intro ten.rules; auto dest!: pg_id_Inr dest: owned_run_op [OF assms])+

lemma ten_definition_handlers:
  assumes "TenantID p \<noteq> t"
  shows "leads (untouched t) s (createWorkflow c p r s)" "leads (untouched t) s (createVersion c p r s)"
    "leads (untouched t) s (workerHeartbeat c p r s)"
  unfolding createWorkflow_def createVersion_def workerHeartbeat_def Let_def
  by (intro ten.rules; auto dest!: pg_id_Inr dest: owned_definition_op [OF assms] split: option.splits)+

lemma ten_createRun:
  assumes "pk_ok s" "call_ok c r s" "TenantID p \<noteq> t"
  shows "leads (untouched t) s (createRun c p r s)"
proof -
  have f: "fresh (c_env c (Suc 0)) s" using assms(2) by (simp add: call_ok_def)
  have "owned t s' = owned t s" if "create_run_ids c p d key input a s = Inr (x, s')" for d key input a x s'
    using that by (cases x) (auto simp: create_run_ids_def Let_def pg_id_def dest: owned_CreateRun [OF assms(1) f assms(3)] split: if_splits option.splits)
  then show ?thesis
    unfolding createRun_def Let_def by (intro ten.rules) (auto intro!: ten.rules split: json.split)
qed

lemma ten_key_handlers:
  assumes "TenantID p \<noteq> t"
  shows "leads (untouched t) s (createAPIKey c p r s)" "leads (untouched t) s (rotateAPIKey c p r s)" "leads (untouched t) s (revokeAPIKey c p r s)"
  unfolding createAPIKey_def rotateAPIKey_def revokeAPIKey_def Let_def
  by (intro ten.rules; auto dest!: pg_id_Inr dest: owned_key_op [OF assms])+

lemma ten_schedule_handlers:
  assumes "TenantID p \<noteq> t"
  shows "leads (untouched t) s (createSchedule c p r s)" "leads (untouched t) s (patchSchedule c p r s)" "leads (untouched t) s (deleteSchedule c p r s)"
  unfolding createSchedule_def patchSchedule_def deleteSchedule_def Let_def
  by (intro ten.rules; auto dest!: pg_id_Inr dest: owned_schedule_op [OF assms])+

lemma ten_createUpload: "u \<noteq> t \<Longrightarrow> leads (untouched t) s (createUpload L S m internal e u user kind ct sz cs task s)"
  by (cases "createUpload L S m internal e u user kind ct sz cs task s") (auto simp: leads_def dest: owned_artifact_op)

lemma ten_artifact_handlers:
  assumes "TenantID p \<noteq> t"
  shows "leads (untouched t) s (createArtifactUpload c p r s)" "leads (untouched t) s (completeArtifactUpload c p r s)"
  unfolding createArtifactUpload_def completeArtifactUpload_def create_upload_text_def Let_def
  by (intro ten.rules ten_createUpload; auto dest!: pg_id_Inr dest: owned_artifact_op [OF assms] simp: assms)+

lemma ten_endpoint:
  assumes "pk_ok s" "call_ok c r s" "TenantID p \<noteq> t"
  shows "leads (untouched t) s (run_endpoint ep c p r s)"
proof -
  have inv: "db_inv s" using assms(1) by (simp add: pk_ok_def)
  show ?thesis
    by (cases ep) (simp_all add: ten_createRun [OF assms] ten_task_handlers [OF inv assms(3)] ten_run_handlers [OF inv assms(3)]
        ten_definition_handlers [OF assms(3)] ten_key_handlers [OF assms(3)] ten_schedule_handlers [OF assms(3)]
        ten_artifact_handlers [OF assms(3)] ten.by_read)
qed

section \<open>The server\<close>

text \<open>The tenant whose credential a request presents.\<close>

definition request_tenants :: "call \<Rightarrow> request \<Rightarrow> db \<Rightarrow> uuid set" where
  "request_tenants c r s =
     (let L = c_lib c; cfg = sv_auth (c_server c); e = c_env c 0
      in if HasPrefix (rq_path r) ''/v1/''
         then (case fst (Middleware L cfg e r s) of Inl _ \<Rightarrow> {} | Inr p \<Rightarrow> {TenantID p})
         else if HasPrefix (rq_path r) ''/internal/v1/''
         then (case fst (WorkerMiddleware L cfg e r s) of Inl _ \<Rightarrow> {} | Inr p \<Rightarrow> {TenantID p}) \<union>
              set_option (credential_tenant L cfg e (bearer (rq_header r ''Authorization'')) s)
         else {})"

lemma ten_mux:
  assumes "pk_ok s" "call_ok c r s" "TenantID p \<noteq> t"
  shows "leads (untouched t) s (public_mux c p r s)" "leads (untouched t) s (internal_mux c p r s)"
  unfolding public_mux_def internal_mux_def by (intro ten.rules ten_endpoint; simp add: assms)+

lemma ten_serve_public:
  assumes "pk_ok (w_db w)" "call_ok c r (w_db w)" "serve_public c clock r w = (rsp, w')"
    and t: "\<And>p. fst (Middleware (c_lib c) (sv_auth (c_server c)) (c_env c 0) r (w_db w)) = Inr p \<Longrightarrow> TenantID p \<noteq> t"
  shows "owned t (w_db w') = owned t (w_db w)"
proof -
  obtain x s where m: "Middleware (c_lib c) (sv_auth (c_server c)) (c_env c 0) r (w_db w) = (x, s)" by fastforce
  have auth: "owned t s = owned t (w_db w)" using Middleware_owned(2) [OF assms(1) m] t m by auto
  have pk: "pk_ok s" by (rule Middleware_owned(1) [OF assms(1) m])
  have ok: "call_ok c r s" by (rule call_ok_core [OF assms(2) Middleware_core [OF m]])
  show ?thesis
  proof (cases "w_db w' = s")
    case False
    then have "\<exists>p. x = Inr p \<and> w_db w' = snd (public_mux c p r s)"
      using assms(3) m by (auto simp: serve_public_def Let_def split: sum.splits prod.splits limit_answer.splits)
    with ten_mux(1) [OF pk ok] auth t m show ?thesis by (auto simp: leads_def)
  qed (use auth in simp)
qed

lemma ten_serve_internal:
  assumes "pk_ok (w_db w)" "call_ok c r (w_db w)" "serve_internal c r w = (rsp, w')"
    and t: "\<And>p. fst (WorkerMiddleware (c_lib c) (sv_auth (c_server c)) (c_env c 0) r (w_db w)) = Inr p \<Longrightarrow> TenantID p \<noteq> t"
    and k: "credential_tenant (c_lib c) (sv_auth (c_server c)) (c_env c 0) (bearer (rq_header r ''Authorization'')) (w_db w) \<noteq> Some t"
  shows "owned t (w_db w') = owned t (w_db w)"
proof -
  obtain x s where m: "WorkerMiddleware (c_lib c) (sv_auth (c_server c)) (c_env c 0) r (w_db w) = (x, s)" by fastforce
  then obtain y where y: "AuthenticateWorker (c_lib c) (sv_auth (c_server c)) (c_env c 0) (bearer (rq_header r ''Authorization'')) (w_db w) = (y, s)"
    by (auto simp: WorkerMiddleware_def split: sum.splits prod.splits)
  have auth: "owned t s = owned t (w_db w)" "pk_ok s" using AuthenticateWorker_owned [OF assms(1) y] k by auto
  have ok: "call_ok c r s" by (rule call_ok_core [OF assms(2) WorkerMiddleware_core [OF m]])
  show ?thesis
  proof (cases x)
    case (Inr p)
    then have "w_db w' = snd (internal_mux c p r s)"
      using assms(3) m by (auto simp: serve_internal_def Let_def split: prod.splits)
    with ten_mux(2) [OF auth(2) ok] auth(1) t m Inr show ?thesis by (auto simp: leads_def)
  qed (use assms(3) m auth in \<open>auto simp: serve_internal_def\<close>)
qed

lemma ten_serve:
  assumes "pk_ok (w_db w)" "call_ok c r (w_db w)" "t \<notin> request_tenants c r (w_db w)"
  shows "owned t (w_db (snd (serve c probe clock r w))) = owned t (w_db w)"
proof (cases "rq_method r = ''OPTIONS''")
  case False
  obtain rsp w' where m: "root_mux c probe clock r w = (rsp, w')" by fastforce
  have "owned t (w_db w') = owned t (w_db w)"
    using m assms(3) ten_serve_public [OF assms(1,2)] ten_serve_internal [OF assms(1,2)]
    by (auto simp: root_mux_def request_tenants_def Let_def split: if_splits sum.splits)
  with False m show ?thesis by (simp add: serve_def cors_def Let_def)
qed (simp add: serve_def cors_def Let_def)

section \<open>The worker service\<close>

definition rpc_tenants :: "auth_lib \<Rightarrow> worker_server \<Rightarrow> env \<Rightarrow> string list \<Rightarrow> db \<Rightarrow> uuid set" where
  "rpc_tenants L w e vals s =
     (case fst (authorize L w e vals s) of Inl _ \<Rightarrow> {} | Inr p \<Rightarrow> {TenantID p}) \<union>
     (case vals of [v] \<Rightarrow> set_option (credential_tenant L (ws_auth w) e (TrimSpace (TrimPrefix v ''Bearer '')) s) | _ \<Rightarrow> {})"

lemma authorize_owned:
  assumes "pk_ok s" "authorize L w e vals s = (x, s')" "t \<notin> rpc_tenants L w e vals s"
  shows "pk_ok s'" "owned t s' = owned t s" "x = Inr p \<Longrightarrow> TenantID p \<noteq> t"
proof -
  show "x = Inr p \<Longrightarrow> TenantID p \<noteq> t" using assms(2,3) by (auto simp: rpc_tenants_def)
  have "pk_ok s' \<and> owned t s' = owned t s"
  proof (cases "s' = s")
    case False
    with assms(2) obtain v y where v: "vals = [v]" and y: "AuthenticateWorker L (ws_auth w) e (TrimSpace (TrimPrefix v ''Bearer '')) s = (y, s')"
      by (auto simp: authorize_def Let_def split: list.splits if_splits sum.splits prod.splits)
    moreover have "credential_tenant L (ws_auth w) e (TrimSpace (TrimPrefix v ''Bearer '')) s \<noteq> Some t"
      using assms(3) v by (auto simp: rpc_tenants_def)
    ultimately show ?thesis using AuthenticateWorker_owned [OF assms(1) y] by simp
  qed (use assms(1) in simp)
  then show "pk_ok s'" "owned t s' = owned t s" by simp_all
qed

text \<open>After a check that left the tenant alone, the call acts for the principal's tenant.\<close>

lemma authorizeTask_owned:
  assumes "pk_ok s" "t \<notin> rpc_tenants L w e vals s" "rpc_authorizeTask L w e vals task s = (x, s')"
  shows "owned t s' = owned t s"
    "x = Inr () \<Longrightarrow> \<exists>u tid. u \<noteq> t \<and> db_inv s' \<and> lib_pg_uuid L task = Some tid \<and> TaskBelongsToTenant tid u s' = Inr ()"
proof -
  obtain y s1 where a: "authorize L w e vals s = (y, s1)" by fastforce
  note o = authorize_owned [OF assms(1) a assms(2)]
  have "s' = s1" using assms(3) a by (auto simp: rpc_authorizeTask_def split: sum.splits)
  with o(2) show "owned t s' = owned t s" by simp
  assume "x = Inr ()"
  with assms(3) a obtain p tid where "y = Inr p" "lib_pg_uuid L task = Some tid" "TaskBelongsToTenant tid (TenantID p) s1 = Inr ()"
    by (auto simp: rpc_authorizeTask_def pg_id_def split: sum.splits option.splits)
  with o(1,3) \<open>s' = s1\<close> show "\<exists>u tid. u \<noteq> t \<and> db_inv s' \<and> lib_pg_uuid L task = Some tid \<and> TaskBelongsToTenant tid u s' = Inr ()"
    by (auto simp: pk_ok_def)
qed

lemma activeTask_owned:
  assumes "pk_ok s" "t \<notin> rpc_tenants L w (es 0) vals s" "principalForActiveTask L w es vals task worker s = (x, s')"
  shows "owned t s' = owned t s"
    "x = Inr p \<Longrightarrow> TenantID p \<noteq> t \<and> db_inv s' \<and> (\<exists>tid. lib_pg_uuid L task = Some tid \<and> TaskBelongsToTenant tid (TenantID p) s' = Inr ())"
proof -
  obtain y s1 where a: "authorize L w (es 0) vals s = (y, s1)" by fastforce
  note o = authorize_owned [OF assms(1) a assms(2)]
  have "s' = s1" using assms(3) a by (auto simp: principalForActiveTask_def split: sum.splits)
  with o(2) show "owned t s' = owned t s" by simp
  assume "x = Inr p"
  with assms(3) a obtain tid where y: "y = Inr p" and "lib_pg_uuid L task = Some tid" "ActiveTaskLeaseBelongsToWorker (es 1) tid (TenantID p) worker s1 = Inr ()"
    by (auto simp: principalForActiveTask_def pg_id_def split: sum.splits option.splits)
  moreover from this(3) have "TaskBelongsToTenant tid (TenantID p) s1 = Inr ()"
    by (auto simp: ActiveTaskLeaseBelongsToWorker_def TaskBelongsToTenant_def exists_row_iff
        dest!: query_row_SomeD run_of_SomeD split: option.splits if_splits)
  ultimately show "TenantID p \<noteq> t \<and> db_inv s' \<and> (\<exists>tid. lib_pg_uuid L task = Some tid \<and> TaskBelongsToTenant tid (TenantID p) s' = Inr ())"
    using o(1,3) \<open>s' = s1\<close> by (auto simp: pk_ok_def)
qed

lemma ten_after_check:
  assumes "pk_ok s" "t \<notin> rpc_tenants L w e vals s"
    and "\<And>u tid s1. u \<noteq> t \<Longrightarrow> db_inv s1 \<Longrightarrow> lib_pg_uuid L task = Some tid \<Longrightarrow> TaskBelongsToTenant tid u s1 = Inr () \<Longrightarrow>
           leads (untouched t) s1 (h s1)"
  shows "leads (untouched t) s (case rpc_authorizeTask L w e vals task s of (Inl er, s1) \<Rightarrow> (Inl er, s1) | (Inr _, s1) \<Rightarrow> h s1)"
proof -
  obtain x s1 where a: "rpc_authorizeTask L w e vals task s = (x, s1)" by fastforce
  note o = authorizeTask_owned [OF assms(1,2) a]
  show ?thesis
  proof (cases x)
    case (Inr v)
    with o(2) assms(3) have "leads (untouched t) s1 (h s1)" by auto
    with a Inr o(1) show ?thesis by (simp add: leads_def)
  qed (use a o(1) in \<open>simp add: leads_def\<close>)
qed

lemma ten_after_active:
  assumes "pk_ok s" "t \<notin> rpc_tenants L w (es 0) vals s"
    and "\<And>p tid s1. TenantID p \<noteq> t \<Longrightarrow> db_inv s1 \<Longrightarrow> lib_pg_uuid L task = Some tid \<Longrightarrow> TaskBelongsToTenant tid (TenantID p) s1 = Inr () \<Longrightarrow>
           leads (untouched t) s1 (h p s1)"
  shows "leads (untouched t) s (case principalForActiveTask L w es vals task worker s of (Inl er, s1) \<Rightarrow> (Inl er, s1) | (Inr p, s1) \<Rightarrow> h p s1)"
proof -
  obtain x s1 where a: "principalForActiveTask L w es vals task worker s = (x, s1)" by fastforce
  note o = activeTask_owned [of s t L w es, OF assms(1,2) a]
  show ?thesis
  proof (cases x)
    case (Inr p)
    with o(2) assms(3) have "leads (untouched t) s1 (h p s1)" by auto
    with a Inr o(1) show ?thesis by (simp add: leads_def)
  qed (use a o(1) in \<open>simp add: leads_def\<close>)
qed

lemma ten_task_rpc:
  assumes "pk_ok s" "t \<notin> rpc_tenants L w (es 0) vals s"
  shows "leads (untouched t) s (Lease L w es vals task worker s)" "leads (untouched t) s (Start L w es vals task worker s)"
    "leads (untouched t) s (Heartbeat L w es vals task worker s)" "leads (untouched t) s (Fail L w es vals task worker f s)"
    "leads (untouched t) s (rpc_Complete L w es vals task worker out a lg s)"
proof -
  show "leads (untouched t) s (Lease L w es vals task worker s)" unfolding Lease_def
    by (rule ten_after_check [OF assms]) (auto intro!: ten.by_finish simp: pg_id_def dest: owned_task_op(1))
  show "leads (untouched t) s (Start L w es vals task worker s)" unfolding Start_def
    by (rule ten_after_check [OF assms]) (auto intro!: ten.by_finish simp: pg_id_def dest: owned_task_op(2))
  show "leads (untouched t) s (Heartbeat L w es vals task worker s)" unfolding Heartbeat_def
    by (rule ten_after_check [OF assms]) (auto intro!: ten.by_finish simp: pg_id_def dest: owned_task_op(3))
  show "leads (untouched t) s (Fail L w es vals task worker f s)" unfolding Fail_def
    by (rule ten_after_check [OF assms]) (auto intro!: ten.by_finish simp: pg_id_def dest: owned_task_op(5))
  show "leads (untouched t) s (rpc_Complete L w es vals task worker out a lg s)" unfolding rpc_Complete_def Let_def
    by (rule ten_after_active [of s t L w es, OF assms]) (intro ten.branch ten.same ten.by_finish; auto simp: pg_id_def dest: owned_task_op(4))
qed

lemma ten_upload_rpc:
  "u \<noteq> t \<Longrightarrow> leads (untouched t) s (case createUpload L S m internal e u user kind ct sz cs task s of
     (Inl er, s1) \<Rightarrow> (Inl (rpcError er), s1) | (Inr x, s1) \<Rightarrow> (Inr (h x), s1))"
  using ten_createUpload [of u t s L S m internal e user kind ct sz cs task] by (auto simp: leads_def split: prod.splits sum.splits)

lemma ten_artifact_rpc:
  assumes "pk_ok s" "t \<notin> rpc_tenants L w (es 0) vals s"
  shows "leads (untouched t) s (CreateArtifactUpload L w es vals task worker kind ct sz cs s)"
    "leads (untouched t) s (CompleteArtifactUpload L w es vals task worker a s)"
    "leads (untouched t) s (GetArtifactDownload L w es vals task worker uri s)"
proof -
  show "leads (untouched t) s (CreateArtifactUpload L w es vals task worker kind ct sz cs s)"
    unfolding CreateArtifactUpload_def CreateInternalUpload_def
    by (rule ten.optional, rule ten.same, rule ten.paired, rule ten_after_active [of s t L w es, OF assms], intro ten.optional ten.same ten_upload_rpc)
  show "leads (untouched t) s (CompleteArtifactUpload L w es vals task worker a s)"
    unfolding CompleteArtifactUpload_def
    by (rule ten.optional, rule ten.same, rule ten.paired, rule ten_after_active [of s t L w es, OF assms], intro ten.fallible ten.branch ten.same ten.by_finish)
      (auto dest!: pg_id_Inr dest: owned_artifact_op)
  show "leads (untouched t) s (GetArtifactDownload L w es vals task worker uri s)"
    unfolding GetArtifactDownload_def
    by (rule ten.optional, rule ten.same, rule ten.paired, rule ten_after_active [of s t L w es, OF assms], intro ten.fallible ten.same)
qed

lemma ten_rpc_serve:
  "pk_ok s \<Longrightarrow> t \<notin> rpc_tenants L w (es 0) vals s \<Longrightarrow> owned t (rpc_serve L w es vals q s) = owned t s"
  by (cases q) (simp_all add: ten_task_rpc [unfolded leads_def] ten_artifact_rpc [unfolded leads_def])

end
