(* ===== verification/System_Properties.thy ===== *)
theory System_Properties
  imports System Example
begin

text \<open>
  What holds of the whole system, in every state it reaches from a fresh installation by any
  interleaving of API calls, worker calls, scheduler cycles and publishing passes.
\<close>

text \<open>A run that failed and was retried with \<^verbatim>\<open>RetryRun\<close>.\<close>

definition demo_retried :: db where
  "demo_retried = committed (RetryRun (demo_env 10 70) 9 None 2 demo_dead)"

section \<open>The example is reachable\<close>

lemma demo_first_steps:
  "fresh_install empty_db"
  "step empty_db (ACreateWorkflow (demo_env 1 10) [''a'', ''b''] [''b'', ''a''] 9 None '''' demo_dag) demo_defined"
  "step demo_defined (ACreateRun (demo_env 2 20) 9 None 1 ''k'' None None) demo_created"
proof -
  show "fresh_install empty_db" by (simp add: fresh_install_def empty_db_def)
  from demo_calls(1) obtain w where
    "CreateWorkflow (demo_env 1 10) [''a'', ''b''] [''b'', ''a''] 9 None '''' demo_dag empty_db = Inr (w, demo_defined)" ..
  then show "step empty_db (ACreateWorkflow (demo_env 1 10) [''a'', ''b''] [''b'', ''a''] 9 None '''' demo_dag) demo_defined"
    by (rule step.create_workflow) (rule demo_orders)
  from demo_calls(2) obtain r c where "CreateRun (demo_env 2 20) 9 None 1 ''k'' None None demo_defined = Inr ((r, c), demo_created)"
    by (metis surj_pair)
  then show "step demo_defined (ACreateRun (demo_env 2 20) 9 None 1 ''k'' None None) demo_created"
    by (rule step.create_run) (rule demo_fresh [OF demo_small(1,2)])
qed

lemma demo_steps:
  "reachable demo_defined" "reachable demo_created" "reachable demo_dispatched" "reachable demo_leased"
  "reachable demo_running" "reachable demo_completed" "reachable demo_dead"
proof -
  show 1: "reachable demo_defined"
    by (rule reaches.more [of fresh_install step, OF reaches.start [of fresh_install, OF demo_first_steps(1)] demo_first_steps(2)])
  show 2: "reachable demo_created" by (rule reaches.more [OF 1 demo_first_steps(3)])
  have "step demo_created (ATick demo_lib (demo_envs 6 30) (demo_env 6 30) (demo_env 6 30) (demo_env 6 30) (\<lambda>_. False)) demo_dispatched"
    by (rule step.tick [OF _ demo_fresh_seq [OF demo_small(3,4)]]) (simp add: demo_dispatched_def prod_eq_iff)
  with 2 show 3: "reachable demo_dispatched" by (rule reaches.more)
  with demo_calls(3) show 4: "reachable demo_leased" by (metis reaches.more step.lease)
  with demo_calls(4) show 5: "reachable demo_running" by (metis reaches.more step.start)
  with demo_calls(5) show "reachable demo_completed" by (metis reaches.more step.complete)
  from 5 demo_calls(6) show "reachable demo_dead" by (metis reaches.more step.fail)
qed

lemma demo_retry: "RetryRun (demo_env 10 70) 9 None 2 demo_dead = Inr demo_retried"
  unfolding demo_retried_def by (rule committed_Inr) code_simp

section \<open>Properties\<close>

text \<open>
  C1. No task starts before its dependencies: whenever a task of a reachable state has left BLOCKED
  and was not cancelled, every task it depends on has SUCCEEDED.
\<close>

theorem reachable_dependency_safety:
  assumes "reachable s" and "t \<in> set (db_tasks s)" "tr_status t \<notin> {BLOCKED, CANCELLED}"
    and "d \<in> set (db_deps s)" "td_task_run_id d = tr_id t"
  shows "\<exists>u \<in> set (db_tasks s). tr_id u = td_depends_on_task_run_id d \<and> tr_workflow_run_id u = tr_workflow_run_id t \<and>
     tr_status u = SUCCEEDED"
proof -
  have inv: "db_inv s" using sys.reaches_inv [OF assms(1)] by (simp add: system_inv_def)
  note I = db_invD [OF inv]
  from refs_okD(2) [OF I(2) assms(4)] obtain u where u: "u \<in> set (db_tasks s)" "tr_id u = td_depends_on_task_run_id d" by auto
  have "tr_workflow_run_id t = tr_workflow_run_id u"
    by (rule refs_same_run [OF I(2) I(9) assms(4) assms(2) u(1) assms(5) u(2) [symmetric]])
  moreover have "\<not> unmet (db_tasks s) (db_deps s) t" using I(3) assms(2,3) by (auto simp: deps_met_def)
  then have "tr_status u = SUCCEEDED" using assms(4,5) u by (auto simp: unmet_iff)
  ultimately show ?thesis using u by auto
qed

theorem reachable_dependency_safety_witness:
  "\<exists>t \<in> set (db_tasks demo_completed). \<exists>d \<in> set (db_deps demo_completed). tr_status t = READY \<and> td_task_run_id d = tr_id t \<and>
     (\<exists>u \<in> set (db_tasks demo_completed). tr_id u = td_depends_on_task_run_id d \<and> tr_status u = SUCCEEDED)"
proof -
  have "\<exists>t \<in> set (db_tasks demo_completed). \<exists>d \<in> set (db_deps demo_completed). tr_status t = READY \<and> td_task_run_id d = tr_id t"
    by code_simp
  then obtain t d where t: "t \<in> set (db_tasks demo_completed)" "tr_status t = READY"
    and d: "d \<in> set (db_deps demo_completed)" "td_task_run_id d = tr_id t" by blast
  from t(2) have "tr_status t \<notin> {BLOCKED, CANCELLED}" by simp
  from reachable_dependency_safety [OF demo_steps(6) t(1) this d] t d show ?thesis by blast
qed

text \<open>
  C2. No wake-up is lost: a task of a reachable state is BLOCKED only while some task of the same
  run that it depends on has not SUCCEEDED.
\<close>

theorem reachable_no_lost_wakeup:
  assumes "reachable s" and "t \<in> set (db_tasks s)" "tr_status t = BLOCKED"
  shows "\<exists>d \<in> set (db_deps s). \<exists>u \<in> set (db_tasks s). td_task_run_id d = tr_id t \<and> td_depends_on_task_run_id d = tr_id u \<and>
     tr_workflow_run_id u = tr_workflow_run_id t \<and> tr_status u \<noteq> SUCCEEDED"
proof -
  have inv: "db_inv s" using sys.reaches_inv [OF assms(1)] by (simp add: system_inv_def)
  note I = db_invD [OF inv]
  from I(4) assms(2,3) have "unmet (db_tasks s) (db_deps s) t" by (simp add: wakeups_def)
  then obtain d u where d: "d \<in> set (db_deps s)" "td_task_run_id d = tr_id t"
    and u: "u \<in> set (db_tasks s)" "tr_id u = td_depends_on_task_run_id d" "tr_status u \<noteq> SUCCEEDED"
    unfolding unmet_iff by blast
  have "tr_workflow_run_id t = tr_workflow_run_id u"
    by (rule refs_same_run [OF I(2) I(9) d(1) assms(2) u(1) d(2) u(2) [symmetric]])
  with d u show ?thesis by (intro bexI [of _ d] bexI [of _ u]) auto
qed

theorem reachable_no_lost_wakeup_witness:
  "\<exists>t \<in> set (db_tasks demo_running). tr_status t = BLOCKED \<and>
     (\<exists>u \<in> set (db_tasks demo_running). tr_workflow_run_id u = tr_workflow_run_id t \<and> tr_status u \<noteq> SUCCEEDED)"
proof -
  have "\<exists>t \<in> set (db_tasks demo_running). tr_status t = BLOCKED" by code_simp
  then obtain t where t: "t \<in> set (db_tasks demo_running)" "tr_status t = BLOCKED" by blast
  from reachable_no_lost_wakeup [OF demo_steps(5) t] t show ?thesis by blast
qed

text \<open>
  C3. A run cannot deadlock: in every reachable state a RUNNING run has a task that is neither
  BLOCKED nor SUCCEEDED.
\<close>

theorem reachable_no_deadlock:
  assumes "reachable s" and "r \<in> set (db_runs s)" "wr_status r = RunRunning"
  shows "\<exists>t \<in> set (db_tasks s). tr_workflow_run_id t = wr_id r \<and> tr_status t \<notin> {BLOCKED, SUCCEEDED}"
  using not_deadlocked [OF _ _ assms(2,3)] sys.reaches_inv [OF assms(1)] by (simp add: system_inv_def)

theorem reachable_no_deadlock_witness:
  "\<exists>r \<in> set (db_runs demo_completed). wr_status r = RunRunning \<and>
     (\<exists>t \<in> set (db_tasks demo_completed). tr_workflow_run_id t = wr_id r \<and> tr_status t \<notin> {BLOCKED, SUCCEEDED})"
proof -
  have "\<exists>r \<in> set (db_runs demo_completed). wr_status r = RunRunning" by code_simp
  then obtain r where r: "r \<in> set (db_runs demo_completed)" "wr_status r = RunRunning" by blast
  from r(2) reachable_no_deadlock [OF demo_steps(6) r] show ?thesis by (intro bexI [OF _ r(1)] conjI)
qed

text \<open>
  C4. A run is marked SUCCEEDED only when all of its tasks have SUCCEEDED, and stays RUNNING only
  while some task has not.
\<close>

theorem reachable_run_status:
  assumes "reachable s" and "r \<in> set (db_runs s)"
  shows "(wr_status r = RunSucceeded \<longrightarrow> (\<forall>t \<in> set (db_tasks s). tr_workflow_run_id t = wr_id r \<longrightarrow> tr_status t = SUCCEEDED)) \<and>
     (wr_status r = RunRunning \<longrightarrow> (\<exists>t \<in> set (db_tasks s). tr_workflow_run_id t = wr_id r \<and> tr_status t \<noteq> SUCCEEDED))"
  using sys.reaches_inv [OF assms(1)] assms(2)
  by (simp add: system_inv_def db_inv_def runs_done_def progress_inv_def open_runs_def)

theorem reachable_run_status_witness:
  "\<exists>r \<in> set (db_runs demo_running). wr_status r = RunRunning \<and>
     (\<exists>t \<in> set (db_tasks demo_running). tr_workflow_run_id t = wr_id r \<and> tr_status t \<noteq> SUCCEEDED)"
proof -
  have "\<exists>r \<in> set (db_runs demo_running). wr_status r = RunRunning" by code_simp
  then obtain r where r: "r \<in> set (db_runs demo_running)" "wr_status r = RunRunning" by blast
  from reachable_run_status [OF demo_steps(5) r(1), THEN conjunct2] r(2)
  show ?thesis by (intro bexI [OF _ r(1)] conjI) simp_all
qed

text \<open>
  C5. The attempt history of a task is complete: attempts are numbered 1 to \<^verbatim>\<open>attempt_count\<close> without
  gaps or duplicates, and exactly the last attempt of a LEASED or RUNNING task is still open, by
  the worker that holds the lease.
\<close>

theorem reachable_attempt_history:
  assumes "reachable s" and "t \<in> set (db_tasks s)"
  defines "history \<equiv> filter (\<lambda>a. ta_task_run_id a = tr_id t) (db_attempts s)"
  shows "set (map ta_attempt_number history) = {1..tr_attempt_count t} \<and> distinct (map ta_attempt_number history) \<and>
     (\<forall>a \<in> set history. ta_ended_at a = None \<longleftrightarrow> tr_status t \<in> {LEASED, RUNNING} \<and> ta_attempt_number a = tr_attempt_count t) \<and>
     (\<forall>a \<in> set history. ta_ended_at a = None \<longrightarrow> tr_lease_owner t = Some (ta_worker_id a))"
proof -
  have inv: "db_inv s" using sys.reaches_inv [OF assms(1)] by (simp add: system_inv_def)
  have A: "attempts_ok (db_tasks s) (db_attempts s)" and keys: "distinct (map tr_id (db_tasks s))"
    by (rule db_invD [OF inv])+
  let ?key = "\<lambda>a. (ta_task_run_id a, ta_attempt_number a)"
  have ok: "attempt_ok a t" if "a \<in> set history" for a
  proof -
    from that have a: "a \<in> set (db_attempts s)" "ta_task_run_id a = tr_id t" by (auto simp: history_def)
    with A obtain u where u: "u \<in> set (db_tasks s)" "tr_id u = tr_id t" "attempt_ok a u" unfolding attempts_ok_def by metis
    have "u = t" by (rule distinct_map_eq [OF keys u(1) assms(2) u(2)])
    with u show ?thesis by simp
  qed
  have "set (map ta_attempt_number history) = {1..tr_attempt_count t}"
  proof (intro equalityI subsetI)
    fix n assume "n \<in> set (map ta_attempt_number history)"
    with ok show "n \<in> {1..tr_attempt_count t}" by (auto simp: attempt_ok_def)
  next
    fix n assume n: "n \<in> {1..tr_attempt_count t}"
    with A assms(2) have "(tr_id t, n) \<in> ?key ` set (db_attempts s)" unfolding attempts_ok_def by auto
    then show "n \<in> set (map ta_attempt_number history)" by (force simp: history_def)
  qed
  moreover have "distinct (map ta_attempt_number history)"
  proof -
    have "distinct (map ?key (db_attempts s))" using A by (simp add: attempts_ok_def)
    then have "distinct (map ?key history)" unfolding history_def by (rule distinct_map_filter)
    moreover have "map ?key history = map (Pair (tr_id t)) (map ta_attempt_number history)" by (simp add: history_def)
    ultimately have "distinct (map (Pair (tr_id t)) (map ta_attempt_number history))" by simp
    then show ?thesis by (rule distinct_map [THEN iffD1, THEN conjunct1])
  qed
  ultimately show ?thesis using ok by (auto simp: attempt_ok_def active_def)
qed

theorem reachable_attempt_history_witness:
  "\<exists>t \<in> set (db_tasks demo_running). tr_status t = RUNNING \<and>
     map ta_attempt_number (filter (\<lambda>a. ta_task_run_id a = tr_id t) (db_attempts demo_running)) = [1] \<and>
     set (map ta_attempt_number (filter (\<lambda>a. ta_task_run_id a = tr_id t) (db_attempts demo_running))) = {1..tr_attempt_count t}"
proof -
  have "\<exists>t \<in> set (db_tasks demo_running). tr_status t = RUNNING \<and>
     map ta_attempt_number (filter (\<lambda>a. ta_task_run_id a = tr_id t) (db_attempts demo_running)) = [1]" by code_simp
  then obtain t where t: "t \<in> set (db_tasks demo_running)" "tr_status t = RUNNING"
    "map ta_attempt_number (filter (\<lambda>a. ta_task_run_id a = tr_id t) (db_attempts demo_running)) = [1]" by (elim bexE conjE) (rule that)
  from reachable_attempt_history [OF demo_steps(5) t(1), THEN conjunct1] t(2,3)
  show ?thesis by (intro bexI [OF _ t(1)] conjI)
qed

text \<open>
  C6. Every step of the system refines the life of a task: each task is still there after the step,
  with the same id, run and key, and moved by events of the abstract machine that the action may
  cause, and nothing else.
\<close>

theorem step_refines_lifecycle:
  assumes "reachable s" and "step s l s'" and "t \<in> set (db_tasks s)"
  shows "\<exists>t' \<in> set (db_tasks s'). tr_id t' = tr_id t \<and> tr_workflow_run_id t' = tr_workflow_run_id t \<and>
     tr_task_key t' = tr_task_key t \<and> task_moves (events_of l) (abs_task t) (abs_task t')"
  using step_evolves [OF assms(2)] sys.reaches_inv [OF assms(1)] assms(3) by (simp add: system_inv_def evolves_def)

theorem step_refines_lifecycle_witness:
  "\<exists>t \<in> set (db_tasks demo_running). \<exists>t' \<in> set (db_tasks demo_completed). tr_status t = RUNNING \<and> tr_id t' = tr_id t \<and>
     task_moves {EvComplete, EvUnblock} (abs_task t) (abs_task t')"
proof -
  have "\<exists>t \<in> set (db_tasks demo_running). tr_status t = RUNNING" by code_simp
  then obtain t where t: "t \<in> set (db_tasks demo_running)" "tr_status t = RUNNING" by blast
  from demo_calls(5) have "step demo_running (AComplete (demo_env 9 60) 4 ''w'' None '''' []) demo_completed"
    by (auto intro: step.complete)
  from step_refines_lifecycle [OF demo_steps(5) this t(1)] t show ?thesis by auto
qed



text \<open>
  C8. Success is final and a result is written once: no step of any kind changes the status, the
  output, the output artifact or the attempt count of a SUCCEEDED task.
\<close>

theorem succeeded_is_final:
  assumes "reachable s" and "step s l s'" and "t \<in> set (db_tasks s)" "tr_status t = SUCCEEDED"
  shows "\<exists>t' \<in> set (db_tasks s'). tr_id t' = tr_id t \<and> tr_status t' = SUCCEEDED \<and> tr_output t' = tr_output t \<and>
     tr_output_artifact_uri t' = tr_output_artifact_uri t \<and> tr_attempt_count t' = tr_attempt_count t"
proof -
  have "db_inv s" using sys.reaches_inv [OF assms(1)] by (simp add: system_inv_def)
  from step_evolves [OF assms(2) this] assms(3) show ?thesis
  proof (rule evolvesD)
    fix t' assume t': "t' \<in> set (db_tasks s')" "tr_id t' = tr_id t" "task_moves (events_of l) (abs_task t) (abs_task t')"
    have "abs_task t' = abs_task t" by (rule task_moves_succeeded [OF t'(3)]) (simp add: assms(4))
    then have "tr_status t' = tr_status t" "tr_output t' = tr_output t" "tr_output_artifact_uri t' = tr_output_artifact_uri t"
      "tr_attempt_count t' = tr_attempt_count t" by (simp_all add: abs_task_def)
    with t' assms(4) show ?thesis by auto
  qed
qed

theorem succeeded_is_final_witness:
  "\<exists>t \<in> set (db_tasks demo_completed). tr_status t = SUCCEEDED \<and>
     (\<exists>s' l. step demo_completed l s' \<and> (\<exists>t' \<in> set (db_tasks s'). tr_id t' = tr_id t \<and> tr_status t' = SUCCEEDED))"
proof -
  have "\<exists>t \<in> set (db_tasks demo_completed). tr_status t = SUCCEEDED" by code_simp
  then obtain t where t: "t \<in> set (db_tasks demo_completed)" "tr_status t = SUCCEEDED" by blast
  have "CancelRun (demo_env 10 70) 9 None 2 demo_completed = Inr (committed (CancelRun (demo_env 10 70) 9 None 2 demo_completed))"
    by (rule committed_Inr) code_simp
  from step.cancel_run [OF this] have st: "step demo_completed (ACancelRun (demo_env 10 70) 9 None 2)
    (committed (CancelRun (demo_env 10 70) 9 None 2 demo_completed))" .
  from succeeded_is_final [OF demo_steps(6) st t] st t show ?thesis by blast
qed

text \<open>
  C9. Retries are bounded: as long as no dead task is replayed, no task is attempted more often
  than its \<^verbatim>\<open>maximum_attempts\<close>, and a task that waits to run has an attempt left.
\<close>

theorem attempts_bounded:
  assumes "reaches fresh_install (\<lambda>s l s'. step s l s' \<and> \<not> is_replay l) s" and "t \<in> set (db_tasks s)"
  shows "0 \<le> tr_attempt_count t \<and> tr_attempt_count t \<le> tr_maximum_attempts t \<and>
     (tr_status t \<in> {BLOCKED, READY, DISPATCHING, RETRY_WAIT} \<longrightarrow> tr_attempt_count t < tr_maximum_attempts t)"
proof -
  from regular.reaches_inv [OF assms(1)] assms(2) have "budget (abs_task t)" by (simp add: budgets_def)
  then show ?thesis by (simp add: budget_def)
qed

theorem attempts_bounded_witness:
  "\<exists>s t. reaches fresh_install (\<lambda>s l s'. step s l s' \<and> \<not> is_replay l) s \<and> t \<in> set (db_tasks s) \<and> tr_status t = READY \<and>
     tr_attempt_count t < tr_maximum_attempts t"
proof -
  let ?S = "\<lambda>s l s'. step s l s' \<and> \<not> is_replay l"
  have "?S empty_db (ACreateWorkflow (demo_env 1 10) [''a'', ''b''] [''b'', ''a''] 9 None '''' demo_dag) demo_defined"
    "?S demo_defined (ACreateRun (demo_env 2 20) 9 None 1 ''k'' None None) demo_created"
    using demo_first_steps(2,3) by simp_all
  from reaches.more [of fresh_install ?S, OF reaches.more [of fresh_install ?S, OF reaches.start [of fresh_install, OF demo_first_steps(1)] this(1)] this(2)]
  have R: "reaches fresh_install ?S demo_created" .
  have "\<exists>t \<in> set (db_tasks demo_created). tr_status t = READY" by code_simp
  then obtain t where t: "t \<in> set (db_tasks demo_created)" "tr_status t = READY" by blast
  from attempts_bounded [OF R t(1)] t(2) have "tr_attempt_count t < tr_maximum_attempts t" by simp
  with R t show ?thesis by (intro exI [of _ demo_created] exI [of _ t]) simp
qed

text \<open>
  C10. Retrying a failed run does not make it completable: \<^verbatim>\<open>RetryRun\<close> revives the DEAD tasks only,
  and while a task of a run is CANCELLED, no history without \<^verbatim>\<open>ReplayDead\<close> changes that or lets
  the run succeed, although the run is RUNNING again.
\<close>

theorem cancelled_tasks_block_run:
  assumes "reachable s" and "RetryRun e tenant user rid s = Inr s1" and "later s1 s2"
    and "t \<in> set (db_tasks s)" "tr_workflow_run_id t = rid" "tr_status t = CANCELLED"
    and "r \<in> set (db_runs s2)" "wr_id r = rid"
  shows "wr_status r \<noteq> RunSucceeded"
proof -
  have inv: "system_inv s" by (rule sys.reaches_inv [OF assms(1)])
  have inv1: "system_inv s1" by (rule sys.step_inv [OF step.retry_run [OF assms(2)] inv])
  note L = later_inv [OF assms(3) inv1]
  have "evolves (- {EvRebuild}) (db_tasks s) (db_tasks s2)"
    by (rule evolves_both [OF RetryRun_evolves [OF assms(2)] conjunct2 [OF L]]) simp_all
  from this assms(4) show ?thesis
  proof (rule evolvesD)
    fix t2 assume t2: "t2 \<in> set (db_tasks s2)" "tr_workflow_run_id t2 = tr_workflow_run_id t"
      "task_moves (- {EvRebuild}) (abs_task t) (abs_task t2)"
    have "tr_status t2 = CANCELLED" using task_moves_cancelled [OF t2(3)] assms(6) by simp
    moreover have "runs_done (db_runs s2) (db_tasks s2)" using L by (simp add: system_inv_def db_inv_def)
    ultimately show ?thesis using assms(5,7,8) t2(1,2) by (auto simp: runs_done_def)
  qed
qed

theorem cancelled_tasks_block_run_witness:
  "\<exists>t r. t \<in> set (db_tasks demo_dead) \<and> tr_workflow_run_id t = 2 \<and> tr_status t = CANCELLED \<and>
     RetryRun (demo_env 10 70) 9 None 2 demo_dead = Inr demo_retried \<and> later demo_retried demo_retried \<and>
     r \<in> set (db_runs demo_retried) \<and> wr_id r = 2 \<and> wr_status r = RunRunning \<and> wr_status r \<noteq> RunSucceeded"
proof -
  have "\<exists>t \<in> set (db_tasks demo_dead). tr_workflow_run_id t = 2 \<and> tr_status t = CANCELLED"
    "\<exists>r \<in> set (db_runs demo_retried). wr_id r = 2 \<and> wr_status r = RunRunning" by code_simp+
  then obtain t r where t: "t \<in> set (db_tasks demo_dead)" "tr_workflow_run_id t = 2" "tr_status t = CANCELLED"
    and r: "r \<in> set (db_runs demo_retried)" "wr_id r = 2" "wr_status r = RunRunning" by blast
  have l: "later demo_retried demo_retried" by (simp add: later_def)
  from cancelled_tasks_block_run [OF demo_steps(7) demo_retry l t r(1,2)] t r l demo_retry show ?thesis
    by (intro exI [of _ t] exI [of _ r]) simp
qed

end
