(* ===== verification/Gateway_Properties.thy ===== *)
theory Gateway_Properties
  imports Isolation System_Properties Auth_Properties
begin

text \<open>
  What the server promises at its boundary. The examples continue the history of \<open>Example\<close>: an
  administrator of tenant 9, in development mode, cancels run 2, and a worker with the key of
  tenant 9 renews its lease on task 4.
\<close>

section \<open>Example requests\<close>

definition demo_ids :: "string \<Rightarrow> uuid option" where
  "demo_ids i = (if i = ''run2'' then Some 2 else if i = ''task4'' then Some 4 else if i = ''k7'' then Some 7 else None)"

definition demo_gateway_lib :: auth_lib where
  "demo_gateway_lib = \<lparr>lib_uuid_parse = demo_ids, lib_uuid_string = (\<lambda>_. ''k7''), lib_pg_uuid = demo_ids,
     lib_verify = (\<lambda>_. Inl (ErrMsg ''oidc: malformed jwt''))\<rparr>"

definition demo_server :: server where
  "demo_server = \<lparr>sv_LeaseDuration = 30, sv_APIKeyPepper = ''p'', sv_Artifacts = None, sv_RateLimit = None, sv_CORSAllowlist = [],
     sv_auth = demo_auth\<lparr>Dev := True, DevWorkerToken := ''dev''\<rparr>, sv_Live = False\<rparr>"

definition demo_call :: call where
  "demo_call = \<lparr>c_server = demo_server, c_lib = demo_gateway_lib, c_sched = demo_lib, c_env = (\<lambda>i. demo_env (10 + i) 60), c_orders = ([], []),
     c_secret = None, c_subscribed = False, c_upgraded = 400\<rparr>"

definition demo_request :: "string \<Rightarrow> string \<Rightarrow> request" where
  "demo_request verb path =
     \<lparr>rq_method = verb, rq_path = path, rq_header = (\<lambda>h. if h = ''Authorization'' then ''Bearer dev'' else ''''), rq_query = (\<lambda>_. ''''),
      rq_id = '''', rq_body = []\<rparr>"

definition demo_world :: world where
  "demo_world = \<lparr>w_db = demo_running, w_buckets = (\<lambda>_. None)\<rparr>"

definition demo_worker_server :: worker_server where
  "demo_worker_server = \<lparr>ws_auth = demo_auth\<lparr>Dev := True, DevWorkerToken := ''dev''\<rparr>, ws_LeaseDuration = 30, ws_Artifacts = None\<rparr>"

lemma demo_call_ok: "call_ok demo_call (demo_request m path) demo_running"
proof -
  have "fresh (demo_env 11 60) demo_running" by (rule demo_fresh) code_simp+
  then show ?thesis by (simp add: call_ok_def demo_call_def demo_request_def decode_def)
qed

lemma demo_pk_ok: "pk_ok demo_running"
proof -
  have "db_inv demo_running" using sys.reaches_inv [OF demo_steps(5)] by (simp add: system_inv_def)
  moreover have "db_api_keys demo_running = []" "db_artifacts demo_running = []" by code_simp+
  ultimately show ?thesis by (simp add: pk_ok_def)
qed

section \<open>Requests are histories\<close>

text \<open>C11. Whatever the HTTP server and the gRPC worker service are asked, by whom and in whatever order, they stay in the reachable
  states of the system: serving a request is a finite sequence of the system's steps, so that every invariant of reachable
  states holds after every request. The ids that the call draws are new, and the iteration orders are those of its map.\<close>

theorem requests_reachable:
  assumes "reachable (w_db w)" "call_ok c r (w_db w)"
  shows "history (w_db w) (w_db (snd (serve c probe clock r w))) \<and> reachable (w_db (snd (serve c probe clock r w))) \<and>
    history (w_db w) (rpc_serve L ws es vals q (w_db w)) \<and> reachable (rpc_serve L ws es vals q (w_db w))"
  using history_serve [OF assms(2)] history_rpc_serve history_reachable [OF _ assms(1)] by blast

theorem requests_reachable_witness:
  "reachable (w_db (snd (serve demo_call (True, None) None (demo_request ''POST'' ''/v1/runs/run2/cancel'') demo_world))) \<and>
   rs_status (fst (serve demo_call (True, None) None (demo_request ''POST'' ''/v1/runs/run2/cancel'') demo_world)) = 204 \<and>
   reachable (rpc_serve demo_gateway_lib demo_worker_server (\<lambda>i. demo_env (10 + i) 60) [''Bearer dev''] (RpcHeartbeat ''task4'' ''w'') demo_running)"
proof (intro conjI)
  have w: "reachable (w_db demo_world)" "call_ok demo_call (demo_request ''POST'' ''/v1/runs/run2/cancel'') (w_db demo_world)"
    using demo_call_ok demo_steps(5) by (simp_all add: demo_world_def)
  note r = requests_reachable [OF w]
  show "reachable (w_db (snd (serve demo_call (True, None) None (demo_request ''POST'' ''/v1/runs/run2/cancel'') demo_world)))"
    using r by blast
  show "reachable (rpc_serve demo_gateway_lib demo_worker_server (\<lambda>i. demo_env (10 + i) 60) [''Bearer dev''] (RpcHeartbeat ''task4'' ''w'') demo_running)"
    using r unfolding demo_world_def world.simps by blast
  show "rs_status (fst (serve demo_call (True, None) None (demo_request ''POST'' ''/v1/runs/run2/cancel'') demo_world)) = 204"
    by code_simp
qed

section \<open>Tenants are isolated\<close>



section \<open>Keys\<close>

interpretation unkeyed: answer_relation "\<lambda>s s'. db_api_keys s' = db_api_keys s"
  by unfold_locales simp

text \<open>The operations on the other tables leave the keys alone.\<close>

lemma same_keys:
  "CreateWorkflow e o1 o2 u user name d s = Inr (x1, s') \<Longrightarrow> db_api_keys s' = db_api_keys s"
  "CreateVersion e o1 o2 u user defid d s = Inr (x2, s') \<Longrightarrow> db_api_keys s' = db_api_keys s"
  "CreateRun e u user defid key input artifact s = Inr (x3, s') \<Longrightarrow> db_api_keys s' = db_api_keys s"
  "CancelRun e u user rid s = Inr s' \<Longrightarrow> db_api_keys s' = db_api_keys s"
  "RetryRun e u user rid s = Inr s' \<Longrightarrow> db_api_keys s' = db_api_keys s"
  "ReplayDead e u user tid s = Inr s' \<Longrightarrow> db_api_keys s' = db_api_keys s"
  "WorkerHeartbeat e u worker handlers n meta s = Inr s' \<Longrightarrow> db_api_keys s' = db_api_keys s"
  by (auto simp: CreateWorkflow_def CreateVersion_def CreateRun_def CancelRun_def RetryRun_def ReplayDead_def WorkerHeartbeat_def Let_def
      split: if_splits option.splits list.splits sum.splits)

lemma same_keys_side:
  "LeaseTask e tid worker ttl s = Inr (x1, s') \<Longrightarrow> db_api_keys s' = db_api_keys s"
  "StartTask e tid worker s = Inr (x2, s') \<Longrightarrow> db_api_keys s' = db_api_keys s"
  "HeartbeatTask e tid worker ttl s = Inr (x3, s') \<Longrightarrow> db_api_keys s' = db_api_keys s"
  "CompleteTask e tid worker out artifact logs s = Inr (x4, s') \<Longrightarrow> db_api_keys s' = db_api_keys s"
  "FailTask e tid worker f s = Inr (x5, s') \<Longrightarrow> db_api_keys s' = db_api_keys s"
  "createUpload L S m internal e u user kind ct sz cs task s = (x6, s') \<Longrightarrow> db_api_keys s' = db_api_keys s"
  "manager_Complete S m e u aid s = Inr (x7, s') \<Longrightarrow> db_api_keys s' = db_api_keys s"
  "InsertSchedule e u defid cron timezone nextAt policy s = Inr (x8, s') \<Longrightarrow> db_api_keys s' = db_api_keys s"
  "PatchSchedule sid u enabled at' s = Inr s' \<Longrightarrow> db_api_keys s' = db_api_keys s"
  "DeleteSchedule sid u s = Inr s' \<Longrightarrow> db_api_keys s' = db_api_keys s"
  by (auto simp: rest_same_def createUpload_def CreateArtifact_def manager_Complete_def CompleteArtifact_def InsertSchedule_def PatchSchedule_def
      DeleteSchedule_def Let_def dest: task_rest split: if_splits option.splits sum.splits prod.splits)

lemma unkeyed_upload: "leads (\<lambda>s s'. db_api_keys s' = db_api_keys s) s (createUpload L S m internal e u user kind ct sz cs task s)"
  by (cases "createUpload L S m internal e u user kind ct sz cs task s") (auto simp: leads_def dest: same_keys_side)

lemma unkeyed_endpoint:
  assumes "ep \<notin> {ECreateAPIKey, ERotateAPIKey, ERevokeAPIKey}"
  shows "leads (\<lambda>s s'. db_api_keys s' = db_api_keys s) s (run_endpoint ep c p r s)"
proof -
  let ?R = "\<lambda>s s' :: db. db_api_keys s' = db_api_keys s"
  have runs: "create_run_ids c p d key input a s = Inr (x, s') \<Longrightarrow> db_api_keys s' = db_api_keys s" for d key input a x s'
    by (auto simp: create_run_ids_def Let_def pg_id_def dest: same_keys split: if_splits option.splits)
  have "leads ?R s (createRun c p r s)"
    unfolding createRun_def Let_def by (intro unkeyed.rules) (auto intro!: unkeyed.rules dest: runs split: json.split)
  moreover have "leads ?R s (createWorkflow c p r s)" "leads ?R s (createVersion c p r s)" "leads ?R s (workerHeartbeat c p r s)"
    "leads ?R s (cancelRun c p r s)" "leads ?R s (retryRun c p r s)" "leads ?R s (replay c p r s)"
    unfolding createWorkflow_def createVersion_def workerHeartbeat_def cancelRun_def retryRun_def replay_def Let_def
    by (intro unkeyed.rules; auto dest!: pg_id_Inr dest: same_keys split: option.splits)+
  moreover have "leads ?R s (lease c p r s)" "leads ?R s (start c p r s)" "leads ?R s (heartbeat c p r s)" "leads ?R s (complete c p r s)"
    "leads ?R s (fail c p r s)" "leads ?R s (createSchedule c p r s)" "leads ?R s (patchSchedule c p r s)" "leads ?R s (deleteSchedule c p r s)"
    "leads ?R s (createArtifactUpload c p r s)" "leads ?R s (completeArtifactUpload c p r s)"
    unfolding lease_def start_def heartbeat_def complete_def fail_def createSchedule_def patchSchedule_def deleteSchedule_def
      createArtifactUpload_def completeArtifactUpload_def create_upload_text_def Let_def
    by (intro unkeyed.rules unkeyed_upload; auto dest!: pg_id_Inr dest: same_keys_side)+
  ultimately show ?thesis using assms by (cases ep) (simp_all add: unkeyed.by_read)
qed

lemma find_route_in: "find_route rs verb p b = Inr (i, x) \<Longrightarrow> \<exists>m pat. (m, pat, x) \<in> set rs"
  by (induction rs verb p b rule: find_route.induct) (auto split: option.splits if_splits)

text \<open>A key without the time of its last use.\<close>

definition key_of :: "api_key_row \<Rightarrow> api_key_row" where
  "key_of k = k\<lparr>ak_last_used_at := None\<rparr>"

lemma public_keys:
  assumes "guard_refuses (ByHumanRole ''admin'') p \<noteq> None"
  shows "db_api_keys (snd (public_mux c p r s)) = db_api_keys s"
proof (cases "find_route public_routes (rq_method r) (rq_path r) False")
  case (Inr x)
  obtain i g ep where x: "x = (i, g, ep)" by (cases x) auto
  from find_route_in [OF Inr [unfolded x]] have "ep \<in> {ECreateAPIKey, ERotateAPIKey, ERevokeAPIKey} \<Longrightarrow> g = ByHumanRole ''admin''"
    by (auto simp: public_routes_def)
  then have "guard_refuses g p = None \<Longrightarrow> ep \<notin> {ECreateAPIKey, ERotateAPIKey, ERevokeAPIKey}" using assms by blast
  with unkeyed_endpoint [of ep s c p "r\<lparr>rq_id := i\<rparr>"] show ?thesis
    by (cases "guard_refuses g p") (simp_all add: public_mux_def Inr x leads_def)
qed (simp add: public_mux_def)

lemma internal_keys: "db_api_keys (snd (internal_mux c p r s)) = db_api_keys s"
proof (cases "find_route internal_routes (rq_method r) (rq_path r) False")
  case (Inr x)
  obtain i ep where x: "x = (i, ep)" by (cases x) auto
  from find_route_in [OF Inr [unfolded x]] have "ep \<notin> {ECreateAPIKey, ERotateAPIKey, ERevokeAPIKey}" by (auto simp: internal_routes_def)
  from unkeyed_endpoint [OF this, of s c p "r\<lparr>rq_id := i\<rparr>"] show ?thesis by (simp add: internal_mux_def Inr x leads_def)
qed (simp add: internal_mux_def)

lemma frame_keys: "auth_frame s s' \<Longrightarrow> map key_of (db_api_keys s') = map key_of (db_api_keys s)"
  by (auto simp: auth_frame_def key_of_def [abs_def])

text \<open>C14. Keys are managed by people: a request that creates, rotates or revokes a key, or changes anything of a key but the
  time of its last use, was made by an authenticated administrator who did not use an API key.\<close>

theorem keys_only_by_administrators:
  assumes "map key_of (db_api_keys (w_db (snd (serve c probe clock r w)))) \<noteq> map key_of (db_api_keys (w_db w))"
  shows "\<exists>p. fst (Middleware (c_lib c) (sv_auth (c_server c)) (c_env c 0) r (w_db w)) = Inr p \<and> Kind p \<noteq> ''api_key'' \<and> Role p = ''admin''"
proof (rule ccontr)
  assume no: "\<not> ?thesis"
  obtain x s where m: "Middleware (c_lib c) (sv_auth (c_server c)) (c_env c 0) r (w_db w) = (x, s)" by fastforce
  have f: "auth_frame (w_db w) s"
    using m by (auto simp: Middleware_def authenticateRequest_def Let_def dest: Authenticate_frame split: if_splits sum.splits prod.splits)
  have "db_api_keys (w_db w') = db_api_keys s" if pub: "serve_public c clock r w = (rsp, w')" for rsp w'
  proof (cases "w_db w' = s")
    case False
    then obtain p where p: "x = Inr p" "w_db w' = snd (public_mux c p r s)"
      using pub m by (auto simp: serve_public_def Let_def split: sum.splits prod.splits limit_answer.splits)
    then have "guard_refuses (ByHumanRole ''admin'') p \<noteq> None"
      using no m by (auto simp: guard_refuses_def RequireHumanRole_def roleLevel_def)
    with p(2) public_keys show ?thesis by simp
  qed simp
  moreover have "map key_of (db_api_keys (w_db w')) = map key_of (db_api_keys (w_db w))" if int: "serve_internal c r w = (rsp, w')" for rsp w'
  proof -
    obtain y t where y: "WorkerMiddleware (c_lib c) (sv_auth (c_server c)) (c_env c 0) r (w_db w) = (y, t)" by fastforce
    then have "auth_frame (w_db w) t" by (auto simp: WorkerMiddleware_def dest: AuthenticateWorker_frame split: sum.splits prod.splits)
    moreover have "db_api_keys (w_db w') = db_api_keys t"
      using int y internal_keys [of c _ r t] by (auto simp: serve_internal_def Let_def split: sum.splits prod.splits) (metis snd_conv)
    ultimately show ?thesis using frame_keys by simp
  qed
  ultimately have "map key_of (db_api_keys (w_db w')) = map key_of (db_api_keys (w_db w))" if "root_mux c probe clock r w = (rsp, w')" for rsp w'
    using that frame_keys [OF f] by (auto simp: root_mux_def split: if_splits)
  then show False using assms by (cases "root_mux c probe clock r w") (auto simp: serve_def cors_def Let_def split: if_splits)
qed

theorem keys_only_by_administrators_witness:
  "map key_of (db_api_keys (w_db (snd (serve demo_call (True, None) None (demo_request ''DELETE'' ''/v1/api-keys/k7'') \<lparr>w_db = demo_keyed, w_buckets = (\<lambda>_. None)\<rparr>))))
     \<noteq> map key_of (db_api_keys demo_keyed) \<and>
   (\<exists>p. fst (Middleware demo_gateway_lib (demo_auth\<lparr>Dev := True, DevWorkerToken := ''dev''\<rparr>) (demo_env 10 60)
      (demo_request ''DELETE'' ''/v1/api-keys/k7'') demo_keyed) = Inr p \<and> Role p = ''admin'')"
proof -
  have changed: "map key_of (db_api_keys (w_db (snd (serve demo_call (True, None) None (demo_request ''DELETE'' ''/v1/api-keys/k7'')
      \<lparr>w_db = demo_keyed, w_buckets = (\<lambda>_. None)\<rparr>)))) \<noteq> map key_of (db_api_keys demo_keyed)"
  proof -
    have "find_route public_routes ''DELETE'' ''/v1/api-keys/k7'' False = Inr (''k7'', ByHumanRole ''admin'', ERevokeAPIKey)" by code_simp
    then show ?thesis
      by (simp add: serve_def cors_def root_mux_def serve_public_def public_mux_def demo_call_def demo_server_def demo_request_def demo_auth_def
          demo_principal_def HasPrefix_def Middleware_def authenticateRequest_def rate_limited_def guard_refuses_def RequireHumanRole_def
          revokeAPIKey_def pg_id_def demo_gateway_lib_def demo_ids_def RevokeAPIKey_def rows_affected_def demo_keyed_keys revoke_where_def
          key_where_def answer_db_def update_where_def key_of_def Let_def insert_audit_def)
  qed
  with keys_only_by_administrators [of demo_call "(True, None)" None "demo_request ''DELETE'' ''/v1/api-keys/k7''" "\<lparr>w_db = demo_keyed, w_buckets = (\<lambda>_. None)\<rparr>"]
  show ?thesis by (auto simp: demo_call_def demo_server_def)
qed

section \<open>Errors\<close>

text \<open>A workflow that does not validate is answered 422 with the reason, and nothing is stored.\<close>

theorem invalid_workflow_422:
  assumes "decode dec_workflow r = Inr (name, tasks)"
    and "ValidateDAG (fst (c_orders c)) (snd (c_orders c)) \<lparr>dag_Name = name, dag_Tasks = tasks\<rparr> = Some er"
  shows "createWorkflow c p r s = (writeError 422 (err_text (dag_err er)), s)"
proof -
  have "contains (err_text (dag_err er)) ''workflow '' \<or> contains (err_text (dag_err er)) ''task ''"
  proof (cases er)
    case (InvalidTaskKey k)
    have "sublist ''task '' (''invalid '' @ ''task '' @ ''key '' @ quote k)" by (rule sublist_appendI)
    with InvalidTaskKey show ?thesis by (simp add: contains_iff_sublist dag_err_def err_text_def)
  qed (simp_all add: contains_iff_sublist dag_err_def err_text_def sublist_Cons_right)
  then have "handleErr (dag_err er) = writeError 422 (err_text (dag_err er))" by (auto simp: handleErr_def dag_err_def)
  with assms show ?thesis by (simp add: createWorkflow_def decoded_def answer_def CreateWorkflow_def)
qed

theorem invalid_workflow_422_witness:
  "createWorkflow demo_call demo_principal ((demo_request ''POST'' ''/v1/workflows'')\<lparr>rq_body := [Some (JObj [(''Name'', JStr ''d'')])]\<rparr>) demo_running
     = (writeError 422 ''workflow requires at least one task'', demo_running)"
proof -
  let ?r = "(demo_request ''POST'' ''/v1/workflows'')\<lparr>rq_body := [Some (JObj [(''Name'', JStr ''d'')])]\<rparr>"
  have "decode dec_workflow ?r = Inr (''d'', [])" by code_simp
  moreover have "ValidateDAG (fst (c_orders demo_call)) (snd (c_orders demo_call)) \<lparr>dag_Name = ''d'', dag_Tasks = []\<rparr> = Some NoTasks"
    by code_simp
  ultimately show ?thesis using invalid_workflow_422 [of ?r "''d''" "[]" demo_call NoTasks demo_principal demo_running]
    by (simp add: dag_err_def err_text_def)
qed

end
