(* ===== verification/Process_Properties.thy ===== *)
theory Process_Properties
  imports Processes Go_Worker Gateway_Properties
begin

text \<open>Properties of the processes as a whole.\<close>

section \<open>The control plane outside development\<close>

text \<open>An object store that answers nothing.\<close>

definition no_s3 :: s3 where
  "no_s3 = \<lparr>s3_presign_put = (\<lambda>_ _ _ _ _. Inl []), s3_presign_get = (\<lambda>_ _ _ _. Inl []), s3_head = (\<lambda>_ _. Inl []), s3_get = (\<lambda>_ _. Inl [])\<rparr>"

definition demo_getenv :: getenv where
  "demo_getenv key =
     (if key = ''RUNMESH_INTERNAL_TOKEN'' then ''t'' else if key = ''RUNMESH_OIDC_ISSUER'' then ''https://id''
      else if key = ''RUNMESH_OIDC_JWKS_URL'' then ''https://id/keys'' else if key = ''RUNMESH_API_KEY_PEPPER'' then ''p''
      else if key = ''RUNMESH_RATE_LIMIT_RATE'' then ''50'' else '''')"

definition demo_startup :: startup where
  "demo_startup =
     \<lparr>st_getenv = demo_getenv, st_telemetry = None, st_database = (\<lambda>_. None),
      st_aws = \<lparr>lib_LoadDefaultConfig = (\<lambda>_ _. None), lib_s3 = (\<lambda>_ _ _ _. no_s3), lib_HeadBucket = (\<lambda>_ _. None), lib_CreateBucket = (\<lambda>_. None)\<rparr>,
      st_redis = (\<lambda>_. None), st_listen = (\<lambda>_. None)\<rparr>"

definition demo_dev :: principal where
  "demo_dev = \<lparr>TenantID = 1, UserID = Some 1, Role = ''admin'', Kind = '''', Scopes = []\<rparr>"

lemma load_texts_fields:
  "cf_DevAuth (load_texts g) = envBool g ''RUNMESH_DEV_AUTH'' False" "cf_InternalToken (load_texts g) = env_or g ''RUNMESH_INTERNAL_TOKEN'' []"
  "cf_OIDCIssuer (load_texts g) = env_or g ''RUNMESH_OIDC_ISSUER'' []" "cf_OIDCAudience (load_texts g) = env_or g ''RUNMESH_OIDC_AUDIENCE'' ''runmesh-web''"
  "cf_OIDCJWKSURL (load_texts g) = env_or g ''RUNMESH_OIDC_JWKS_URL'' []" "cf_APIKeyPepper (load_texts g) = env_or g ''RUNMESH_API_KEY_PEPPER'' []"
  "cf_ArtifactAccessKey (load_texts g) = env_or g ''RUNMESH_ARTIFACT_ACCESS_KEY'' []"
  "cf_ArtifactSecretKey (load_texts g) = env_or g ''RUNMESH_ARTIFACT_SECRET_KEY'' []"
  by (simp_all add: load_texts_def Let_def)

lemma demo_env_numbers:
  "envInt demo_getenv ''RUNMESH_RATE_LIMIT_RATE'' n = Inr 50" "envInt demo_getenv ''RUNMESH_RATE_LIMIT_BURST'' n = Inr n"
  "envInt demo_getenv ''RUNMESH_OUTBOX_BATCH_SIZE'' n = Inr n" "envDuration demo_getenv ''RUNMESH_LEASE_DURATION'' n = Inr n"
  "envDuration demo_getenv ''RUNMESH_SCHEDULER_INTERVAL'' n = Inr n" "envDuration demo_getenv ''RUNMESH_OUTBOX_INTERVAL'' n = Inr n"
  "envDuration demo_getenv ''RUNMESH_OUTBOX_CLAIM_TTL'' n = Inr n" "envDuration demo_getenv ''RUNMESH_OUTBOX_PUBLISH_TIMEOUT'' n = Inr n"
  "envDuration demo_getenv ''RUNMESH_ARTIFACT_PRESIGN_EXPIRY'' n = Inr n" "envBool demo_getenv ''RUNMESH_RATE_LIMIT_FAIL_OPEN'' b = b"
  by (simp_all add: demo_getenv_def envInt_def envDuration_def envBool_def named_error_def Atoi_def HasPrefix_def is_digit_def digits_value_def)

lemma demo_load: "\<exists>c. Load (st_getenv demo_startup) = Inr c \<and> \<not> cf_DevAuth c \<and> cf_APIKeyPepper c = [CHR ''p''] \<and> cf_RateLimitRate c = 50"
  unfolding Load_def load_numbers_def
  by (simp add: Let_def assign_def demo_startup_def demo_env_numbers load_texts_fields)
    (simp add: env_or_def envBool_def demo_getenv_def)



section \<open>Dispatches that are lost\<close>

text \<open>The actions that can take a task out of DISPATCHING.\<close>

fun frees :: "db \<Rightarrow> action \<Rightarrow> task_row \<Rightarrow> bool" where
  "frees s (ALease e tid worker ttl) t \<longleftrightarrow> tid = tr_id t"
| "frees s (ACancelRun e tenant user rid) t \<longleftrightarrow> rid = tr_workflow_run_id t"
| "frees s (AFail e tid worker f) t \<longleftrightarrow> exists_row (\<lambda>u. tr_id u = tid \<and> tr_workflow_run_id u = tr_workflow_run_id t) (db_tasks s)"
| "frees s _ t \<longleftrightarrow> False"

lemma task_moves_dispatching:
  "task_moves A a b \<Longrightarrow> A \<inter> {EvLease, EvCancel} = {} \<Longrightarrow> a_status a = DISPATCHING \<Longrightarrow> b = a"
  unfolding task_moves_def by (induction rule: rtranclp_induct) (auto elim!: task_stepE)

lemma waiting_step:
  assumes "step s l s'" "db_inv s" "t \<in> set (db_tasks s)" "tr_status t = DISPATCHING" "\<not> frees s l t"
  shows "\<exists>t' \<in> set (db_tasks s'). tr_id t' = tr_id t \<and> tr_workflow_run_id t' = tr_workflow_run_id t \<and> tr_status t' = DISPATCHING"
proof (cases "events_of l \<inter> {EvLease, EvCancel} = {}")
  case True
  from evolvesD [OF step_evolves [OF assms(1,2)] assms(3)] obtain t' where t': "t' \<in> set (db_tasks s')" "tr_id t' = tr_id t"
    "tr_workflow_run_id t' = tr_workflow_run_id t" "task_moves (events_of l) (abs_task t) (abs_task t')" by metis
  from task_moves_dispatching [OF t'(4) True] assms(4) have "abs_task t' = abs_task t" by (simp add: abs_task_def)
  with t' assms(4) show ?thesis by (auto simp: abs_task_def)
next
  case False
  from assms(1) have "t \<in> set (db_tasks s')"
  proof cases
    case (cancel_run e tenant user rid)
    with assms(3,5) show ?thesis by (auto simp: CancelRun_Inr(1) set_update_where pending_where_def)
  next
    case (lease e tid worker ttl x)
    then show ?thesis using assms(3,5) by (auto elim!: LeaseTask_Inr simp: set_update_where lease_where_def)
  next
    case (fail e tid worker f x)
    from fail(2) show ?thesis
    proof (rule FailTask_Inr)
      fix u r st ts1 g
      assume u: "query_row (held [LEASED, RUNNING] tid worker (e_now e)) (db_tasks s) = Some u"
        and ts1: "ts1 = update_where (settle_where tid worker) (settle_set st (settled_at (e_gonow e) st u) (e_now e)) (db_tasks s)"
        and ts: "db_tasks s' = (if st = DEAD then update_where (pending_where (tr_workflow_run_id u)) (cancel_set (e_now e)) ts1 else ts1)"
      from u have "u \<in> set (db_tasks s)" "tr_id u = tid" by (auto simp: held_def dest: query_row_SomeD)
      with assms(5) fail(1) have r: "tr_workflow_run_id u \<noteq> tr_workflow_run_id t" and "tr_id t \<noteq> tid"
        using assms(3) by (auto simp: exists_row_iff)
      then have "t \<in> set ts1" using assms(3) by (auto simp: ts1 set_update_where settle_where_def)
      with r show ?thesis by (auto simp: ts set_update_where pending_where_def)
    qed
  qed (use False in simp_all)
  with assms(4) show ?thesis by blast
qed

lemma waiting_steps:
  assumes "(\<lambda>s s'. \<exists>l. step s l s' \<and> \<not> frees s l t)\<^sup>*\<^sup>* s s'" "system_inv s" "t \<in> set (db_tasks s)" "tr_status t = DISPATCHING"
  shows "\<exists>t' \<in> set (db_tasks s'). tr_id t' = tr_id t \<and> tr_workflow_run_id t' = tr_workflow_run_id t \<and> tr_status t' = DISPATCHING"
proof -
  from assms have "system_inv s' \<and> (\<exists>t' \<in> set (db_tasks s'). tr_id t' = tr_id t \<and> tr_workflow_run_id t' = tr_workflow_run_id t \<and>
    tr_status t' = DISPATCHING)"
  proof (induction rule: rtranclp_induct)
    case (step u s')
    then obtain l t' where l: "step u l s'" "\<not> frees u l t" and t': "t' \<in> set (db_tasks u)" "tr_id t' = tr_id t"
      "tr_workflow_run_id t' = tr_workflow_run_id t" "tr_status t' = DISPATCHING" and i: "system_inv u" by blast
    from l(2) t'(2,3) have "\<not> frees u l t'" by (cases l) simp_all
    from waiting_step [OF l(1) _ t'(1,4) this] i t'(2,3) sys.step_inv [OF l(1) i] show ?case by (simp add: system_inv_def)
  qed blast
  then show ?thesis ..
qed

lemma lease_lost:
  assumes "cl_initErr c = None" "ln_fault (N (fst st)) = RequestLost er"
  shows "execute L X N c slept ended task st = (Inl er, next_site N id st)"
  using assms by (simp add: execute_def client_Lease_def initialised_def rpc_def and_then_def Let_def)

definition lost_link :: link where
  "lost_link = \<lparr>ln_before = id, ln_server = demo_worker_server, ln_envs = (\<lambda>i. demo_env (10 + i) 60), ln_call = demo_call,
     ln_fault = RequestLost ''connection refused'', ln_http = (\<lambda>_ _ _ _. Inl ''connection refused'')\<rparr>"

definition demo_client :: client where
  "demo_client = NewClient (\<lambda>_. None) ''http://localhost:7001/'' ''dev'' ''w''"

definition demo_dispatch :: kafka_message where
  "demo_dispatch = \<lparr>km_headers = [(''event_type'', ''task.dispatch'')],
     km_value = Some (JObj [(''task_run_id'', JStr ''task4''), (''handler'', JStr ''examples.greet'')])\<rparr>"

lemma demo_message:
  "kafka_header (km_headers demo_dispatch) ''event_type'' = ''task.dispatch''" "supported ''examples.greet''"
  by (simp_all add: demo_dispatch_def kafka_header_def supported_def)

lemma demo_decode: "decode_dispatch demo_lib (km_value demo_dispatch) = Some (''task4'', ''examples.greet'')"
  by (simp add: decode_dispatch_def demo_dispatch_def field_def dec_text_def dec_string_def ToLower_def to_lower_def Let_def)

definition demo_round :: round_input where
  "demo_round = \<lparr>ri_fetched = Fetched demo_dispatch, ri_slept = True, ri_ended = '''', ri_committed = True\<rparr>"

text \<open>
  C16. A dispatch is not delivered again when the worker that fetched it cannot reach the control
  plane: the execution ends with the transport error before anything is leased, the offset is
  committed all the same, and from then on the task stays DISPATCHING whatever the scheduler, the
  API and the other workers do, unless the task itself is leased, its run is cancelled or a task of
  its run fails. No scheduling cycle and no retry of the run brings it back.
\<close>

theorem lost_lease_strands_task:
  assumes "reachable (w_db (snd st))" "others_keep history N" "cl_initErr c = None" "ln_fault (N (fst st)) = RequestLost er"
    and m: "ri_fetched i = Fetched m" "ri_committed i" "kafka_header (km_headers m) ''event_type'' = ''task.dispatch''"
      "decode_dispatch X (km_value m) = Some (task, handler)" "supported handler"
    and "worker_main L X N c [i] st = (ms, st')"
    and "t \<in> set (db_tasks (w_db (snd st')))" "tr_status t = DISPATCHING"
    and "(\<lambda>s s'. \<exists>l. step s l s' \<and> \<not> frees s l t)\<^sup>*\<^sup>* (w_db (snd st')) s''"
  shows "ms = [m] \<and> w_db (snd st') = ln_before (N (fst st)) (w_db (snd st)) \<and>
    (\<exists>t' \<in> set (db_tasks s''). tr_id t' = tr_id t \<and> tr_workflow_run_id t' = tr_workflow_run_id t \<and> tr_status t' = DISPATCHING)"
proof -
  have w: "worker_main L X N c [i] st = ([m], next_site N id st)"
    using m by (simp add: handle_message_def lease_lost [of c N st er, OF assms(3,4)])
  with assms(10) have st': "st' = next_site N id st" "ms = [m]" by simp_all
  then have d: "w_db (snd st') = ln_before (N (fst st)) (w_db (snd st))" by (cases st) (simp add: next_site_def)
  have "system_inv (w_db (snd st'))"
    using history_inv [OF _ sys.reaches_inv [OF assms(1)]] assms(2) by (simp add: d others_keep_def)
  from waiting_steps [OF assms(13) this assms(11,12)] d st'(2) show ?thesis by simp
qed

theorem lost_lease_strands_task_witness:
  "\<exists>st'. worker_main demo_gateway_lib demo_lib (\<lambda>_. lost_link) demo_client [demo_round] (0, demo_world\<lparr>w_db := demo_dispatched\<rparr>) = ([demo_dispatch], st') \<and>
     (\<exists>t \<in> set (db_tasks (w_db (snd st'))). tr_id t = 4 \<and> tr_status t = DISPATCHING)"
proof -
  have "\<exists>t \<in> set (db_tasks demo_dispatched). tr_id t = 4 \<and> tr_status t = DISPATCHING" by code_simp
  then obtain t where t: "t \<in> set (db_tasks demo_dispatched)" "tr_id t = 4" "tr_status t = DISPATCHING" by blast
  let ?st = "(0, demo_world\<lparr>w_db := demo_dispatched\<rparr>)"
  obtain ms st' where w: "worker_main demo_gateway_lib demo_lib (\<lambda>_. lost_link) demo_client [demo_round] ?st = (ms, st')" by (meson surj_pair)
  have o: "others_keep history (\<lambda>_. lost_link)" by (simp add: others_keep_def lost_link_def)
  have c: "cl_initErr demo_client = None" by (simp add: demo_client_def NewClient_def Let_def)
  have d: "w_db (snd st') = demo_dispatched"
    using w demo_decode by (auto simp: demo_round_def handle_message_def lease_lost c lost_link_def next_site_def demo_message)
  from lost_lease_strands_task [where st = ?st and N = "\<lambda>_. lost_link" and c = demo_client and er = "''connection refused''" and i = demo_round
      and m = demo_dispatch and X = demo_lib and t = t and s'' = demo_dispatched, OF _ o c _ _ _ _ demo_decode _ w] t d demo_steps(3)
  show ?thesis using w by (auto simp: lost_link_def demo_round_def demo_message)
qed

section \<open>The processes make steps of the system\<close>


definition good_link :: link where
  "good_link = lost_link\<lparr>ln_fault := Delivered\<rparr>"


end
