(* ===== verification/Worker_Execution.thy ===== *)
theory Worker_Execution
  imports Process_Properties
begin

text \<open>
  What it means for the worker that an execution succeeded: from the outcome of \<open>execute\<close> back through
  the calls of the SDK and the service to the row of the task.
\<close>

section \<open>Outcomes that are not errors\<close>

lemma and_then_Inr:
  assumes "and_then r f = (Inr y, st')"
  obtains a st1 where "r = (Inr a, st1)" "f a st1 = (Inr y, st')"
  using assms by (cases r; cases "fst r") (auto simp: and_then_def)

lemma rpc_Inr:
  assumes "rpc N f st = (Inr a, st')"
  obtains l s where "f l s = (Inr a, w_db (snd st'))"
proof -
  define l where "l = N (fst st)"
  define s where "s = ln_before l (w_db (snd st))"
  obtain r s' where f: "f l s = (r, s')" by (meson surj_pair)
  from assms f have "r = Inr a" "st' = next_site N (snd \<circ> f l) st"
    by (auto simp: rpc_def Let_def simp flip: l_def s_def split: fault.splits) (cases r; simp)+
  moreover from this(2) have "w_db (snd st') = s'"
    using f by (cases st) (simp add: next_site_def l_def s_def)
  ultimately show ?thesis using f by (auto intro: that [of l s])
qed

lemma CompleteTask_row:
  assumes "CompleteTask e tid worker (Some j) artifact logs s = Inr (x, s')"
  shows "db_artifacts s' = db_artifacts s"
    "\<exists>t \<in> set (db_tasks s'). tr_id t = tid \<and> tr_status t = SUCCEEDED \<and> tr_lease_owner t = Some worker \<and>
       tr_output t = Some j \<and> tr_output_artifact_uri t = nullif_empty artifact"
proof -
  show "db_artifacts s' = db_artifacts s"
    using assms by (auto simp: CompleteTask_def Let_def insert_outbox_def split: option.splits if_splits)
  from assms obtain t U f where "t \<in> set (db_tasks s)" "held [RUNNING] tid worker (e_now e) t"
    and U: "db_tasks s' = update_where (unblock_where (update_where (held [RUNNING] tid worker (e_now e)) (complete_set j artifact (e_now e)) (db_tasks s))
        (db_deps s) (tr_workflow_run_id t) tid) (unblock_set (e_now e))
       (update_where (held [RUNNING] tid worker (e_now e)) (complete_set j artifact (e_now e)) (db_tasks s))"
    by (auto simp: CompleteTask_def Let_def insert_outbox_def complete_set_def held_def dest!: query_row_SomeD split: option.splits if_splits)
  moreover have "\<not> unblock_where ts ds r i (complete_set j artifact (e_now e) t)" for ts ds r i
    by (simp add: unblock_where_def complete_set_def)
  ultimately have "complete_set j artifact (e_now e) t \<in> set (db_tasks s')"
    by (force simp: update_where_def)
  with \<open>held _ _ _ _ t\<close> show "\<exists>t \<in> set (db_tasks s'). tr_id t = tid \<and> tr_status t = SUCCEEDED \<and> tr_lease_owner t = Some worker \<and>
       tr_output t = Some j \<and> tr_output_artifact_uri t = nullif_empty artifact"
    by (intro bexI [of _ "complete_set j artifact (e_now e) t"]) (auto simp: complete_set_def held_def)
qed

text \<open>The row of a task that a worker completed with an output, and the artifact it names, if any.\<close>

definition completed_by :: "uuid \<Rightarrow> string \<Rightarrow> json \<Rightarrow> string \<Rightarrow> db \<Rightarrow> bool" where
  "completed_by tid worker j artifact s \<longleftrightarrow>
     (\<exists>t \<in> set (db_tasks s). tr_id t = tid \<and> tr_status t = SUCCEEDED \<and> tr_lease_owner t = Some worker \<and>
        tr_output t = Some j \<and> tr_output_artifact_uri t = nullif_empty artifact) \<and>
     (artifact \<noteq> '''' \<longrightarrow> (\<exists>a \<in> set (db_artifacts s). ar_object_uri a = artifact \<and> ar_status a = ArtifactReady \<and> ar_kind a = ''output''))"

lemma rpc_Complete_Inr:
  assumes "rpc_Complete L w es vals task worker (Some j) artifact lg s = (Inr v, s')"
  shows "\<exists>tid. lib_pg_uuid L task = Some tid \<and> completed_by tid worker j artifact s'"
proof -
  obtain r s1 where p: "principalForActiveTask L w es vals task worker s = (r, s1)" by (meson surj_pair)
  with assms obtain p where "r = Inr p" by (cases r) (simp_all add: rpc_Complete_def)
  with assms p have c: "artifact \<noteq> '''' \<longrightarrow> task_artifact L (TenantID p) artifact ''output'' task s1"
    and f: "finish (pg_id L task (\<lambda>tid. CompleteTask (es 2) tid worker (Some j) artifact [lg] s1)) (\<lambda>t. snapshot t None) s1 = (Inr v, s')"
    by (auto simp: rpc_Complete_def split: if_splits)
  from f obtain tid x where tid: "lib_pg_uuid L task = Some tid" "CompleteTask (es 2) tid worker (Some j) artifact [lg] s1 = Inr (x, s')"
    by (auto simp: finish_def pg_id_def split: sum.splits option.splits)
  from c have "\<exists>a \<in> set (db_artifacts s1). ar_object_uri a = artifact \<and> ar_status a = ArtifactReady \<and> ar_kind a = ''output''" if "artifact \<noteq> ''''"
    using that by (auto simp: task_artifact_def GetArtifactByURI_def getArtifact_def dest!: query_row_SomeD split: sum.splits option.splits)
  with tid CompleteTask_row [OF tid(2)] show ?thesis by (auto simp: completed_by_def)
qed

lemma client_Complete_Inr:
  assumes "client_Complete L X N c task out st = (Inr v, st')"
  shows "\<exists>tid j artifact. lib_pg_uuid L task = Some tid \<and> completed_by tid (cl_workerID c) j artifact (w_db (snd st')) \<and>
    (if length (Marshal X out) > 256 * 2 ^ 10 then j = JObj [] else artifact = '''' \<and> (j = out \<or> out = JNull \<and> j = JObj []))"
proof -
  from assms obtain object where o: "unmarshal_map (Some out) = Inr object"
    by (auto simp: client_Complete_def initialised_def Let_def split: option.splits sum.splits)
  then have oo: "JObj object = out \<or> out = JNull \<and> object = []" by (auto simp: unmarshal_map_def split: json.splits)
  define r where "r = (if length (Marshal X out) > 256 * 2 ^ 10
                      then returned (\<lambda>uri. (uri, []))
                             (prefix_error ''upload output artifact'' (UploadArtifact L N c task ''output'' ''application/json'' (Marshal X out) st))
                      else (Inr ('''', object), st))"
  define G where "G st = prefix_error ''upload task log'' (UploadArtifact L N c task ''log'' ''application/json''
      (Marshal X (JObj [(''task_run_id'', JStr task), (''status'', JStr ''SUCCEEDED'')])) st)" for st
  define F where "F artifact ob lg = rpc N (\<lambda>l. rpc_Complete L (ln_server l) (ln_envs l) (rpcContext c) task (cl_workerID c)
      (Some (JObj ob)) artifact lg)" for artifact ob lg
  have "and_then r (\<lambda>(artifact, ob) st. and_then (G st) (\<lambda>lg st. returned sdk_task_of (F artifact ob lg st))) = (Inr v, st')"
    using assms o unfolding client_Complete_def initialised_def Let_def r_def G_def F_def
    by (simp split: option.splits split del: if_split)
  then obtain artifact ob st1 lg st2 x where r: "r = (Inr (artifact, ob), st1)" and k: "F artifact ob lg st2 = (Inr x, st')"
    by (auto simp: returned_def elim!: and_then_Inr)
  from k [unfolded F_def] obtain l :: link and s where "rpc_Complete L (ln_server l) (ln_envs l) (rpcContext c) task (cl_workerID c) (Some (JObj ob)) artifact lg s = (Inr x, w_db (snd st'))"
    by (rule rpc_Inr)
  from rpc_Complete_Inr [OF this] obtain tid where "lib_pg_uuid L task = Some tid" "completed_by tid (cl_workerID c) (JObj ob) artifact (w_db (snd st'))"
    by blast
  moreover have "if length (Marshal X out) > 256 * 2 ^ 10 then ob = [] else artifact = '''' \<and> ob = object"
    using r by (auto simp: r_def returned_def elim!: and_then_Inr split: if_splits)
  ultimately show ?thesis using oo by (intro exI [of _ tid] exI [of _ "JObj ob"] exI [of _ artifact]) (auto split: if_splits)
qed

section \<open>Successful executions\<close>


section \<open>An execution\<close>

text \<open>
  The worker leases a dispatched task, greets, uploads its log to an object store that has what it was
  sent, and completes. The digest of the log is never computed.
\<close>

lemma EncodeHex_normal:
  "ToLower (TrimSpace (EncodeHex bs)) = EncodeHex bs" "DecodeHex_length (EncodeHex bs) = Some (length bs)"
  "length (EncodeHex bs) = 2 * length bs"
proof -
  have d: "hex_digit n \<in> set ''0123456789abcdef''" for n
    unfolding hex_digit_def by (rule nth_mem) simp
  have digits: "to_lower c = c \<and> \<not> is_space c \<and> is_hex c" if "c \<in> set ''0123456789abcdef''" for c
    using that by (auto simp: to_lower_def is_space_def is_hex_def)
  have all: "to_lower c = c \<and> \<not> is_space c \<and> is_hex c" if "c \<in> set (EncodeHex bs)" for c
    using that digits [OF d] by (auto simp: EncodeHex_def)
  show l: "length (EncodeHex bs) = 2 * length bs" by (induction bs) (simp_all add: EncodeHex_def)
  have t: "dropWhile is_space xs = xs" if "\<And>c. c \<in> set xs \<Longrightarrow> \<not> is_space c" for xs
    using that by (cases xs) auto
  have "TrimSpace (EncodeHex bs) = EncodeHex bs" using all t [of "EncodeHex bs"] t [of "rev (EncodeHex bs)"] by (simp add: TrimSpace_def)
  then show "ToLower (TrimSpace (EncodeHex bs)) = EncodeHex bs" using all by (simp add: ToLower_def map_idI)
  show "DecodeHex_length (EncodeHex bs) = Some (length bs)" using all l by (simp add: DecodeHex_length_def list_all_iff)
qed

definition demo_log :: "char list" where
  "demo_log = Marshal demo_lib (JObj [(''task_run_id'', JStr ''task4''), (''status'', JStr ''SUCCEEDED'')])"

definition log_s3 :: s3 where
  "log_s3 = \<lparr>s3_presign_put = (\<lambda>_ _ _ _ _. Inr (''u'', [])), s3_presign_get = (\<lambda>_ _ _ _. Inr ''u''),
     s3_head = (\<lambda>_ _. Inr (Some (int (length demo_log)))), s3_get = (\<lambda>_ _. Inr (Inr demo_log))\<rparr>"

definition demo_worker_lib :: auth_lib where
  "demo_worker_lib = demo_gateway_lib\<lparr>lib_uuid_string := (\<lambda>u. if u = 4 then ''task4'' else ''log''),
     lib_pg_uuid := (\<lambda>t. if t = ''task4'' then Some 4 else if t = ''log'' then Some 12 else None)\<rparr>"

definition demo_store :: worker_server where
  "demo_store = demo_worker_server\<lparr>ws_Artifacts := Some (log_s3, manager_New ''b'' 0)\<rparr>"

definition store_link :: link where
  "store_link = good_link\<lparr>ln_server := demo_store,
     ln_http := (\<lambda>_ _ _ _. Inr \<lparr>ha_status = 200, ha_line = ''200 OK'', ha_raw = [], ha_json = None\<rparr>)\<rparr>"

definition demo_greet :: db where
  "demo_greet = demo_dispatched\<lparr>db_tasks := map (\<lambda>t. t\<lparr>tr_handler := ''examples.greet''\<rparr>) (db_tasks demo_dispatched)\<rparr>"

definition demo_leasing :: "sdk_task outcome" where
  "demo_leasing = client_Lease demo_worker_lib (\<lambda>_. store_link) demo_client ''task4'' (0, demo_world\<lparr>w_db := demo_greet\<rparr>)"

definition demo_starting :: "sdk_task outcome" where
  "demo_starting = client_Start demo_worker_lib (\<lambda>_. store_link) demo_client ''task4'' (snd demo_leasing)"

definition demo_greeting :: db where
  "demo_greeting = w_db (snd (snd demo_starting))"

definition demo_output :: json where
  "demo_output = JObj [(''message'', JStr ''Hello, <nil>!''), (''worker'', JStr ''go'')]"

definition demo_sum :: string where
  "demo_sum = EncodeHex (Sum256 demo_log)"

lemma demo_leasing_ok:
  "case fst demo_leasing of Inl _ \<Rightarrow> False | Inr tk \<Rightarrow> (case unmarshal_map (tk_Input tk) of Inl _ \<Rightarrow> False
     | Inr input \<Rightarrow> run_handler demo_lib True ''task4'' (tk_Handler tk) input = Output demo_output)"
  by code_simp

lemma demo_starting_ok: "case demo_starting of (r, n, w) \<Rightarrow> \<not> isl r \<and> n = 2"
  by code_simp

lemma demo_greeting_ok:
  "db_artifacts demo_greeting = []" "exists_row (\<lambda>t. tr_id t = 4) (db_tasks demo_greeting)"
  "TaskBelongsToTenant 4 9 demo_greeting = Inr ()" "ActiveTaskLeaseBelongsToWorker (demo_env 11 60) 4 9 ''w'' demo_greeting = Inr ()"
  "\<not> isl (CompleteTask (demo_env 12 60) 4 ''w'' (Some demo_output) '''' [''s3://b/log/log/log''] demo_greeting)"
  by code_simp+

definition demo_pending :: artifact_row where
  "demo_pending = \<lparr>ar_id = 12, ar_tenant_id = 9, ar_kind = ''log'', ar_status = ArtifactPending, ar_object_key = ''log/log/log'',
     ar_object_uri = ''s3://b/log/log/log'', ar_content_type = ''application/json'', ar_declared_size = int (length demo_log),
     ar_size_bytes = None, ar_checksum_sha256 = Some demo_sum, ar_workflow_run_id = None, ar_task_run_id = Some 4,
     ar_created_by = Some 1, ar_ready_at = None, ar_created_at = 60\<rparr>"

lemma demo_log_size: "length demo_log < 100"
  by code_simp

lemma demo_sum_ok: "ToLower (TrimSpace demo_sum) = demo_sum" "DecodeHex_length demo_sum = Some 32" "demo_sum \<noteq> ''''"
  using EncodeHex_normal [of "Sum256 demo_log"] by (auto simp: demo_sum_def)

lemma demo_active:
  "\<exists>p. principalForActiveTask demo_worker_lib demo_store (\<lambda>i. demo_env (10 + i) 60) [''Bearer dev''] ''task4'' ''w'' (demo_greeting\<lparr>db_artifacts := as\<rparr>) =
     (Inr p, demo_greeting\<lparr>db_artifacts := as\<rparr>) \<and> TenantID p = 9 \<and> UserID p = Some 1"
proof -
  have b: "HasPrefix ''Bearer dev'' ''Bearer ''" "TrimSpace (TrimPrefix ''Bearer dev'' ''Bearer '') = ''dev''" by code_simp+
  have "ActiveTaskLeaseBelongsToWorker (demo_env 11 60) 4 9 ''w'' (demo_greeting\<lparr>db_artifacts := as\<rparr>) = Inr ()"
    using demo_greeting_ok(4) by (simp add: ActiveTaskLeaseBelongsToWorker_def run_of_def cong: option.case_cong)
  with b show ?thesis
    by (simp add: principalForActiveTask_def authorize_def AuthenticateWorker_def demo_store_def demo_worker_server_def demo_auth_def
        demo_principal_def pg_id_def demo_worker_lib_def)
qed

lemma demo_upload:
  "CreateArtifactUpload demo_worker_lib demo_store (\<lambda>i. demo_env (10 + i) 60) [''Bearer dev''] ''task4'' ''w'' ''log'' ''application/json''
     (int (length demo_log)) demo_sum demo_greeting =
   (Inr \<lparr>ur_artifact_id = 12, ur_artifact_uri = ''s3://b/log/log/log'', ur_upload_url = ''u'', ur_headers = [], ur_expires_at = 900000000060\<rparr>,
    demo_greeting\<lparr>db_artifacts := [demo_pending]\<rparr>)"
proof -
  have d: "demo_greeting\<lparr>db_artifacts := []\<rparr> = demo_greeting" using demo_greeting_ok(1) by simp
  have c: "CreateArtifact (demo_env 12 60) 12 9 (Some 1) ''log'' ''log/log/log'' ''s3://b/log/log/log'' ''application/json'' (int (length demo_log))
      demo_sum (Some 4) demo_greeting = Inr (demo_pending, demo_greeting\<lparr>db_artifacts := [demo_pending]\<rparr>)"
    using demo_greeting_ok(1,2) demo_sum_ok(3)
    by (simp add: CreateArtifact_def Let_def demo_pending_def nullif_empty_def exists_row_def demo_env_def)
  have u: "upload_checks ''log'' ''application/json'' (int (length demo_log)) demo_sum = Inr (demo_sum, ''application/json'')"
    using demo_sum_ok demo_log_size by (simp add: upload_checks_def size_limit_def MaxLogBytes_def)
  obtain p where "principalForActiveTask demo_worker_lib demo_store (\<lambda>i. demo_env (10 + i) 60) [''Bearer dev''] ''task4'' ''w'' demo_greeting =
      (Inr p, demo_greeting)" "TenantID p = 9" "UserID p = Some 1" using demo_active [of "[]", unfolded d] by blast
  with c u demo_greeting_ok(3) show ?thesis
    by (simp add: CreateArtifactUpload_def CreateInternalUpload_def createUpload_def demo_store_def demo_worker_lib_def demo_env_def manager_New_def
       object_key_def object_uri_def log_s3_def Let_def) (simp add: demo_pending_def)
qed

lemma demo_uploaded:
  "CompleteArtifactUpload demo_worker_lib demo_store (\<lambda>i. demo_env (10 + i) 60) [''Bearer dev''] ''task4'' ''w'' ''log''
     (demo_greeting\<lparr>db_artifacts := [demo_pending]\<rparr>) =
   (Inr ''s3://b/log/log/log'', demo_greeting\<lparr>db_artifacts := [ready_set 60 (int (length demo_log)) demo_pending]\<rparr>)"
proof -
  obtain p where "principalForActiveTask demo_worker_lib demo_store (\<lambda>i. demo_env (10 + i) 60) [''Bearer dev''] ''task4'' ''w'' (demo_greeting\<lparr>db_artifacts := [demo_pending]\<rparr>) =
      (Inr p, demo_greeting\<lparr>db_artifacts := [demo_pending]\<rparr>)" "TenantID p = 9" using demo_active by blast
  moreover have "Checksum (take (nat (int (length demo_log) + 1)) demo_log) = demo_sum" by (simp add: Checksum_def demo_sum_def)
  ultimately show ?thesis using demo_sum_ok(3)
    by (simp add: CompleteArtifactUpload_def demo_store_def demo_worker_lib_def pg_id_def GetArtifact_def getArtifact_def query_row_def demo_pending_def
       finish_def manager_Complete_def verify_object_def log_s3_def CompleteArtifact_def ready_where_def ready_set_def update_where_def demo_env_def)
qed

lemma demo_complete:
  "\<exists>v s'. rpc_Complete demo_worker_lib demo_store (\<lambda>i. demo_env (10 + i) 60) [''Bearer dev''] ''task4'' ''w'' (Some demo_output) '''' ''s3://b/log/log/log''
     (demo_greeting\<lparr>db_artifacts := [ready_set 60 (int (length demo_log)) demo_pending]\<rparr>) = (Inr v, s')"
proof -
  let ?s = "demo_greeting\<lparr>db_artifacts := [ready_set 60 (int (length demo_log)) demo_pending]\<rparr>"
  have "\<exists>t s'. CompleteTask (demo_env 12 60) 4 ''w'' (Some demo_output) '''' [''s3://b/log/log/log''] ?s = Inr (t, s')"
    using demo_greeting_ok(5) by (auto simp: CompleteTask_def Let_def run_of_def split: option.splits if_splits)
  moreover have "task_artifact demo_worker_lib 9 ''s3://b/log/log/log'' ''log'' ''task4'' ?s"
    by (simp add: task_artifact_def GetArtifactByURI_def getArtifact_def query_row_def ready_set_def demo_pending_def demo_worker_lib_def)
  moreover obtain p where "principalForActiveTask demo_worker_lib demo_store (\<lambda>i. demo_env (10 + i) 60) [''Bearer dev''] ''task4'' ''w'' ?s = (Inr p, ?s)" "TenantID p = 9"
    using demo_active by blast
  ultimately show ?thesis by (auto simp: rpc_Complete_def pg_id_def finish_def demo_worker_lib_def)
qed

lemma demo_leased_task:
  "\<exists>tk st1 input. demo_leasing = (Inr tk, st1) \<and> unmarshal_map (tk_Input tk) = Inr input \<and>
     run_handler demo_lib True ''task4'' (tk_Handler tk) input = Output demo_output"
proof -
  obtain r st1 where d: "demo_leasing = (r, st1)" by (meson surj_pair)
  show ?thesis using demo_leasing_ok by (auto simp: d split: sum.splits)
qed

lemma demo_executed:
  "\<exists>st'. execute demo_worker_lib demo_lib (\<lambda>_. store_link) demo_client True '''' ''task4'' (0, demo_world\<lparr>w_db := demo_greet\<rparr>) = (Inr (), st')"
proof -
  obtain tk st1 input where l: "demo_leasing = (Inr tk, st1)" "unmarshal_map (tk_Input tk) = Inr input"
      "run_handler demo_lib True ''task4'' (tk_Handler tk) input = Output demo_output"
    using demo_leased_task by blast
  obtain r n w where d: "demo_starting = (r, n, w)" by (metis surj_pair)
  from demo_starting_ok have "\<not> isl r" "n = 2" unfolding d by simp_all
  with d obtain x where s: "demo_starting = (Inr x, 2, w)" by (cases r) simp_all
  have w: "w_db w = demo_greeting" unfolding demo_greeting_def s by simp
  have small: "length (Marshal demo_lib demo_output) < 1000" by code_simp
  have k: "rpcContext demo_client = [''Bearer dev'']" "cl_workerID demo_client = ''w''" "cl_initErr demo_client = None"
    by (simp_all add: demo_client_def NewClient_def rpcContext_def Let_def)
  have n: "ln_before store_link = id" "ln_fault store_link = Delivered" "ln_server store_link = demo_store" "ln_envs store_link = (\<lambda>i. demo_env (10 + i) 60)"
    "ln_http store_link = (\<lambda>_ _ _ _. Inr \<lparr>ha_status = 200, ha_line = ''200 OK'', ha_raw = [], ha_json = None\<rparr>)"
    by (simp_all add: store_link_def good_link_def lost_link_def demo_store_def)
  have id: "lib_uuid_string demo_worker_lib 12 = ''log''" by (simp add: demo_worker_lib_def)
  have u: "UploadArtifact demo_worker_lib (\<lambda>_. store_link) demo_client ''task4'' ''log'' ''application/json'' demo_log (2, w) =
      (Inr ''s3://b/log/log/log'', 5, w\<lparr>w_db := demo_greeting\<lparr>db_artifacts := [ready_set 60 (int (length demo_log)) demo_pending]\<rparr>\<rparr>)"
    using demo_upload demo_uploaded
    by (simp add: UploadArtifact_def rpc_def http_Do_def and_then_def next_site_def n k w id flip: demo_sum_def)
  obtain v s' where c: "rpc_Complete demo_worker_lib demo_store (\<lambda>i. demo_env (10 + i) 60) [''Bearer dev''] ''task4'' ''w'' (Some demo_output) '''' ''s3://b/log/log/log''
     (demo_greeting\<lparr>db_artifacts := [ready_set 60 (int (length demo_log)) demo_pending]\<rparr>) = (Inr v, s')" using demo_complete by blast
  obtain kvs where o: "demo_output = JObj kvs" by (simp add: demo_output_def)
  have m: "unmarshal_map (Some demo_output) = Inr kvs" unfolding o by (simp add: unmarshal_map_def)
  have "\<exists>y st'. client_Complete demo_worker_lib demo_lib (\<lambda>_. store_link) demo_client ''task4'' demo_output (2, w) = (Inr y, st')"
    unfolding client_Complete_def initialised_def k Let_def m option.case sum.case demo_log_def [symmetric]
    using small c
    by (simp add: and_then_def u prefix_error_def returned_def rpc_def next_site_def n k o [symmetric])
  then show ?thesis
    using s unfolding demo_starting_def execute_def demo_leasing_def [symmetric] l(1) by (auto simp: l and_then_def returned_def)
qed


end
