(* ===== verification/Artifact_Properties.thy ===== *)
theory Artifact_Properties
  imports Artifacts Example
begin

text \<open>
  What holds of artifacts: every row is well formed, an artifact becomes ready only when the object
  store holds what was declared, and what was uploaded, completed and asked for by its URI is what
  is served.
\<close>

section \<open>Shared facts\<close>

lemma attach_ok:
  assumes "artifacts_ok L b s" "distinct (map ar_id (db_artifacts s))"
    and "a \<in> set (db_artifacts s)" "ar_id a = aid" "ar_status a = ArtifactReady"
    and "db_artifacts s' = update_where (attach_where aid) (\<lambda>a. a\<lparr>ar_workflow_run_id := Some rid\<rparr>) (db_artifacts s)"
  shows "artifacts_ok L b s'"
proof (rule artifacts_ok_update [OF assms(1) _ assms(6)])
  fix x
  assume x: "x \<in> set (db_artifacts s)" "attach_where aid x" and ok: "artifact_ok L b x"
  have "x = a" using distinct_map_eq [of ar_id, OF assms(2) x(1) assms(3)] x(2) assms(4) by (simp add: attach_where_def)
  with ok assms(5) show "artifact_ok L b (x\<lparr>ar_workflow_run_id := Some rid\<rparr>)" by (simp add: artifact_ok_def)
qed

lemma CreateRun_artifacts:
  assumes "artifacts_ok L b s" "distinct (map ar_id (db_artifacts s))" "CreateRun e u user defid key input artifact s = Inr (x, s')"
  shows "artifacts_ok L b s'"
proof (cases "db_artifacts s' = db_artifacts s")
  case False
  with CreateRun_attaches [OF assms(3)] obtain aid rid a where "a \<in> set (db_artifacts s)" "ar_id a = aid" "ar_status a = ArtifactReady"
    "db_artifacts s' = update_where (attach_where aid) (\<lambda>a. a\<lparr>ar_workflow_run_id := Some rid\<rparr>) (db_artifacts s)" by blast
  then show ?thesis by (rule attach_ok [OF assms(1,2)])
qed (use assms(1) in \<open>simp add: artifacts_ok_def\<close>)

lemma createUpload_row:
  "createUpload L S m internal e u user kind ct sz cs task s = (x, s') \<Longrightarrow> s' = s \<or>
     (\<exists>a ct' cs'. CreateArtifact e (e_uuid e 0) u user kind (object_key L u kind (e_uuid e 0))
        (object_uri (mg_bucket m) (object_key L u kind (e_uuid e 0))) ct' sz cs' task s = Inr (a, s') \<and> (\<forall>up. x = Inr up \<longrightarrow> up_artifact up = a))"
  by (auto simp: createUpload_def Let_def split: sum.splits prod.splits option.splits)

lemma CreateArtifact_fresh:
  "CreateArtifact e aid u user kind key uri ct sz cs task s = Inr (a, s') \<Longrightarrow>
     \<forall>x \<in> set (db_artifacts s). ar_id x \<noteq> aid \<and> ar_object_key x \<noteq> key \<and> ar_object_uri x \<noteq> uri"
  by (auto simp: CreateArtifact_def exists_row_iff Let_def split: if_splits)

lemma createUpload_ids:
  assumes "createUpload L S m internal e u user kind ct sz cs task s = (x, s')" "distinct (map ar_id (db_artifacts s))"
  shows "distinct (map ar_id (db_artifacts s'))"
proof (cases "s' = s")
  case False
  with createUpload_row [OF assms(1)] obtain a ct' cs' where c: "CreateArtifact e (e_uuid e 0) u user kind (object_key L u kind (e_uuid e 0))
        (object_uri (mg_bucket m) (object_key L u kind (e_uuid e 0))) ct' sz cs' task s = Inr (a, s')" by blast
  from CreateArtifact_fresh [OF c] CreateArtifact_Inr(1,2) [OF c] assms(2) show ?thesis by auto
qed (use assms(2) in simp)

lemma artifact_ids:
  "manager_Complete S m e u aid s = Inr (x2, s') \<Longrightarrow> map ar_id (db_artifacts s') = map ar_id (db_artifacts s)"
  "AttachArtifactToRun u aid rid s = Inr s' \<Longrightarrow> map ar_id (db_artifacts s') = map ar_id (db_artifacts s)"
  "CreateRun e u user defid key input artifact s = Inr (x3, s') \<Longrightarrow> map ar_id (db_artifacts s') = map ar_id (db_artifacts s)"
  using CreateRun_attaches [of e u user defid key input artifact s x3 s']
  by (auto simp: manager_Complete_def CompleteArtifact_def AttachArtifactToRun_def map_update_where ready_set_def
      split: if_splits option.splits sum.splits)

lemma query_row_last: "\<forall>y \<in> set xs. \<not> P y \<Longrightarrow> P x \<Longrightarrow> query_row P (xs @ [x]) = Some x"
  by (induction xs) (auto simp: query_row_def)

section \<open>Well-formed artifacts\<close>

text \<open>C35. Artifacts are well formed, whatever is uploaded: with distinct ids, every row has a known kind, a declared size within
  the limit of its kind, the key and the URI of its tenant, kind and id, a checksum of 64 lower-case hexadecimal digits if any, a
  size and a time of completion exactly when it is READY, and no run before. Uploading, completing and attaching an artifact
  and creating a run keep this.\<close>

theorem artifacts_stay_ok:
  assumes "artifacts_ok L (mg_bucket m) s" "distinct (map ar_id (db_artifacts s))"
    and "createUpload L S m internal e u user kind ct sz cs task s = (x1, s') \<or> manager_Complete S m e u aid s = Inr (x2, s') \<or>
         AttachArtifactToRun u aid rid s = Inr s' \<or> CreateRun e u user defid key input artifact s = Inr (x3, s')"
  shows "artifacts_ok L (mg_bucket m) s' \<and> distinct (map ar_id (db_artifacts s'))"
  using assms(3)
proof (elim disjE)
  assume a: "createUpload L S m internal e u user kind ct sz cs task s = (x1, s')"
  show ?thesis using createUpload_ok [OF assms(1) a] createUpload_ids [OF a assms(2)] by simp
next
  assume a: "manager_Complete S m e u aid s = Inr (x2, s')"
  show ?thesis using manager_Complete_ok [OF assms(1) a] artifact_ids(1) [OF a] assms(2) by simp
next
  assume a: "AttachArtifactToRun u aid rid s = Inr s'"
  show ?thesis using AttachArtifactToRun_ok [OF assms(1) a] artifact_ids(2) [OF a] assms(2) by simp
next
  assume a: "CreateRun e u user defid key input artifact s = Inr (x3, s')"
  show ?thesis using CreateRun_artifacts [OF assms(1,2) a] artifact_ids(3) [OF a] assms(2) by simp
qed

section \<open>Uploading, completing, downloading\<close>

definition demo_s3_lib :: auth_lib where
  "demo_s3_lib = \<lparr>lib_uuid_parse = (\<lambda>_. None), lib_uuid_string = (\<lambda>_. ''u''), lib_pg_uuid = (\<lambda>_. None), lib_verify = (\<lambda>_. Inl (ErrMsg ''''))\<rparr>"

text \<open>A store that holds an object of three bytes.\<close>

definition demo_s3 :: s3 where
  "demo_s3 = \<lparr>s3_presign_put = (\<lambda>_ _ key _ _. Inr (''put:'' @ key, [])), s3_presign_get = (\<lambda>_ _ key _. Inr (''get:'' @ key)),
     s3_head = (\<lambda>_ _. Inr (Some 3)), s3_get = (\<lambda>_ _. Inr (Inr ''abc''))\<rparr>"

definition demo_manager :: manager where
  "demo_manager = manager_New ''b'' 0"

definition demo_uploaded :: "upload res \<times> db" where
  "demo_uploaded = createUpload demo_s3_lib demo_s3 demo_manager True (demo_env 1 10) 9 None ''input'' '''' 3 '''' None empty_db"

theorem artifacts_stay_ok_witness:
  "artifacts_ok demo_s3_lib ''b'' (snd demo_uploaded) \<and> map ar_id (db_artifacts (snd demo_uploaded)) = [1]"
proof -
  have ok: "artifacts_ok demo_s3_lib (mg_bucket demo_manager) empty_db" "distinct (map ar_id (db_artifacts empty_db))"
    by (simp_all add: artifacts_ok_def empty_db_def)
  obtain u s' where "demo_uploaded = (u, s')" by fastforce
  from artifacts_stay_ok [OF ok disjI1 [OF \<open>demo_uploaded = (u, s')\<close> [unfolded demo_uploaded_def]]]
  have "artifacts_ok demo_s3_lib (mg_bucket demo_manager) s'" by simp
  moreover have "map ar_id (db_artifacts (snd demo_uploaded)) = [1]" by code_simp
  ultimately show ?thesis unfolding \<open>demo_uploaded = (u, s')\<close> by (simp add: demo_manager_def manager_New_def)
qed



text \<open>C37. The round trip: after an upload was created, if the store holds an object of the declared size and content, completing
  the artifact succeeds, and then the tenant gets, by the URI that the upload returned, an address for the very object that
  was uploaded.\<close>

theorem upload_complete_download:
  assumes "createUpload L S m internal e u user kind ct sz cs task s = (Inr up, s1)"
    and "s3_head S (mg_bucket m) (ar_object_key (up_artifact up)) = Inr (Some sz)"
    and "\<forall>c. ar_checksum_sha256 (up_artifact up) = Some c \<longrightarrow>
      (\<exists>body. s3_get S (mg_bucket m) (ar_object_key (up_artifact up)) = Inr (Inr body) \<and> Checksum (take (nat (sz + 1)) body) = c)"
    and "s3_presign_get S internal' (mg_bucket m) (ar_object_key (up_artifact up)) (mg_expiry m) = Inr url"
  shows "\<exists>a s2 d. manager_Complete S m e' u (ar_id (up_artifact up)) s1 = Inr (a, s2) \<and>
    download_of L S m internal' e'' u (ar_object_uri (up_artifact up)) s2 = Inr d \<and> dl_url d = url \<and> dl_artifact d = a \<and>
    ar_status a = ArtifactReady"
proof -
  define a0 where "a0 = up_artifact up"
  obtain cs' ct' where c: "CreateArtifact e (e_uuid e 0) u user kind (object_key L u kind (e_uuid e 0))
      (object_uri (mg_bucket m) (object_key L u kind (e_uuid e 0))) ct' sz cs' task s = Inr (a0, s1)"
    using assms(1) by (auto simp: createUpload_def a0_def Let_def split: sum.splits prod.splits option.splits)
  note k = CreateArtifact_Inr [OF c]
  have other: "\<forall>x \<in> set (db_artifacts s). ar_id x \<noteq> ar_id a0 \<and> ar_object_uri x \<noteq> ar_object_uri a0"
    using CreateArtifact_fresh [OF c] k by auto
  have s1: "db_artifacts s1 = db_artifacts s @ [a0]" by (simp add: k(1))
  have get: "GetArtifact u (ar_id a0) s1 = Inr a0"
    unfolding GetArtifact_def getArtifact_def s1 by (subst query_row_last) (use other k in auto)
  have ver: "verify_object S m a0 = Inr sz"
    using assms(2,3) k unfolding verify_object_def a0_def [symmetric] by (auto split: option.splits)
  define a1 where "a1 = ready_set (e_now e') sz a0"
  have none: "\<forall>y \<in> set (db_artifacts s). \<not> ready_where u (ar_id a0) sz y" using other by (auto simp: ready_where_def)
  have "query_row (ready_where u (ar_id a0) sz) (db_artifacts s1) = Some a0"
    unfolding s1 by (rule query_row_last [OF none]) (simp add: ready_where_def k)
  moreover have upd: "update_where (ready_where u (ar_id a0) sz) (ready_set (e_now e') sz) (db_artifacts s1) = db_artifacts s @ [a1]"
    using none by (simp add: s1 update_where_none a1_def ready_where_def k)
  ultimately have comp: "manager_Complete S m e' u (ar_id a0) s1 = Inr (a1, s1\<lparr>db_artifacts := db_artifacts s @ [a1]\<rparr>)"
    using get ver k(8) by (simp add: manager_Complete_def CompleteArtifact_def a1_def)
  have a1: "ar_tenant_id a1 = u" "ar_object_uri a1 = ar_object_uri a0" "ar_status a1 = ArtifactReady" "ar_object_key a1 = ar_object_key a0"
    by (simp_all add: a1_def ready_set_def k)
  have "GetArtifactByURI u (ar_object_uri a0) (s1\<lparr>db_artifacts := db_artifacts s @ [a1]\<rparr>) = Inr a1"
    unfolding GetArtifactByURI_def getArtifact_def by simp (subst query_row_last, use other a1 in auto)
  moreover have "HasPrefix (ar_object_uri a0) ''s3://''" by (simp add: k object_uri_def HasPrefix_def)
  ultimately show ?thesis using comp a1 assms(4) by (simp add: download_of_def a0_def [symmetric])
qed

theorem upload_complete_download_witness:
  "\<exists>a s2 d. manager_Complete demo_s3 demo_manager (demo_env 2 20) 9 1 (snd demo_uploaded) = Inr (a, s2) \<and>
     download_of demo_s3_lib demo_s3 demo_manager False (demo_env 3 30) 9 ''s3://b/u/input/u'' s2 = Inr d \<and> dl_url d = ''get:u/input/u''"
proof -
  have up: "case fst demo_uploaded of Inr u \<Rightarrow> ar_id (up_artifact u) = 1 \<and> ar_object_uri (up_artifact u) = ''s3://b/u/input/u'' \<and>
      ar_object_key (up_artifact u) = ''u/input/u'' \<and> ar_checksum_sha256 (up_artifact u) = None | Inl _ \<Rightarrow> False" by code_simp
  then obtain u where u: "fst demo_uploaded = Inr u" by (auto split: sum.splits)
  then have c: "createUpload demo_s3_lib demo_s3 demo_manager True (demo_env 1 10) 9 None ''input'' '''' 3 '''' None empty_db = (Inr u, snd demo_uploaded)"
    unfolding demo_uploaded_def by (metis prod.collapse)
  have f: "ar_id (up_artifact u) = 1" "ar_object_uri (up_artifact u) = ''s3://b/u/input/u''" "ar_object_key (up_artifact u) = ''u/input/u''"
    "ar_checksum_sha256 (up_artifact u) = None" using up u by simp_all
  have h: "s3_head demo_s3 (mg_bucket demo_manager) (ar_object_key (up_artifact u)) = Inr (Some 3)"
    "s3_presign_get demo_s3 False (mg_bucket demo_manager) (ar_object_key (up_artifact u)) (mg_expiry demo_manager) = Inr ''get:u/input/u''"
    by (simp_all add: demo_s3_def f)
  have k: "\<forall>c. ar_checksum_sha256 (up_artifact u) = Some c \<longrightarrow> (\<exists>body. s3_get demo_s3 (mg_bucket demo_manager) (ar_object_key (up_artifact u)) =
      Inr (Inr body) \<and> Checksum (take (nat (3 + 1)) body) = c)" by (simp add: f(4))
  obtain a s2 d where "manager_Complete demo_s3 demo_manager (demo_env 2 20) 9 1 (snd demo_uploaded) = Inr (a, s2)"
    "download_of demo_s3_lib demo_s3 demo_manager False (demo_env 3 30) 9 ''s3://b/u/input/u'' s2 = Inr d" "dl_url d = ''get:u/input/u''"
    using upload_complete_download [OF c h(1) k h(2), of "demo_env 2 20" "demo_env 3 30"] unfolding f(1,2) by (elim exE conjE)
  then show ?thesis by (intro exI conjI)
qed

end
