(* ===== verification/Worker_Properties.thy ===== *)
theory Worker_Properties
  imports Example
begin

text \<open>
  Properties of the lease protocol of \<^verbatim>\<open>internal/storage/worker.go\<close>: who may act on a task, what
  completing and failing a task do to the rest of its run, and what replaying a dead task restores.
\<close>

text \<open>The caller holds an unexpired lease on the running task, and the run is running.\<close>

definition completable :: "time \<Rightarrow> uuid \<Rightarrow> string \<Rightarrow> db \<Rightarrow> bool" where
  "completable now tid worker s \<longleftrightarrow>
     (\<exists>t \<in> set (db_tasks s). tr_id t = tid \<and> tr_status t = RUNNING \<and> tr_lease_owner t = Some worker \<and>
        (\<exists>x. tr_lease_expires_at t = Some x \<and> now < x) \<and>
        map_option wr_status (run_of s (tr_workflow_run_id t)) = Some RunRunning)"

text \<open>The completed task was the last dependency the task waited for.\<close>

definition unblocked_by :: "uuid \<Rightarrow> db \<Rightarrow> task_row \<Rightarrow> bool" where
  "unblocked_by tid s u \<longleftrightarrow> tr_status u = BLOCKED \<and>
     (\<exists>d \<in> set (db_deps s). td_task_run_id d = tr_id u \<and> td_depends_on_task_run_id d = tid) \<and>
     (\<forall>d \<in> set (db_deps s). td_task_run_id d = tr_id u \<longrightarrow> td_depends_on_task_run_id d \<noteq> tid \<longrightarrow>
        (\<forall>v \<in> set (db_tasks s). tr_id v = td_depends_on_task_run_id d \<longrightarrow> tr_status v = SUCCEEDED))"

section \<open>Finding a row by its key\<close>

lemma query_held:
  assumes "distinct (map tr_id (db_tasks s))"
  shows "query_row (held sts tid worker now) (db_tasks s) = Some t \<longleftrightarrow> t \<in> set (db_tasks s) \<and> held sts tid worker now t"
proof
  assume "t \<in> set (db_tasks s) \<and> held sts tid worker now t"
  then show "query_row (held sts tid worker now) (db_tasks s) = Some t"
    by (intro query_row_key [OF assms]) (auto simp: held_def)
qed (auto dest: query_row_SomeD)

lemma query_held_None:
  assumes "distinct (map tr_id (db_tasks s))" "t \<in> set (db_tasks s)" "\<not> held sts (tr_id t) worker now t"
  shows "query_row (held sts (tr_id t) worker now) (db_tasks s) = None"
proof -
  have "\<not> held sts (tr_id t) worker now u" if "u \<in> set (db_tasks s)" for u
    using assms(3) distinct_map_eq [OF assms(1) that assms(2)] by (auto simp: held_def)
  then show ?thesis by (simp add: query_row_None_iff)
qed

lemma query_lease_None:
  assumes "distinct (map tr_id (db_tasks s))" "t \<in> set (db_tasks s)" "tr_status t \<noteq> DISPATCHING"
  shows "query_row (lease_where (tr_id t)) (db_tasks s) = None"
proof -
  have "\<not> lease_where (tr_id t) u" if "u \<in> set (db_tasks s)" for u
    using assms(3) distinct_map_eq [OF assms(1) that assms(2)] by (auto simp: lease_where_def)
  then show ?thesis by (simp add: query_row_None_iff)
qed

text \<open>Every call of a worker that does not hold the task is refused.\<close>

lemma refused:
  assumes "\<And>sts. query_row (held sts tid worker (e_now e)) (db_tasks s) = None"
  shows "StartTask e tid worker s = Inl ErrLeaseLost" "HeartbeatTask e tid worker ttl s = Inl ErrLeaseLost"
    "CompleteTask e tid worker out artifact logs s = Inl ErrLeaseLost" "FailTask e tid worker f s = Inl ErrLeaseLost"
  using assms by (simp_all add: StartTask_def HeartbeatTask_def CompleteTask_def FailTask_def Let_def)

section \<open>Who may act on a task\<close>

text \<open>
  C19. \<^verbatim>\<open>CompleteTask\<close> succeeds exactly when the caller holds an unexpired lease on the running task and
  the run is running; every other call is answered with \<^verbatim>\<open>ErrLeaseLost\<close> and changes nothing.
\<close>

theorem CompleteTask_fenced:
  assumes "distinct (map tr_id (db_tasks s))"
  shows "case CompleteTask e tid worker out artifact logs s of
      Inr _ \<Rightarrow> completable (e_now e) tid worker s
    | Inl er \<Rightarrow> er = ErrLeaseLost \<and> \<not> completable (e_now e) tid worker s"
proof (cases "query_row (held [RUNNING] tid worker (e_now e)) (db_tasks s)")
  case None
  then have "CompleteTask e tid worker out artifact logs s = Inl ErrLeaseLost" by (simp add: CompleteTask_def Let_def)
  with None show ?thesis by (auto simp: query_row_None_iff held_def completable_def lease_valid_def)
next
  case (Some t)
  then have t: "t \<in> set (db_tasks s)" "held [RUNNING] tid worker (e_now e) t" by (auto dest: query_row_SomeD)
  have only: "u = t" if "u \<in> set (db_tasks s)" "tr_id u = tid" for u
    using distinct_map_eq [OF assms that(1) t(1)] that(2) t(2) by (simp add: held_def)
  have "completable (e_now e) tid worker s \<longleftrightarrow> map_option wr_status (run_of s (tr_workflow_run_id t)) = Some RunRunning"
    (is "_ \<longleftrightarrow> ?run")
  proof
    assume "completable (e_now e) tid worker s"
    then obtain u where "u \<in> set (db_tasks s)" "tr_id u = tid"
      "map_option wr_status (run_of s (tr_workflow_run_id u)) = Some RunRunning" unfolding completable_def by blast
    then show ?run using only [of u] by simp
  next
    assume ?run
    moreover from t(2) obtain x where "tr_lease_expires_at t = Some x" "e_now e < x"
      by (auto simp: held_def lease_valid_def split: option.splits)
    ultimately show "completable (e_now e) tid worker s"
      unfolding completable_def using t by (intro bexI [of _ t]) (simp_all add: held_def)
  qed
  then show ?thesis using Some by (auto simp: CompleteTask_def Let_def split: option.splits)
qed

theorem CompleteTask_fenced_witness:
  "\<not> isl (CompleteTask (demo_env 9 60) 4 ''w'' None '''' [] demo_running) \<and> completable 60 4 ''w'' demo_running"
proof
  have d: "distinct (map tr_id (db_tasks demo_running))" by code_simp
  show r: "\<not> isl (CompleteTask (demo_env 9 60) 4 ''w'' None '''' [] demo_running)" by code_simp
  then obtain y where y: "CompleteTask (demo_env 9 60) 4 ''w'' None '''' [] demo_running = Inr y"
    by (cases "CompleteTask (demo_env 9 60) 4 ''w'' None '''' [] demo_running") simp_all
  show "completable 60 4 ''w'' demo_running"
    using CompleteTask_fenced [OF d, of "demo_env 9 60" 4 "''w''" None "''''" "[]"] unfolding y by simp
qed



section \<open>Completing a task\<close>

lemma unblock_where_iff:
  assumes keys: "distinct (map tr_id (db_tasks s))" and refs: "refs_ok (db_tasks s) (db_deps s) (db_runs s)"
    and t: "t \<in> set (db_tasks s)" and P: "\<And>v. v \<in> set (db_tasks s) \<Longrightarrow> P v \<longleftrightarrow> tr_id v = tr_id t"
    and ts1: "ts1 = update_where P (complete_set j artifact now) (db_tasks s)"
    and u: "u \<in> set (db_tasks s)" "tr_id u \<noteq> tr_id t"
  shows "unblock_where ts1 (db_deps s) (tr_workflow_run_id t) (tr_id t) u \<longleftrightarrow> unblocked_by (tr_id t) s u"
proof -
  have met: "(\<exists>v \<in> set ts1. tr_id v = x \<and> tr_status v \<noteq> SUCCEEDED) \<longleftrightarrow>
      x \<noteq> tr_id t \<and> (\<exists>v \<in> set (db_tasks s). tr_id v = x \<and> tr_status v \<noteq> SUCCEEDED)" for x
    unfolding ts1 bex_update_where using P by (auto simp: complete_set_def)
  have "tr_workflow_run_id u = tr_workflow_run_id t"
    if "d \<in> set (db_deps s)" "td_task_run_id d = tr_id u" "td_depends_on_task_run_id d = tr_id t" for d
    by (rule refs_same_run [OF refs keys that(1) u(1) t that(2,3)])
  then show ?thesis unfolding unblock_where_def unblocked_by_def unmet_iff met exists_row_iff by blast
qed

lemma CompleteTask_rows:
  assumes op: "CompleteTask e tid worker out artifact logs s = Inr (t, s')" and inv: "db_inv s"
    and u: "u \<in> set (db_tasks s)"
  shows "\<exists>u' \<in> set (db_tasks s'). tr_id u' = tr_id u \<and>
    tr_status u' = (if tr_id u = tid then SUCCEEDED else if unblocked_by tid s u then READY else tr_status u)"
  using op
proof (rule CompleteTask_Inr)
  fix t0 :: task_row and j ts1 U
  let ?P = "held [RUNNING] tid worker (e_now e)" and ?run = "tr_workflow_run_id t0"
  assume q: "query_row ?P (db_tasks s) = Some t0"
    and ts1: "ts1 = update_where ?P (complete_set j artifact (e_now e)) (db_tasks s)"
    and U: "U = unblock_where ts1 (db_deps s) ?run tid"
    and ts: "db_tasks s' = update_where U (unblock_set (e_now e)) ts1"
  note I = db_invD [OF inv]
  from q have t0: "t0 \<in> set (db_tasks s)" "tr_id t0 = tid" by (auto simp: held_def dest: query_row_SomeD)
  have only: "?P v \<longleftrightarrow> tr_id v = tr_id t0" if "v \<in> set (db_tasks s)" for v
    using that t0 by (intro key_only [OF I(9) q]) (auto simp: held_def)
  define u1 where "u1 = (if ?P u then complete_set j artifact (e_now e) u else u)"
  define u2 where "u2 = (if U u1 then unblock_set (e_now e) u1 else u1)"
  have "u1 \<in> set ts1" unfolding ts1 set_update_where u1_def using u by blast
  then have "u2 \<in> set (db_tasks s')" unfolding ts set_update_where u2_def by blast
  moreover have "tr_status u2 = (if tr_id u = tid then SUCCEEDED else if unblocked_by tid s u then READY else tr_status u)"
  proof (cases "tr_id u = tid")
    case True
    with only [OF u] t0(2) have "u1 = complete_set j artifact (e_now e) u" by (simp add: u1_def)
    with True show ?thesis by (simp add: u2_def U unblock_where_def complete_set_def)
  next
    case False
    with only [OF u] t0(2) have "u1 = u" by (simp add: u1_def)
    moreover have "U u \<longleftrightarrow> unblocked_by tid s u"
      unfolding U using unblock_where_iff [OF I(9,2) t0(1) only ts1 u] False t0(2) by simp
    ultimately show ?thesis using False by (simp add: u2_def unblock_set_def)
  qed
  moreover have "tr_id u2 = tr_id u" by (simp add: u2_def u1_def unblock_set_def complete_set_def)
  ultimately show ?thesis by blast
qed

lemma CompleteTask_run:
  assumes op: "CompleteTask e tid worker out artifact logs s = Inr (t, s')" and inv: "db_inv s"
    and r: "r \<in> set (db_runs s)" "wr_id r = tr_workflow_run_id t"
  shows "\<exists>r' \<in> set (db_runs s'). wr_id r' = wr_id r \<and> (wr_status r' = RunSucceeded \<longleftrightarrow>
      (\<forall>v \<in> set (db_tasks s'). tr_workflow_run_id v = wr_id r \<longrightarrow> tr_status v = SUCCEEDED))"
  using op
proof (rule CompleteTask_Inr)
  fix t0 :: task_row and r0 j
  let ?run = "tr_workflow_run_id t0"
  assume r0: "run_of s ?run = Some r0" "wr_status r0 = RunRunning"
    and rs: "db_runs s' = (if \<forall>u \<in> set (db_tasks s'). tr_workflow_run_id u = ?run \<longrightarrow> tr_status u = SUCCEEDED
                       then update_where (run_succeed_where ?run) (run_succeed_set (e_now e)) (db_runs s)
                       else db_runs s)"
    and x: "t = complete_set j artifact (e_now e) t0"
  have rid: "wr_id r = ?run" using r(2) by (simp add: x complete_set_def)
  from r0(1) have "r0 \<in> set (db_runs s)" "wr_id r0 = ?run" by (auto dest: run_of_SomeD)
  then have "r = r0"
    using db_invD(1) [OF inv] r(1) rid distinct_map_eq [of wr_id "db_runs s" r r0] by (simp add: keys_ok_def)
  with r0(2) rid have run: "run_succeed_where ?run r" "wr_status r = RunRunning" by (simp_all add: run_succeed_where_def)
  show ?thesis
  proof (cases "\<forall>v \<in> set (db_tasks s'). tr_workflow_run_id v = ?run \<longrightarrow> tr_status v = SUCCEEDED")
    case True
    with rs have "db_runs s' = update_where (run_succeed_where ?run) (run_succeed_set (e_now e)) (db_runs s)" by argo
    with run r(1) have "run_succeed_set (e_now e) r \<in> set (db_runs s')" by (force simp: set_update_where)
    with True rid show ?thesis by (intro bexI [of _ "run_succeed_set (e_now e) r"]) (simp_all add: run_succeed_set_def)
  next
    case False
    with rs have "db_runs s' = db_runs s" by argo
    with r(1) show ?thesis using False run(2) unfolding rid by (intro bexI [of _ r]) (simp_all add: rid)
  qed
qed

text \<open>
  C21. Completing a task makes it SUCCEEDED, makes READY exactly the blocked tasks for which it was
  the last missing dependency, leaves every other task as it was, and completes the run exactly
  when no task of the run is left.
\<close>

theorem CompleteTask_effect:
  assumes op: "CompleteTask e tid worker out artifact logs s = Inr (t, s')" and inv: "db_inv s"
    and u: "u \<in> set (db_tasks s)"
  shows "(\<exists>u' \<in> set (db_tasks s'). tr_id u' = tr_id u \<and>
       tr_status u' = (if tr_id u = tid then SUCCEEDED else if unblocked_by tid s u then READY else tr_status u)) \<and>
     (\<forall>r \<in> set (db_runs s). wr_id r = tr_workflow_run_id t \<longrightarrow> (\<exists>r' \<in> set (db_runs s'). wr_id r' = wr_id r \<and>
       (wr_status r' = RunSucceeded \<longleftrightarrow>
          (\<forall>v \<in> set (db_tasks s'). tr_workflow_run_id v = wr_id r \<longrightarrow> tr_status v = SUCCEEDED))))"
  using CompleteTask_rows [OF op inv u] CompleteTask_run [OF op inv] by blast

theorem CompleteTask_effect_witness:
  "\<exists>u' \<in> set (db_tasks demo_completed). tr_id u' = 5 \<and> tr_status u' = READY"
proof -
  let ?u = "db_tasks demo_running ! 1"
  have u: "?u \<in> set (db_tasks demo_running)" "tr_id ?u = 5" "unblocked_by 4 demo_running ?u" by code_simp+
  from demo_calls(5) obtain t where "CompleteTask (demo_env 9 60) 4 ''w'' None '''' [] demo_running = Inr (t, demo_completed)" by blast
  from CompleteTask_effect [OF this demo_inv(5) u(1)] u(2,3) show ?thesis by auto
qed

section \<open>Failing a task\<close>

lemma update_where_row: "u \<in> set ts \<Longrightarrow> (if P u then f u else u) \<in> set (update_where P f ts)"
  by (auto simp: set_update_where)



section \<open>Replaying a dead task\<close>

text \<open>
  C23. Replaying a dead task makes it READY with at least one attempt left and gives every cancelled
  task of its run a live status again: BLOCKED while a dependency has not succeeded, RETRY_WAIT
  while its delay runs, READY otherwise. A failed run is running again.
\<close>

theorem ReplayDead_effect:
  assumes op: "ReplayDead e tenant user tid s = Inr s'" and inv: "db_inv s" and u: "u \<in> set (db_tasks s)"
  shows "\<exists>t \<in> set (db_tasks s). \<exists>r \<in> set (db_runs s). tr_id t = tid \<and> tr_status t = DEAD \<and> wr_id r = tr_workflow_run_id t \<and>
     (wr_status r = RunFailed \<longrightarrow> (\<exists>r' \<in> set (db_runs s'). wr_id r' = wr_id r \<and> wr_status r' = RunRunning)) \<and>
     (\<exists>u' \<in> set (db_tasks s'). tr_id u' = tr_id u \<and>
        tr_status u' = (if tr_id u = tid then READY
                        else if tr_workflow_run_id u = wr_id r \<and> tr_status u = CANCELLED
                        then (if unmet (db_tasks s) (db_deps s) u then BLOCKED
                              else if e_now e < tr_available_at u then RETRY_WAIT else READY)
                        else tr_status u) \<and>
        (tr_id u = tid \<longrightarrow> tr_attempt_count u' < tr_maximum_attempts u'))"
  using op
proof (rule ReplayDead_Inr)
  fix t :: task_row and r :: run_row and ts1
  let ?run = "tr_workflow_run_id t" and ?now = "e_now e"
  let ?R = "rebuild_where ?run" and ?f = "rebuild_set ts1 (db_deps s) ?now"
  assume t: "t \<in> set (db_tasks s)" "tr_id t = tid" "tr_status t = DEAD"
    and r: "r \<in> set (db_runs s)" "wr_id r = ?run"
    and ts1: "ts1 = update_where (replay_where tid) (replay_set ?now) (db_tasks s)"
    and ts: "db_tasks s' = update_where ?R ?f ts1"
    and rs: "db_runs s' = update_where (run_reopen_where ?run) run_reopen_set (db_runs s)"
  note I = db_invD [OF inv]
  have ts1': "ts1 = update_where (task_is [DEAD] tid) (replay_set ?now) (db_tasks s)"
  proof -
    have "replay_where tid v \<longleftrightarrow> task_is [DEAD] tid v" if "v \<in> set (db_tasks s)" for v
      using distinct_map_eq [OF I(9) that t(1)] t(2,3) by (auto simp: replay_where_def task_is_def)
    then show ?thesis unfolding ts1 by (rule update_where_cong)
  qed
  have un: "unmet ts1 (db_deps s) u \<longleftrightarrow> unmet (db_tasks s) (db_deps s) u" unfolding ts1' by (simp add: replay.unmet_same)
  define u1 where "u1 = (if replay_where tid u then replay_set ?now u else u)"
  have "u1 \<in> set ts1" unfolding ts1 u1_def by (rule update_where_row [OF u])
  from update_where_row [OF this, of ?R ?f] have u2: "(if ?R u1 then ?f u1 else u1) \<in> set (db_tasks s')" unfolding ts .
  have "\<exists>r' \<in> set (db_runs s'). wr_id r' = wr_id r \<and> wr_status r' = RunRunning" if "wr_status r = RunFailed"
    using that update_where_row [OF r(1), of "run_reopen_where ?run" run_reopen_set] r(2) unfolding rs
    by (intro bexI [of _ "run_reopen_set r"]) (simp_all add: run_reopen_where_def run_reopen_set_def)
  with u2 un show ?thesis
    by (intro bexI [OF bexI [OF _ r(1)] t(1)] conjI bexI [OF _ u2])
       (use t r in \<open>simp_all add: u1_def replay_where_def replay_set_def rebuild_where_def rebuild_set_def less_max_iff_disj\<close>)
qed

theorem ReplayDead_effect_witness:
  "\<exists>s'. ReplayDead (demo_env 10 70) 9 None 4 demo_dead = Inr s' \<and>
     (\<exists>u' \<in> set (db_tasks s'). tr_id u' = 5 \<and> tr_status u' = BLOCKED)"
proof -
  let ?u = "db_tasks demo_dead ! 1"
  have u: "?u \<in> set (db_tasks demo_dead)" "tr_id ?u = 5" "tr_status ?u = CANCELLED" "unmet (db_tasks demo_dead) (db_deps demo_dead) ?u"
    "tr_workflow_run_id ?u = 2" by code_simp+
  have r: "\<forall>t \<in> set (db_tasks demo_dead). tr_workflow_run_id t = 2" by code_simp
  have "\<not> isl (ReplayDead (demo_env 10 70) 9 None 4 demo_dead)" by code_simp
  then obtain s' where s': "ReplayDead (demo_env 10 70) 9 None 4 demo_dead = Inr s'"
    by (cases "ReplayDead (demo_env 10 70) 9 None 4 demo_dead") simp_all
  from ReplayDead_effect [OF s' demo_inv(7) u(1)] u(2-5) r s' show ?thesis by (auto split: if_splits)
qed

end
