(* ===== verification/Run_Properties.thy ===== *)
theory Run_Properties
  imports Example
begin

text \<open>
  Properties of \<^verbatim>\<open>internal/storage/postgres.go\<close>: creating, versioning and listing workflows,
  creating runs, and cancelling and retrying them.
\<close>

text \<open>The input artifact of a call, if it names one, can be used by it.\<close>

definition usable :: "uuid \<Rightarrow> uuid option \<Rightarrow> db \<Rightarrow> bool" where
  "usable tenant artifact s \<longleftrightarrow>
     (case artifact of
        None \<Rightarrow> True
      | Some aid \<Rightarrow> query_row (\<lambda>a. ar_id a = aid \<and> ar_tenant_id a = tenant \<and> ar_kind a = ''input'' \<and> ar_status a = ArtifactReady)
                      (db_artifacts s) \<noteq> None)"

section \<open>Creating a run\<close>

lemma CreateRun_again:
  assumes "key \<noteq> ''''" "usable tenant artifact s" "getRunTx tenant key s = Inr r"
    and "query_row (\<lambda>w. wd_id w = defid \<and> wd_tenant_id w = tenant) (db_definitions s) \<noteq> None"
  shows "CreateRun e tenant user defid key input artifact s = Inr ((r, False), s)"
proof -
  have "exists_row (\<lambda>r. wr_tenant_id r = tenant \<and> wr_idempotency_key r = key) (db_runs s)"
    using assms(3) by (auto simp: getRunTx_def exists_row_iff dest: query_row_SomeD split: option.splits)
  with assms show ?thesis by (auto simp: CreateRun_def usable_def split: option.splits)
qed

lemma CreateRun_used:
  assumes "CreateRun e tenant user defid key input artifact s = Inr ((r, c), s')"
  shows "key \<noteq> ''''" "usable tenant artifact s" "\<not> c \<Longrightarrow> getRunTx tenant key s = Inr r"
    "query_row (\<lambda>w. wd_id w = defid \<and> wd_tenant_id w = tenant) (db_definitions s) \<noteq> None"
    "c \<Longrightarrow> db_artifacts s' = (case artifact of None \<Rightarrow> db_artifacts s
        | Some aid \<Rightarrow> update_where (attach_where aid) (\<lambda>a. a\<lparr>ar_workflow_run_id := Some (wr_id r)\<rparr>) (db_artifacts s))"
  using assms by (auto simp: CreateRun_def usable_def Let_def split: if_splits option.splits sum.splits)

text \<open>
  C24. Repeating a successful \<^verbatim>\<open>CreateRun\<close> with the same idempotency key, whatever the user, the
  input and the time, returns the run of the first call, reports that nothing was created and
  changes nothing.
\<close>

theorem CreateRun_idempotent:
  assumes op: "CreateRun e tenant user defid key input artifact s = Inr ((r, c), s')"
  shows "CreateRun e2 tenant user2 defid key input2 artifact s' = Inr ((r, False), s')"
proof (cases c)
  case False
  with op have "s' = s" by (auto dest: CreateRun_existing(1))
  with CreateRun_used [OF op] False show ?thesis by (simp add: CreateRun_again)
next
  case True
  note U = CreateRun_used [OF op]
  from op True have "CreateRun e tenant user defid key input artifact s = Inr ((r, True), s')" by simp
  then obtain w j uri where r: "r = new_run e tenant w key j uri" and s': "db_runs s' = db_runs s @ [r]" "db_definitions s' = db_definitions s"
    and none: "\<forall>q \<in> set (db_runs s). \<not> (wr_tenant_id q = tenant \<and> wr_idempotency_key q = key)"
    by (rule CreateRun_created)
  have "query_row (\<lambda>q. wr_tenant_id q = tenant \<and> wr_idempotency_key q = key) (db_runs s) = None"
    using none by (simp add: query_row_None_iff)
  then have "getRunTx tenant key s' = Inr r"
    by (simp add: getRunTx_def s'(1) query_row_append) (simp add: query_row_def r)
  moreover have "usable tenant artifact s'"
    using U(2) U(5) [OF True] by (auto simp: usable_def query_row_update_where split: option.splits)
  ultimately show ?thesis using U(1,4) by (intro CreateRun_again) (simp_all add: s'(2))
qed

theorem CreateRun_idempotent_witness:
  "\<exists>r. CreateRun (demo_env 50 90) 9 (Some 8) 1 ''k'' (Some (JNum 1)) None demo_created = Inr ((r, False), demo_created)"
proof -
  from demo_calls(2) obtain r c where "CreateRun (demo_env 2 20) 9 None 1 ''k'' None None demo_defined = Inr ((r, c), demo_created)"
    by (metis surj_pair)
  from CreateRun_idempotent [OF this] show ?thesis by blast
qed

lemma created_edges:
  assumes dk: "distinct (map fst (dag_Tasks d))" and inj: "inj (e_uuid e)"
    and N: "list_all2 (\<lambda>(k, spec) t. \<exists>tid. task_ids e d k = Some tid \<and> t = new_task e run j tid k spec) (dag_Tasks d) ts"
    and D: "dep_pairs ds = {(a, b). \<exists>k spec dep. (k, spec) \<in> set (dag_Tasks d) \<and> task_ids e d k = Some a \<and>
       dep \<in> set (DependsOn spec) \<and> task_ids e d dep = Some b}"
    and t: "t \<in> set ts" and u: "u \<in> set ts"
  shows "(tr_id t, tr_id u) \<in> dep_pairs ds \<longleftrightarrow> tr_task_key u \<in> set (deps_of d (tr_task_key t))"
    and "tr_status t = (if deps_of d (tr_task_key t) = [] then READY else BLOCKED)"
proof -
  note K = new_tasks(3) [OF N]
  from K [OF t] obtain spec where spec: "(tr_task_key t, spec) \<in> set (dag_Tasks d)" "task_ids e d (tr_task_key t) = Some (tr_id t)"
    and tt: "t = new_task e run j (tr_id t) (tr_task_key t) spec" by (elim exE conjE) (rule that)
  from K [OF u] have idu: "task_ids e d (tr_task_key u) = Some (tr_id u)" by (elim exE conjE)
  have deps: "deps_of d (tr_task_key t) = DependsOn spec" using spec(1) dk by (simp add: deps_of_def)
  show "tr_status t = (if deps_of d (tr_task_key t) = [] then READY else BLOCKED)" unfolding deps by (subst tt) simp
  have uniq: "k = tr_task_key t" "spec' = spec" if "(k, spec') \<in> set (dag_Tasks d)" "task_ids e d k = Some (tr_id t)" for k spec'
  proof -
    show "k = tr_task_key t" by (rule task_ids_inj [OF dk inj that(2) spec(2)])
    with that(1) spec(1) dk show "spec' = spec" by (metis eq_key_imp_eq_value)
  qed
  have "(tr_id t, tr_id u) \<in> dep_pairs ds \<longleftrightarrow> (\<exists>dep \<in> set (DependsOn spec). task_ids e d dep = Some (tr_id u))"
    unfolding D using spec uniq by blast
  also have "\<dots> \<longleftrightarrow> tr_task_key u \<in> set (DependsOn spec)"
    using task_ids_inj [OF dk inj _ idu] idu by blast
  finally show "(tr_id t, tr_id u) \<in> dep_pairs ds \<longleftrightarrow> tr_task_key u \<in> set (deps_of d (tr_task_key t))" unfolding deps .
qed

lemma created_tables:
  assumes op: "CreateRun e tenant user defid key input artifact s = Inr ((r, True), s')"
    and inv: "db_inv s" and fresh: "fresh e s"
  obtains w j ts ds where "w \<in> set (db_definitions s)" "wd_id w = defid" "wd_tenant_id w = tenant" "wr_status r = RunRunning"
    "distinct (map fst (dag_Tasks (wd_dag_spec w)))" "dag_ok (wd_dag_spec w)"
    "filter (\<lambda>t. tr_workflow_run_id t = wr_id r) (db_tasks s') = ts" "db_deps s' = db_deps s @ ds"
    "insert_tasks e (wr_id r) j (task_ids e (wd_dag_spec w)) (dag_Tasks (wd_dag_spec w)) = Inr ts"
    "insert_all_deps (wr_id r) (task_ids e (wd_dag_spec w)) (dag_Tasks (wd_dag_spec w)) = Inr ds"
  using op
proof (rule CreateRun_created)
  fix w :: definition_row and j uri ts ds
  let ?d = "wd_dag_spec w"
  assume w: "w \<in> set (db_definitions s)" "wd_id w = defid" "wd_tenant_id w = tenant" and r: "r = new_run e tenant w key j uri"
    and ins: "insert_tasks e (wr_id r) j (task_ids e ?d) (dag_Tasks ?d) = Inr ts"
    and insd: "insert_all_deps (wr_id r) (task_ids e ?d) (dag_Tasks ?d) = Inr ds"
    and s': "db_tasks s' = db_tasks s @ ts" "db_deps s' = db_deps s @ ds"
  note I = db_invD [OF inv]
  from I(8) w have "distinct (map fst (dag_Tasks ?d))" "dag_ok ?d" by (auto simp: defs_ok_def)
  moreover have "filter (\<lambda>t. tr_workflow_run_id t = wr_id r) (db_tasks s') = ts"
  proof -
    have "tr_workflow_run_id t \<noteq> wr_id r" if "t \<in> set (db_tasks s)" for t
    proof
      assume "tr_workflow_run_id t = wr_id r"
      with refs_okD(3) [OF I(2) that] have "e_uuid e 0 \<in> wr_id ` set (db_runs s)" by (simp add: r)
      with fresh show False by (simp add: fresh_def)
    qed
    moreover have "tr_workflow_run_id t = wr_id r" if "t \<in> set ts" for t
      using new_tasks(3) [OF insert_tasks_Inr [OF ins] that] by (metis new_task_row(3))
    ultimately show ?thesis by (simp add: s'(1) filter_empty_conv)
  qed
  ultimately show thesis using that w r ins insd s'(2) by simp
qed

text \<open>
  C25. A created run is RUNNING and has, for the stored DAG, one task per key; a task is READY when it
  depends on nothing and BLOCKED otherwise, the dependency rows among the tasks are the edges of the
  DAG, and at least one task is READY.
\<close>

theorem CreateRun_shape:
  assumes "CreateRun e tenant user defid key input artifact s = Inr ((r, True), s')" and "db_inv s" and "fresh e s"
  shows "\<exists>w \<in> set (db_definitions s). \<exists>ts. wd_id w = defid \<and> wd_tenant_id w = tenant \<and> wr_status r = RunRunning \<and>
     ts = filter (\<lambda>t. tr_workflow_run_id t = wr_id r) (db_tasks s') \<and>
     map tr_task_key ts = map fst (dag_Tasks (wd_dag_spec w)) \<and> READY \<in> tr_status ` set ts \<and>
     (\<forall>t \<in> set ts. tr_status t = (if deps_of (wd_dag_spec w) (tr_task_key t) = [] then READY else BLOCKED)) \<and>
     (\<forall>t \<in> set ts. \<forall>u \<in> set ts. (tr_id t, tr_id u) \<in> dep_pairs (db_deps s') \<longleftrightarrow>
        tr_task_key u \<in> set (deps_of (wd_dag_spec w) (tr_task_key t)))"
  using assms
proof (rule created_tables)
  fix w :: definition_row and j ts ds
  let ?d = "wd_dag_spec w"
  assume w: "w \<in> set (db_definitions s)" "wd_id w = defid" "wd_tenant_id w = tenant" "wr_status r = RunRunning"
    and dk: "distinct (map fst (dag_Tasks ?d))" and ok: "dag_ok ?d"
    and ts: "filter (\<lambda>t. tr_workflow_run_id t = wr_id r) (db_tasks s') = ts" and ds: "db_deps s' = db_deps s @ ds"
    and ins: "insert_tasks e (wr_id r) j (task_ids e ?d) (dag_Tasks ?d) = Inr ts"
    and insd: "insert_all_deps (wr_id r) (task_ids e ?d) (dag_Tasks ?d) = Inr ds"
  from assms(3) have inj: "inj (e_uuid e)" by (simp add: fresh_def)
  note N = insert_tasks_Inr [OF ins] and D = insert_all_deps_Inr(1) [OF insd]
  note E = created_edges [OF dk inj N D]
  have old: "(tr_id t, x) \<notin> dep_pairs (db_deps s)" if "t \<in> set ts" for t x
  proof
    assume "(tr_id t, x) \<in> dep_pairs (db_deps s)"
    then have "tr_id t \<in> tr_id ` set (db_tasks s)" using refs_okD(1) [OF db_invD(2) [OF assms(2)]] by (auto simp: dep_pairs_def)
    with freshD [OF assms(3) created_rows(3) [OF dk ok inj ins insd that]] show False by simp
  qed
  have pairs: "(tr_id t, tr_id u) \<in> dep_pairs (db_deps s') \<longleftrightarrow> tr_task_key u \<in> set (deps_of ?d (tr_task_key t))"
    if "t \<in> set ts" "u \<in> set ts" for t u
    using old [OF that(1)] E(1) [OF that] by (auto simp: ds dep_pairs_def)
  have keys: "map tr_task_key ts = map fst (dag_Tasks ?d)" by (rule new_tasks(1) [OF N])
  obtain k spec where root: "(k, spec) \<in> set (dag_Tasks ?d)" "DependsOn spec = []" using dag_ok_has_root [OF ok dk] by auto
  from new_tasks(4) [OF N root(1)] obtain t where "t \<in> set ts" "tr_task_key t = k" by blast
  moreover have "deps_of ?d k = []" using root dk by (simp add: deps_of_def)
  ultimately have "READY \<in> tr_status ` set ts" using E(2) [of t t] by (force simp: image_iff)
  then show ?thesis using w ts keys pairs E(2) by (intro bexI [OF _ w(1)] exI [of _ ts]) auto
qed

theorem CreateRun_shape_witness:
  "\<exists>r. CreateRun (demo_env 2 20) 9 None 1 ''k'' None None demo_defined = Inr ((r, True), demo_created) \<and>
     READY \<in> tr_status ` set (filter (\<lambda>t. tr_workflow_run_id t = wr_id r) (db_tasks demo_created))"
proof -
  from demo_calls(2) obtain r c where op: "CreateRun (demo_env 2 20) 9 None 1 ''k'' None None demo_defined = Inr ((r, c), demo_created)"
    by (metis surj_pair)
  have "(case CreateRun (demo_env 2 20) 9 None 1 ''k'' None None demo_defined of Inl _ \<Rightarrow> False | Inr ((_, c), _) \<Rightarrow> c)" by code_simp
  with op have op': "CreateRun (demo_env 2 20) 9 None 1 ''k'' None None demo_defined = Inr ((r, True), demo_created)" by simp
  from CreateRun_shape [OF op' demo_inv(1) demo_fresh [OF demo_small(1,2)]] op' show ?thesis by blast
qed

end
