(* ===== verification/Metrics.thy ===== *)
theory Metrics
  imports Complex_Main Database
begin

text \<open>
  The database collector of \<^verbatim>\<open>internal/telemetry/dbmetrics.go\<close>: what a scrape reads from the tables. A
  metric is its name, its label values and its value; \<^verbatim>\<open>float64\<close> values are rationals. \<open>failed i\<close> tells
  that the \<open>i\<close>-th query of the scrape fails, in which case its metrics are left out. \<open>txt\<close> is the text of a uuid.
\<close>

section \<open>Samples\<close>

datatype sample =
    Gauge string "string list" rat
  | Counter string "string list" rat
  | HistogramSample string "string list" nat rat "rat \<Rightarrow> nat option"

definition durationBuckets :: "rat list" where
  "durationBuckets = [1 / 100, 5 / 100, 1 / 10, 1 / 4, 1 / 2, 1, 5 / 2, 5, 10, 30, 60, 300, 900, 3600]"

definition task_status_text :: "task_status \<Rightarrow> string" where
  "task_status_text x =
     (case x of BLOCKED \<Rightarrow> ''BLOCKED'' | READY \<Rightarrow> ''READY'' | DISPATCHING \<Rightarrow> ''DISPATCHING'' | LEASED \<Rightarrow> ''LEASED'' | RUNNING \<Rightarrow> ''RUNNING''
      | SUCCEEDED \<Rightarrow> ''SUCCEEDED'' | RETRY_WAIT \<Rightarrow> ''RETRY_WAIT'' | FAILED \<Rightarrow> ''FAILED'' | DEAD \<Rightarrow> ''DEAD'' | CANCELLED \<Rightarrow> ''CANCELLED'')"

definition run_status_text :: "workflow_status \<Rightarrow> string" where
  "run_status_text x =
     (case x of RunPending \<Rightarrow> ''PENDING'' | RunRunning \<Rightarrow> ''RUNNING'' | RunSucceeded \<Rightarrow> ''SUCCEEDED'' | RunFailed \<Rightarrow> ''FAILED''
      | RunCancelled \<Rightarrow> ''CANCELLED'')"

section \<open>Queries\<close>

text \<open>\<^verbatim>\<open>SELECT labels, sum(v) ... GROUP BY labels\<close>, on rows with their labels and the summed value.\<close>

definition group_sum :: "(string list \<times> rat) list \<Rightarrow> (string list \<times> rat) list" where
  "group_sum rows = map (\<lambda>k. (k, sum_list (map snd (filter (\<lambda>r. fst r = k) rows)))) (remdups (map fst rows))"

text \<open>\<^verbatim>\<open>extract(epoch FROM b - a)\<close>.\<close>

definition epoch :: "time \<Rightarrow> time \<Rightarrow> rat" where
  "epoch a b = of_int (b - a) / 1000000000"

text \<open>The join of an attempt or a task with its run.\<close>

definition tenant_of_task :: "(uuid \<Rightarrow> string) \<Rightarrow> db \<Rightarrow> task_row \<Rightarrow> string list" where
  "tenant_of_task txt s t = map (\<lambda>r. txt (wr_tenant_id r)) (filter (\<lambda>r. wr_id r = tr_workflow_run_id t) (db_runs s))"

definition tenant_of_attempt :: "(uuid \<Rightarrow> string) \<Rightarrow> db \<Rightarrow> attempt_row \<Rightarrow> string list" where
  "tenant_of_attempt txt s a = concat (map (tenant_of_task txt s) (filter (\<lambda>t. tr_id t = ta_task_run_id a) (db_tasks s)))"

definition count_where :: "('r \<Rightarrow> bool) \<Rightarrow> 'r list \<Rightarrow> rat" where
  "count_where P rows = of_nat (length (filter P rows))"

section \<open>Histograms\<close>

record histogramAggregate =
  hg_count :: nat
  hg_sum :: rat
  hg_buckets :: "rat \<Rightarrow> nat option"

definition no_aggregate :: histogramAggregate where
  "no_aggregate = \<lparr>hg_count = 0, hg_sum = 0, hg_buckets = (\<lambda>_. None)\<rparr>"

fun count_buckets :: "rat \<Rightarrow> rat list \<Rightarrow> (rat \<Rightarrow> nat option) \<Rightarrow> rat \<Rightarrow> nat option" where
  "count_buckets v [] m = m"
| "count_buckets v (b # bs) m =
     count_buckets v bs (if v \<le> b then m(b \<mapsto> (case m b of None \<Rightarrow> 0 | Some n \<Rightarrow> n) + 1) else m)"

definition observe :: "rat \<Rightarrow> histogramAggregate \<Rightarrow> histogramAggregate" where
  "observe v a =
     \<lparr>hg_count = hg_count a + 1, hg_sum = hg_sum a + v, hg_buckets = count_buckets v durationBuckets (hg_buckets a)\<rparr>"

definition label_key :: "string list \<Rightarrow> string" where
  "label_key labels = concat (map (\<lambda>l. CHR 0x00 # l) labels)"

text \<open>
  The two maps of the source, from the key of a row to its aggregate and to its labels, as one list in
  the order of the first rows; the source emits them in the unspecified order of a Go map.
\<close>

fun aggregate_rows ::
    "(string list \<times> rat) list \<Rightarrow> (string \<times> string list \<times> histogramAggregate) list \<Rightarrow> (string \<times> string list \<times> histogramAggregate) list" where
  "aggregate_rows [] m = m"
| "aggregate_rows ((labels, v) # rows) m =
     (if v < 0 then aggregate_rows rows m
      else let key = label_key labels
           in aggregate_rows rows
                (case map_of m key of
                   None \<Rightarrow> m @ [(key, labels, observe v no_aggregate)]
                 | Some _ \<Rightarrow> map (\<lambda>(k, ls, a). if k = key then (k, ls, observe v a) else (k, ls, a)) m))"

definition histograms :: "string \<Rightarrow> bool \<Rightarrow> (string list \<times> rat) list \<Rightarrow> sample list" where
  "histograms name failed rows =
     (if failed then []
      else map (\<lambda>(k, ls, a). HistogramSample name ls (hg_count a) (hg_sum a) (hg_buckets a)) (aggregate_rows rows []))"

section \<open>A scrape\<close>

definition grouped :: "(string \<Rightarrow> string list \<Rightarrow> rat \<Rightarrow> sample) \<Rightarrow> string \<Rightarrow> bool \<Rightarrow> (string list \<times> rat) list \<Rightarrow> sample list" where
  "grouped kind name failed rows = (if failed then [] else map (\<lambda>(labels, v). kind name labels v) (group_sum rows))"

definition single :: "(string \<Rightarrow> string list \<Rightarrow> rat \<Rightarrow> sample) \<Rightarrow> string \<Rightarrow> bool \<Rightarrow> rat \<Rightarrow> sample list" where
  "single kind name failed v = (if failed then [] else [kind name [] v])"

definition Collect_metrics :: "(uuid \<Rightarrow> string) \<Rightarrow> (nat \<Rightarrow> bool) \<Rightarrow> time \<Rightarrow> db \<Rightarrow> sample list" where
  "Collect_metrics txt failed now s =
     grouped Gauge ''task_queue_depth'' (failed 0) (map (\<lambda>t. ([task_status_text (tr_status t)], 1)) (db_tasks s)) @
     grouped Gauge ''tenant_task_queue_depth'' (failed 1)
       (concat (map (\<lambda>t. map (\<lambda>x. ([x, task_status_text (tr_status t)], 1)) (tenant_of_task txt s t)) (db_tasks s))) @
     single Gauge ''outbox_unpublished_events'' (failed 2) (count_where (\<lambda>o'. ob_published_at o' = None) (db_outbox s)) @
     single Counter ''task_retries_total'' (failed 3) (count_where (\<lambda>a. ta_attempt_number a > 1) (db_attempts s)) @
     single Counter ''task_dead_letter_total'' (failed 4) (count_where (\<lambda>o'. ob_event_type o' = ''task.dead'') (db_outbox s)) @
     grouped Counter ''workflow_runs_total'' (failed 5) (map (\<lambda>r. ([run_status_text (wr_status r)], 1)) (db_runs s)) @
     grouped Counter ''tenant_workflow_runs_total'' (failed 6)
       (map (\<lambda>r. ([txt (wr_tenant_id r), run_status_text (wr_status r)], 1)) (db_runs s)) @
     grouped Counter ''tenant_task_attempts_total'' (failed 7)
       (concat (map (\<lambda>a. map (\<lambda>x. ([x], 1)) (tenant_of_attempt txt s a)) (db_attempts s))) @
     grouped Counter ''tenant_artifact_bytes_total'' (failed 8)
       (map (\<lambda>a. ([txt (ar_tenant_id a), ar_kind a], case ar_size_bytes a of None \<Rightarrow> 0 | Some n \<Rightarrow> of_int n))
         (filter (\<lambda>a. ar_status a = ArtifactReady) (db_artifacts s))) @
     (if failed 9 then []
      else concat (map (\<lambda>w. [Gauge ''worker_active_tasks'' [txt (wh_tenant_id w), wh_worker_id w] (of_int (wh_active_tasks w)),
                             Gauge ''worker_heartbeat_age_seconds'' [txt (wh_tenant_id w), wh_worker_id w]
                               (max 0 (epoch (wh_last_seen_at w) now))]) (db_workers s))) @
     histograms ''workflow_duration_seconds'' (failed 10)
       (concat (map (\<lambda>r. case (wr_started_at r, wr_completed_at r) of (Some a, Some b) \<Rightarrow> [([txt (wr_tenant_id r)], epoch a b)] | _ \<Rightarrow> [])
         (db_runs s))) @
     histograms ''task_scheduling_delay_seconds'' (failed 11)
       (concat (map (\<lambda>a. map (\<lambda>x. ([x], epoch (ta_scheduled_at a) (ta_started_at a))) (tenant_of_attempt txt s a)) (db_attempts s))) @
     histograms ''task_execution_duration_seconds'' (failed 12)
       (concat (map (\<lambda>a. case (ta_executing_at a, ta_ended_at a) of
                           (Some b, Some e) \<Rightarrow> map (\<lambda>x. ([x], epoch b e)) (tenant_of_attempt txt s a) | _ \<Rightarrow> []) (db_attempts s))) @
     histograms ''artifact_latency_seconds'' (failed 13)
       (concat (map (\<lambda>a. case ar_ready_at a of None \<Rightarrow> [] | Some b \<Rightarrow> [([txt (ar_tenant_id a), ar_kind a], epoch (ar_created_at a) b)])
         (db_artifacts s)))"

section \<open>The loop computes histograms\<close>

text \<open>The values that count for a label list.\<close>

definition observed :: "string list \<Rightarrow> (string list \<times> rat) list \<Rightarrow> rat list" where
  "observed ls rows = map snd (filter (\<lambda>(l, v). l = ls \<and> \<not> v < 0) rows)"

definition bucket_count :: "rat list \<Rightarrow> rat \<Rightarrow> nat option" where
  "bucket_count vs b = (let n = length (filter (\<lambda>v. v \<le> b) vs) in if b \<in> set durationBuckets \<and> n > 0 then Some n else None)"

definition aggregate_of :: "rat list \<Rightarrow> histogramAggregate" where
  "aggregate_of vs = \<lparr>hg_count = length vs, hg_sum = sum_list vs, hg_buckets = bucket_count vs\<rparr>"

lemma takeWhile_until: "c \<notin> set x \<Longrightarrow> takeWhile (\<lambda>d. d \<noteq> c) (x @ c # r) = x"
  by (induction x) auto

lemma label_key_split: "CHR 0x00 \<notin> set x \<Longrightarrow> takeWhile (\<lambda>d. d \<noteq> CHR 0x00) (x @ label_key xs) = x"
  by (cases xs) (auto simp: label_key_def takeWhile_until takeWhile_eq_all_conv)

text \<open>Values of PostgreSQL hold no NUL, so different labels have different keys.\<close>

lemma label_key_inj:
  assumes "label_key ls = label_key ls'" "length ls = length ls'" "\<forall>l \<in> set ls \<union> set ls'. CHR 0x00 \<notin> set l"
  shows "ls = ls'"
  using assms
proof (induction ls arbitrary: ls')
  case (Cons l ls)
  then obtain l' ks where ls': "ls' = l' # ks" by (cases ls') auto
  have e: "l @ label_key ls = l' @ label_key ks" using Cons.prems(1) by (simp add: ls' label_key_def)
  with label_key_split [of l ls] label_key_split [of l' ks] Cons.prems(3) have "l = l'" by (simp add: ls')
  with e Cons show ?case by (simp add: ls')
qed simp

lemma count_buckets_at:
  "distinct bs \<Longrightarrow> count_buckets v bs m b =
     (if b \<in> set bs \<and> v \<le> b then Some ((case m b of None \<Rightarrow> 0 | Some n \<Rightarrow> n) + 1) else m b)"
  by (induction v bs m rule: count_buckets.induct) auto

lemma distinct_durationBuckets: "distinct durationBuckets"
  by (simp add: durationBuckets_def)

lemma observe_aggregate: "observe v (aggregate_of vs) = aggregate_of (vs @ [v])"
proof -
  have "count_buckets v durationBuckets (bucket_count vs) b = bucket_count (vs @ [v]) b" for b
    unfolding count_buckets_at [OF distinct_durationBuckets] by (auto simp: bucket_count_def Let_def)
  then show ?thesis by (auto simp: observe_def aggregate_of_def)
qed

lemma aggregate_of_Nil: "no_aggregate = aggregate_of []"
  by (auto simp: no_aggregate_def aggregate_of_def bucket_count_def)

definition aggregated :: "(string list \<times> rat) list \<Rightarrow> (string \<times> string list \<times> histogramAggregate) list \<Rightarrow> bool" where
  "aggregated rows m \<longleftrightarrow> distinct (map fst m) \<and>
     set m = (\<lambda>ls. (label_key ls, ls, aggregate_of (observed ls rows))) ` {ls. observed ls rows \<noteq> []}"

definition labels_ok :: "nat \<Rightarrow> (string list \<times> rat) list \<Rightarrow> bool" where
  "labels_ok n rows \<longleftrightarrow> (\<forall>(ls, v) \<in> set rows. length ls = n \<and> (\<forall>l \<in> set ls. CHR 0x00 \<notin> set l))"

lemma observed_snoc: "observed ls (rows @ [(ks, v)]) = observed ls rows @ (if ks = ls \<and> \<not> v < 0 then [v] else [])"
  by (simp add: observed_def)

lemma observed_labels: "observed ls rows \<noteq> [] \<Longrightarrow> \<exists>v. (ls, v) \<in> set rows"
  by (auto simp: observed_def filter_empty_conv)

lemma aggregated_step:
  assumes m: "aggregated rows m" and ok: "labels_ok n (rows @ [(ks, v)])" and v: "\<not> v < 0"
  shows "aggregated (rows @ [(ks, v)])
    (case map_of m (label_key ks) of
       None \<Rightarrow> m @ [(label_key ks, ks, observe v no_aggregate)]
     | Some _ \<Rightarrow> map (\<lambda>(k, ls, a). if k = label_key ks then (k, ls, observe v a) else (k, ls, a)) m)"
proof -
  let ?entry = "\<lambda>rows ls. (label_key ls, ls, aggregate_of (observed ls rows))"
  have inj: "label_key ls = label_key ks \<longleftrightarrow> ls = ks" if "observed ls rows \<noteq> []" for ls
  proof -
    from observed_labels [OF that] ok have "length ls = length ks" "\<forall>l \<in> set ls \<union> set ks. CHR 0x00 \<notin> set l" by (auto simp: labels_ok_def)
    then show ?thesis using label_key_inj [of ls ks] by auto
  qed
  have set: "set m = ?entry rows ` {ls. observed ls rows \<noteq> []}" and d: "distinct (map fst m)"
    using m by (simp_all add: aggregated_def)
  have o: "observed ls (rows @ [(ks, v)]) = (if ls = ks then observed ks rows @ [v] else observed ls rows)" for ls
    using v by (simp add: observed_snoc)
  show ?thesis
  proof (cases "map_of m (label_key ks)")
    case None
    then have k: "label_key ks \<notin> fst ` set m" by (simp add: map_of_eq_None_iff)
    then have e: "observed ks rows = []" unfolding set by force
    have A: "{ls. observed ls (rows @ [(ks, v)]) \<noteq> []} = insert ks {ls. observed ls rows \<noteq> []}" by (auto simp: o)
    have "?entry (rows @ [(ks, v)]) ` {ls. observed ls rows \<noteq> []} = set m"
      unfolding set by (rule image_cong [OF refl]) (use e in \<open>auto simp: o\<close>)
    with k d show ?thesis unfolding aggregated_def A
      by (simp add: None o e aggregate_of_Nil observe_aggregate)
  next
    case (Some x)
    let ?f = "\<lambda>(k, ls, a). if k = label_key ks then (k, ls, observe v a) else (k, ls, a)"
    from Some have "(label_key ks, x) \<in> set m" by (rule map_of_SomeD)
    then obtain ls where "observed ls rows \<noteq> []" "label_key ls = label_key ks" unfolding set by auto
    with inj have e: "observed ks rows \<noteq> []" by metis
    then have A: "{ls. observed ls (rows @ [(ks, v)]) \<noteq> []} = {ls. observed ls rows \<noteq> []}" by (auto simp: o)
    have "set (map ?f m) = ?entry (rows @ [(ks, v)]) ` {ls. observed ls rows \<noteq> []}"
      unfolding set_map set image_image by (rule image_cong [OF refl]) (simp add: inj o observe_aggregate)
    moreover have "map fst (map ?f m) = map fst m" by (simp add: case_prod_beta)
    with d have "distinct (map fst (map ?f m))" by (rule back_subst [of distinct, OF _ sym])
    ultimately show ?thesis unfolding aggregated_def A Some option.case by (intro conjI)
  qed
qed

lemma aggregated_rows:
  "aggregated prev m \<Longrightarrow> labels_ok n (prev @ rows) \<Longrightarrow> aggregated (prev @ rows) (aggregate_rows rows m)"
proof (induction rows m arbitrary: prev rule: aggregate_rows.induct)
  case (2 ks v rows m)
  show ?case
  proof (cases "v < 0")
    case True
    with 2(3) have "aggregated (prev @ [(ks, v)]) m" by (simp add: aggregated_def observed_snoc)
    from "2.IH"(1) [OF True this] 2(4) True show ?thesis by simp
  next
    case False
    from 2(4) have "labels_ok n (prev @ [(ks, v)])" by (auto simp: labels_ok_def)
    from "2.IH"(2) [OF False refl aggregated_step [OF 2(3) this False]] 2(4) False show ?thesis by (simp add: Let_def)
  qed
qed simp

text \<open>
  The loop over the rows of a query gives one histogram for every combination of labels that has a
  value: its count and its sum are those of the values that are not negative, and each bucket that is
  not empty counts the values up to its boundary.
\<close>

lemma histograms_exact:
  assumes "labels_ok n rows"
  shows "HistogramSample name ls c q bk \<in> set (histograms name False rows) \<longleftrightarrow>
    observed ls rows \<noteq> [] \<and> c = length (observed ls rows) \<and> q = sum_list (observed ls rows) \<and> bk = bucket_count (observed ls rows)"
proof -
  have "aggregated ([] @ rows) (aggregate_rows rows [])"
    by (rule aggregated_rows [where n = n]) (use assms in \<open>auto simp: aggregated_def observed_def\<close>)
  then have set: "set (aggregate_rows rows []) = (\<lambda>ls. (label_key ls, ls, aggregate_of (observed ls rows))) ` {ls. observed ls rows \<noteq> []}"
    by (simp add: aggregated_def)
  show ?thesis unfolding histograms_def by (auto simp: set image_iff aggregate_of_def)
qed

end
